(* ===== verification/Prelude.thy ===== *)
theory Prelude
  imports Complex_Main "HOL-Library.AList"
begin

text \<open>
  Shared vocabulary of the ConceptNet development: the Python exceptions the
  modules raise, written as values of a sum type; the sequencing of fallible
  steps (\<open>py_bind\<close>); Python list indexing that raises instead of reading
  out of range; and Python's insertion-ordered \<open>dict\<close>, modelled as an
  association list whose assignment \<open>d[k] = v\<close> is \<open>AList.update k v d\<close>
  (an existing key keeps its position, a new key is appended at the end, as
  CPython's dict does). The generic lemmas on these are collected in
  \<open>py_simps\<close> and \<open>dict_simps\<close>, which the component theories use.
\<close>

named_theorems py_simps "evaluation rules for the Python primitives"
named_theorems dict_simps "rules for the Python dict model"

section \<open>Python exceptions and fallible steps\<close>

datatype py_error =
    IndexError
  | KeyError
  | ValueError
  | AssertionError
  | HTTPError
  | OSError
  | SysExit string

type_synonym 'a py_result = "py_error + 'a"

definition py_bind :: "'e + 'a \<Rightarrow> ('a \<Rightarrow> 'e + 'b) \<Rightarrow> 'e + 'b" where
  "py_bind m f = (case m of Inl e \<Rightarrow> Inl e | Inr a \<Rightarrow> f a)"

text \<open>\<open>xs[i]\<close> for a non-negative index: IndexError beyond the end.\<close>

definition py_nth :: "'a list \<Rightarrow> nat \<Rightarrow> 'a py_result" where
  "py_nth xs i = (if i < length xs then Inr (xs ! i) else Inl IndexError)"

text \<open>The builtin \<open>max(a, b)\<close> keeps \<open>a\<close> unless \<open>b > a\<close>.\<close>

definition py_max :: "'a::linorder \<Rightarrow> 'a \<Rightarrow> 'a" where
  "py_max a b = (if a < b then b else a)"

section \<open>Python dicts\<close>

type_synonym ('k, 'v) pydict = "('k \<times> 'v) list"

text \<open>\<open>k in d\<close>\<close>

abbreviation py_in :: "'k \<Rightarrow> ('k, 'v) pydict \<Rightarrow> bool" where
  "py_in k d \<equiv> map_of d k \<noteq> None"

text \<open>\<open>d.get(k, dflt)\<close>: the value stored under \<open>k\<close>, or a default.\<close>

definition dict_get :: "('k, 'v) pydict \<Rightarrow> 'k \<Rightarrow> 'v \<Rightarrow> 'v" where
  "dict_get d k dflt = (case map_of d k of None \<Rightarrow> dflt | Some v \<Rightarrow> v)"

type_synonym concept = string
type_synonym relation = string

section \<open>Lemmas on the primitives\<close>

lemma py_bind_simps [simp, py_simps]:
  "py_bind (Inl e) f = Inl e"
  "py_bind (Inr a) f = f a"
  by (simp_all add: py_bind_def)

lemma py_bind_Inr_iff:
  "py_bind m f = Inr b \<longleftrightarrow> (\<exists>a. m = Inr a \<and> f a = Inr b)"
  by (cases m) (auto simp: py_bind_def)

lemma py_bind_Inr_right [simp]: "py_bind m Inr = m"
  by (cases m) simp_all

lemma py_bind_Inl_iff:
  "py_bind m f = Inl e \<longleftrightarrow> m = Inl e \<or> (\<exists>a. m = Inr a \<and> f a = Inl e)"
  by (cases m) (auto simp: py_bind_def)

lemma py_nth_simps [simp, py_simps]:
  "py_nth [] i = Inl IndexError"
  "py_nth (x # xs) 0 = Inr x"
  "py_nth (x # xs) (Suc i) = py_nth xs i"
  by (simp_all add: py_nth_def)

lemma py_nth_numeral [simp, py_simps]:
  "py_nth (x # xs) (numeral n) = py_nth xs (pred_numeral n)"
  by (simp add: numeral_eq_Suc)

lemma py_nth_Inr_iff:
  "py_nth xs i = Inr x \<longleftrightarrow> i < length xs \<and> xs ! i = x"
  by (auto simp: py_nth_def)

lemma py_max_eq_max [simp]: "py_max a b = max a b"
  by (auto simp: py_max_def max_def)

lemma dict_get_update [simp, dict_simps]:
  "dict_get (AList.update k v d) k' dflt = (if k' = k then v else dict_get d k' dflt)"
  by (simp add: dict_get_def update_conv')

lemma dict_get_Nil [simp, dict_simps]: "dict_get [] k dflt = dflt"
  by (simp add: dict_get_def)

lemma map_of_update [simp, dict_simps]:
  "map_of (AList.update k v d) k' = (if k' = k then Some v else map_of d k')"
  by (simp add: update_conv')

lemma keys_update [dict_simps]:
  "fst ` set (AList.update k v d) = insert k (fst ` set d)"
  by (simp add: dom_update)

lemma distinct_keys_update [dict_simps]:
  "distinct (map fst d) \<Longrightarrow> distinct (map fst (AList.update k v d))"
  by (rule distinct_update)

text \<open>
  Assignment to an existing key keeps the dict's order of keys: a new value
  replaces the old in place, which is what makes Python's iteration order the
  order of first insertion.
\<close>

lemma update_keys_order [dict_simps]:
  "k \<in> fst ` set d \<Longrightarrow> map fst (AList.update k v d) = map fst d"
  by (induction d) auto

lemma update_keys_append [dict_simps]:
  "k \<notin> fst ` set d \<Longrightarrow> map fst (AList.update k v d) = map fst d @ [k]"
  by (induction d) auto

lemma set_update_subset [dict_simps]: "set (AList.update k v al) \<subseteq> insert (k, v) (set al)"
  by (induction al) auto

lemma list_all_update [dict_simps]: "P (k, v) \<Longrightarrow> list_all P al \<Longrightarrow> list_all P (AList.update k v al)"
  using set_update_subset [of k v al] by (auto simp: list_all_iff)

text \<open>\<open>d.get(k, dflt)\<close> is the default or a value stored in \<open>d\<close>.\<close>

lemma dict_get_cases: "dict_get d k dflt = dflt \<or> (k, dict_get d k dflt) \<in> set d"
  by (auto simp: dict_get_def split: option.splits dest: map_of_SomeD)

lemma list_all_dict_get [dict_simps]: "list_all P d \<Longrightarrow> P (k, dflt) \<Longrightarrow> P (k, dict_get d k dflt)"
  using dict_get_cases [of d k dflt] by (auto simp: list_all_iff)

lemma count_list_distinct: "distinct xs \<Longrightarrow> count_list xs x = (if x \<in> set xs then 1 else 0)"
  by (induction xs) auto

end
