(* ===== verification/PyStr.thy ===== *)
theory PyStr
  imports Prelude
begin

text \<open>
  The Python string builtins the sources call, as executable HOL functions:
  \<open>str.split(c)\<close> for a one-character separator, \<open>str.split()\<close> on runs of
  ASCII whitespace, \<open>file.readline()\<close> on a file's remaining text,
  \<open>str.startswith\<close>, \<open>int()\<close> on a decimal token and \<open>float()\<close> on a
  decimal token (the fragment of Python's float syntax the data files use).
  They are library code, not code of the repository; each comes with the
  facts the loaders rely on (round trips, no separator inside a field, the
  file shrinking under \<open>readline\<close>).
\<close>

abbreviation TAB :: char where "TAB \<equiv> CHR 0x09"
abbreviation NL :: char where "NL \<equiv> CHR 0x0A"

section \<open>\<open>str.split(c)\<close>\<close>

fun py_split_sep :: "char \<Rightarrow> string \<Rightarrow> string list" where
  "py_split_sep c [] = [[]]"
| "py_split_sep c (x # xs) =
     (if x = c then [] # py_split_sep c xs
      else (case py_split_sep c xs of [] \<Rightarrow> [[x]] | w # ws \<Rightarrow> (x # w) # ws))"

text \<open>\<open>c.join(ws)\<close>\<close>

fun py_join :: "char \<Rightarrow> string list \<Rightarrow> string" where
  "py_join c [] = []"
| "py_join c [w] = w"
| "py_join c (w # ws) = w @ c # py_join c ws"

section \<open>\<open>str.split()\<close>\<close>

text \<open>
  Python's \<open>str.isspace\<close> on the ASCII range: tab, newline, vertical tab,
  form feed, carriage return, the four separators 0x1C--0x1F and space.
\<close>

definition py_isspace :: "char \<Rightarrow> bool" where
  "py_isspace c \<longleftrightarrow> of_char c \<in> ({9, 10, 11, 12, 13, 28, 29, 30, 31, 32} :: nat set)"

function py_split_ws :: "string \<Rightarrow> string list" where
  "py_split_ws s =
     (let s' = dropWhile py_isspace s
      in if s' = [] then []
         else takeWhile (\<lambda>c. \<not> py_isspace c) s' # py_split_ws (dropWhile (\<lambda>c. \<not> py_isspace c) s'))"
  by pat_completeness auto
termination
proof (relation "measure length")
  fix s s' :: string
  assume s': "s' = dropWhile py_isspace s" and ne: "s' \<noteq> []"
  from ne obtain c cs where cs: "s' = c # cs" by (meson neq_Nil_conv)
  from s' cs have "\<not> py_isspace c" by (metis dropWhile_eq_Cons_conv)
  with cs have "length (dropWhile (\<lambda>c. \<not> py_isspace c) s') < length s'"
    by (simp add: le_imp_less_Suc length_dropWhile_le)
  moreover from s' have "length s' \<le> length s" by (simp add: length_dropWhile_le)
  ultimately show "(dropWhile (\<lambda>c. \<not> py_isspace c) s', s) \<in> measure length" by simp
qed simp

declare py_split_ws.simps [simp del]

section \<open>\<open>file.readline()\<close>\<close>

text \<open>
  The next line of the remaining text, with its newline if it has one, and
  the text after it. At the end of the file it returns the empty string,
  which is how the loaders' loops stop.
\<close>

fun py_readline :: "string \<Rightarrow> string \<times> string" where
  "py_readline [] = ([], [])"
| "py_readline (c # s) =
     (if c = NL then ([c], s) else (let (l, r) = py_readline s in (c # l, r)))"

text \<open>\<open>readline\<close> splits the text without losing or adding a character.\<close>

lemma py_readline_append: "fst (py_readline s) @ snd (py_readline s) = s"
  by (induction s) (auto split: prod.splits)

lemma py_readline_shrinks:
  assumes "(l, r) = py_readline s" and "l \<noteq> []"
  shows "length r < length s"
proof -
  from assms(1) py_readline_append [of s] have "l @ r = s" by (metis fst_conv snd_conv)
  with assms(2) show ?thesis by auto
qed

text \<open>The lines of a text, in the order \<open>readline\<close> returns them.\<close>

function py_lines :: "string \<Rightarrow> string list" where
  "py_lines s = (let (l, r) = py_readline s in if l = [] then [] else l # py_lines r)"
  by pat_completeness auto
termination
  by (relation "measure length") (simp_all add: py_readline_shrinks)

declare py_lines.simps [simp del]

section \<open>\<open>str.startswith\<close>, \<open>int()\<close> and \<open>float()\<close>\<close>

definition py_startswith :: "string \<Rightarrow> string \<Rightarrow> bool" where
  "py_startswith s p \<longleftrightarrow> take (length p) s = p"

definition py_isdigit :: "char \<Rightarrow> bool" where
  "py_isdigit c \<longleftrightarrow> (48 :: nat) \<le> of_char c \<and> of_char c \<le> (57 :: nat)"

definition digit_val :: "char \<Rightarrow> nat" where
  "digit_val c = of_char c - 48"

definition digits_val :: "string \<Rightarrow> nat" where
  "digits_val ds = foldl (\<lambda>n d. 10 * n + digit_val d) 0 ds"

text \<open>\<open>int(tok)\<close> for an optionally signed run of ASCII digits.\<close>

definition py_int :: "string \<Rightarrow> int option" where
  "py_int s =
     (let (sg, ds) = (case s of
            c # cs \<Rightarrow> if c = CHR ''-'' then (-1, cs) else if c = CHR ''+'' then (1, cs) else (1, s)
          | [] \<Rightarrow> (1, []))
      in if ds \<noteq> [] \<and> list_all py_isdigit ds then Some (sg * int (digits_val ds)) else None)"

text \<open>
  \<open>float(tok)\<close> for a decimal \<open>[+-]digits[.digits]\<close> surrounded by
  whitespace, read exactly as a real number (the rounding to a binary
  float is monotone, so it does not change which of two weights is larger).
\<close>

definition py_float :: "string \<Rightarrow> real option" where
  "py_float s0 =
     (let s = rev (dropWhile py_isspace (rev (dropWhile py_isspace s0)));
          (sg, t) = (case s of
            c # cs \<Rightarrow> if c = CHR ''-'' then (-1, cs) else if c = CHR ''+'' then (1, cs) else (1, s)
          | [] \<Rightarrow> (1, []));
          ip = takeWhile py_isdigit t;
          rest = dropWhile py_isdigit t;
          fp = (case rest of c # cs \<Rightarrow> if c = CHR ''.'' then cs else rest | [] \<Rightarrow> [])
      in if (rest = [] \<or> (hd rest = CHR ''.'' \<and> list_all py_isdigit fp)) \<and> ip @ fp \<noteq> []
         then Some (sg * real (digits_val (ip @ fp)) / 10 ^ length fp)
         else None)"

section \<open>Round trips\<close>

lemma py_split_sep_nonempty: "py_split_sep c s \<noteq> []"
  by (induction s) (auto split: list.splits)

lemma py_split_sep_no_sep: "c \<notin> set w \<Longrightarrow> py_split_sep c w = [w]"
  by (induction w) auto

lemma py_split_sep_append: "c \<notin> set w \<Longrightarrow> py_split_sep c (w @ c # rest) = w # py_split_sep c rest"
  by (induction w) (auto simp: py_split_sep_nonempty split: list.splits)

text \<open>\<open>c.join(ws).split(c) == ws\<close> when no field contains the separator.\<close>

lemma py_split_sep_join:
  "ws \<noteq> [] \<Longrightarrow> \<forall>w\<in>set ws. c \<notin> set w \<Longrightarrow> py_split_sep c (py_join c ws) = ws"
  by (induction c ws rule: py_join.induct) (simp_all add: py_split_sep_no_sep py_split_sep_append)

lemma py_readline_line: "NL \<notin> set l \<Longrightarrow> py_readline (l @ NL # r) = (l @ [NL], r)"
  by (induction l) auto

text \<open>Reading back a file written line by line gives the lines written.\<close>

lemma py_lines_concat:
  "\<forall>l\<in>set ls. \<exists>l'. l = l' @ [NL] \<and> NL \<notin> set l' \<Longrightarrow> py_lines (concat ls) = ls"
proof (induction ls)
  case Nil
  then show ?case by (simp add: py_lines.simps)
next
  case (Cons l ls)
  then obtain l' where l: "l = l' @ [NL]" "NL \<notin> set l'" by auto
  with Cons show ?case by (simp add: py_lines.simps [of "l' @ NL # concat ls"] py_readline_line)
qed

section \<open>Fields of a split line\<close>

lemma py_split_sep_field: "w \<in> set (py_split_sep c s) \<Longrightarrow> set w \<subseteq> set s - {c}"
proof (induction s arbitrary: w)
  case Nil
  then show ?case by simp
next
  case (Cons x xs)
  show ?case
  proof (cases "x = c")
    case True
    with Cons show ?thesis by auto
  next
    case False
    obtain v vs where xs: "py_split_sep c xs = v # vs" using py_split_sep_nonempty by (metis neq_Nil_conv)
    with False Cons.prems have "w = x # v \<or> w \<in> set vs" by simp
    then show ?thesis
    proof
      assume "w = x # v"
      with False Cons.IH [of v] xs show ?thesis by auto
    next
      assume "w \<in> set vs"
      with Cons.IH [of w] xs show ?thesis by auto
    qed
  qed
qed

lemma py_split_sep_snoc:
  "c \<noteq> x \<Longrightarrow> py_split_sep c (s @ [x]) = butlast (py_split_sep c s) @ [last (py_split_sep c s) @ [x]]"
proof (induction s)
  case Nil
  then show ?case by simp
next
  case (Cons y ys)
  obtain w ws where ys: "py_split_sep c ys = w # ws" using py_split_sep_nonempty by (metis neq_Nil_conv)
  show ?case
  proof (cases "y = c")
    case True
    with Cons ys show ?thesis by simp
  next
    case False
    with Cons ys show ?thesis by (cases ws) (auto split: list.splits)
  qed
qed

lemma py_split_sep_snoc_sep: "py_split_sep c (s @ [c]) = py_split_sep c s @ [[]]"
proof (induction s)
  case Nil
  then show ?case by simp
next
  case (Cons y ys)
  obtain w ws where ys: "py_split_sep c ys = w # ws" using py_split_sep_nonempty by (metis neq_Nil_conv)
  with Cons show ?case by (cases "y = c") auto
qed

text \<open>Every field but the last lies before the line's final character.\<close>

lemma py_split_sep_inner_field:
  assumes "c \<noteq> NL" and "NL \<notin> set (butlast s)" and "i < length (py_split_sep c s) - 1"
  shows "NL \<notin> set (py_split_sep c s ! i)"
proof (cases "s = []")
  case True
  with assms show ?thesis by simp
next
  case False
  then obtain b x where s: "s = b @ [x]" by (metis append_butlast_last_id)
  with assms(2) have b: "NL \<notin> set b" by simp
  have "py_split_sep c s ! i \<in> set (py_split_sep c b)"
  proof (cases "x = c")
    case True
    with s assms(3) show ?thesis by (simp add: py_split_sep_snoc_sep nth_append)
  next
    case False
    have ne: "py_split_sep c b \<noteq> []" by (rule py_split_sep_nonempty)
    with False s assms(3) have "py_split_sep c s ! i = butlast (py_split_sep c b) ! i"
      "i < length (butlast (py_split_sep c b))"
      by (simp_all add: py_split_sep_snoc nth_append)
    then show ?thesis by (metis in_set_butlastD nth_mem)
  qed
  with b show ?thesis using py_split_sep_field by blast
qed

lemma py_readline_butlast: "NL \<notin> set (butlast (fst (py_readline s)))"
  by (induction s) (auto split: prod.splits)

lemma py_lines_butlast: "l \<in> set (py_lines s) \<Longrightarrow> NL \<notin> set (butlast l)"
proof (induction s rule: py_lines.induct)
  case (1 s)
  obtain l1 r where lr: "py_readline s = (l1, r)" by fastforce
  from "1.prems" lr have "l = l1 \<or> (l1 \<noteq> [] \<and> l \<in> set (py_lines r))"
    by (auto simp: py_lines.simps [of s] split: if_splits)
  then show ?case
  proof
    assume "l = l1"
    with lr py_readline_butlast [of s] show ?thesis by simp
  next
    assume "l1 \<noteq> [] \<and> l \<in> set (py_lines r)"
    with "1.IH" [OF lr [symmetric]] show ?thesis by blast
  qed
qed

lemma fields_no_sep: "w \<in> set (py_split_sep c s) \<Longrightarrow> c \<notin> set w"
  using py_split_sep_field by blast

end
