(* ===== verification/Numberbatch.thy ===== *)
theory Numberbatch
  imports PyStr
begin

text \<open>
  The embedding table (\<open>ConceptNet.__load_numberbatch\<close>, conceptnet.py lines
  47--76). The file's first line holds the number of rows and the vector
  length; each row is a concept followed by its vector. The element type
  \<open>'f\<close> of a vector is a parameter, as is the parser \<open>fl\<close> that numpy applies
  to each field (\<open>None\<close> is numpy's ValueError); vectors are compared with
  HOL equality, which is \<open>np.array_equal\<close> on values that are not NaN.

  With \<open>remove_duplicate\<close>, the code keeps only the first concept for each
  vector, finding earlier vectors through a dict \<open>known_embeddings\<close> keyed by
  the vector's first element (a bucket of concepts per key). The reference
  step \<open>add_embedding_spec\<close> states the same policy without buckets; the
  refinement lemmas show that the bucket algorithm computes exactly it.
\<close>

section \<open>State and operations\<close>

text \<open>The loop's state: \<open>self.concepts\<close> and the local \<open>known_embeddings\<close>.\<close>

record 'f nb_state =
  concepts :: "(concept, 'f list) pydict"
  known_embeddings :: "('f, concept list) pydict"

text \<open>\<open>elem = line.split()\<close>, \<open>concept = elem[0]\<close>, the vector parsed from
  \<open>elem[1:]\<close>, and the assertion on its length (lines 52--57).\<close>

definition parse_row :: "(string \<Rightarrow> 'f option) \<Rightarrow> int \<Rightarrow> string \<Rightarrow> (concept \<times> 'f list) py_result" where
  "parse_row fl embedding_size line =
     (let elem = py_split_ws line in
      py_bind (py_nth elem 0) (\<lambda>concept.
        case those (map fl (drop 1 elem)) of
          None \<Rightarrow> Inl ValueError
        | Some embedding \<Rightarrow>
            if embedding_size = int (length embedding) then Inr (concept, embedding)
            else Inl AssertionError))"

text \<open>The scan of one bucket (lines 66--70): whether some concept of it is
  stored with an equal vector; \<open>self.concepts[c]\<close> raises KeyError for a
  concept that is not stored.\<close>

fun bucket_has_equal :: "(concept, 'f list) pydict \<Rightarrow> 'f list \<Rightarrow> concept list \<Rightarrow> bool py_result" where
  "bucket_has_equal cs embedding [] = Inr False"
| "bucket_has_equal cs embedding (c # rest) =
     (case map_of cs c of
        None \<Rightarrow> Inl KeyError
      | Some v \<Rightarrow> if embedding = v then Inr True else bucket_has_equal cs embedding rest)"

text \<open>One row stored (lines 59--76).\<close>

definition add_embedding :: "bool \<Rightarrow> concept \<Rightarrow> 'f list \<Rightarrow> 'f nb_state \<Rightarrow> 'f nb_state py_result" where
  "add_embedding remove_duplicate concept embedding s =
     (if remove_duplicate then
        py_bind (py_nth embedding 0) (\<lambda>e0.
          case map_of (known_embeddings s) e0 of
            None \<Rightarrow>
              Inr (s\<lparr>known_embeddings := AList.update e0 [concept] (known_embeddings s),
                     concepts := AList.update concept embedding (concepts s)\<rparr>)
          | Some bucket \<Rightarrow>
              py_bind (bucket_has_equal (concepts s) embedding bucket) (\<lambda>found.
                if \<not> found then
                  Inr (s\<lparr>known_embeddings := AList.update e0 (bucket @ [concept]) (known_embeddings s),
                         concepts := AList.update concept embedding (concepts s)\<rparr>)
                else Inr s))
      else Inr (s\<lparr>concepts := AList.update concept embedding (concepts s)\<rparr>))"

text \<open>
  The loop \<open>for i in range(num_concepts)\<close> (line 51), reading one line per
  round; at the end of the file \<open>readline\<close> gives the empty line, whose
  \<open>elem[0]\<close> raises IndexError. The step that stores a row is a parameter,
  so that the same loop runs the code's step and the reference step.
\<close>

fun load_rows ::
  "(string \<Rightarrow> 'f option) \<Rightarrow> int \<Rightarrow> (concept \<Rightarrow> 'f list \<Rightarrow> 's \<Rightarrow> 's py_result) \<Rightarrow>
   nat \<Rightarrow> string \<Rightarrow> 's \<Rightarrow> 's py_result" where
  "load_rows fl embedding_size step 0 f s = Inr s"
| "load_rows fl embedding_size step (Suc n) f s =
     (let (line, rest) = py_readline f in
      py_bind (parse_row fl embedding_size line) (\<lambda>(concept, embedding).
        py_bind (step concept embedding s) (\<lambda>s'.
          load_rows fl embedding_size step n rest s')))"

text \<open>\<open>num_concepts, embedding_size = [int(x) for x in f_in.readline().split()]\<close>:
  every field must be an integer and there must be exactly two.\<close>

definition parse_header :: "string \<Rightarrow> (int \<times> int) py_result" where
  "parse_header line =
     (case those (map py_int (py_split_ws line)) of
        Some [num_concepts, embedding_size] \<Rightarrow> Inr (num_concepts, embedding_size)
      | _ \<Rightarrow> Inl ValueError)"

text \<open>The whole method, on the file's text; it fills the empty \<open>self.concepts\<close>
  the constructor created.\<close>

definition load_numberbatch ::
  "(string \<Rightarrow> 'f option) \<Rightarrow> string \<Rightarrow> bool \<Rightarrow> (concept, 'f list) pydict py_result" where
  "load_numberbatch fl text remove_duplicate =
     (let (header, rest) = py_readline text in
      py_bind (parse_header header) (\<lambda>(num_concepts, embedding_size).
        py_bind (load_rows fl embedding_size (add_embedding remove_duplicate) (nat num_concepts) rest
                   \<lparr>concepts = [], known_embeddings = []\<rparr>)
          (\<lambda>s. Inr (concepts s))))"

text \<open>The \<open>for\<close> loop as a fold over a list of rows: the reference the loop
  over \<open>readline\<close> is compared with.\<close>

fun load_row_list ::
  "(string \<Rightarrow> 'f option) \<Rightarrow> int \<Rightarrow> (concept \<Rightarrow> 'f list \<Rightarrow> 's \<Rightarrow> 's py_result) \<Rightarrow>
   string list \<Rightarrow> 's \<Rightarrow> 's py_result" where
  "load_row_list fl embedding_size step [] s = Inr s"
| "load_row_list fl embedding_size step (line # ls) s =
     py_bind (parse_row fl embedding_size line) (\<lambda>(concept, embedding).
       py_bind (step concept embedding s) (\<lambda>s'. load_row_list fl embedding_size step ls s'))"

section \<open>The reference policy\<close>

text \<open>
  Without buckets: with \<open>remove_duplicate\<close>, a row whose vector some stored
  concept already has is dropped, and any other row is stored; without it,
  every row is stored, a later row of the same concept replacing the earlier.
  An empty vector has no first element, which the code indexes.
\<close>

definition add_embedding_spec ::
  "bool \<Rightarrow> concept \<Rightarrow> 'f list \<Rightarrow> (concept, 'f list) pydict \<Rightarrow> (concept, 'f list) pydict py_result" where
  "add_embedding_spec remove_duplicate concept embedding cs =
     (if \<not> remove_duplicate then Inr (AList.update concept embedding cs)
      else if embedding = [] then Inl IndexError
      else if embedding \<in> snd ` set cs then Inr cs
      else Inr (AList.update concept embedding cs))"

definition load_numberbatch_spec ::
  "(string \<Rightarrow> 'f option) \<Rightarrow> string \<Rightarrow> bool \<Rightarrow> (concept, 'f list) pydict py_result" where
  "load_numberbatch_spec fl text remove_duplicate =
     (let (header, rest) = py_readline text in
      py_bind (parse_header header) (\<lambda>(num_concepts, embedding_size).
        load_rows fl embedding_size (add_embedding_spec remove_duplicate) (nat num_concepts) rest []))"

text \<open>
  The invariant that links the buckets to the table: keys are distinct; every
  stored vector is non-empty and its concept is in the bucket of its first
  element; every concept of a bucket is stored.
\<close>

definition nb_inv :: "'f nb_state \<Rightarrow> bool" where
  "nb_inv s \<longleftrightarrow>
     distinct (map fst (concepts s)) \<and>
     (\<forall>c v. map_of (concepts s) c = Some v \<longrightarrow>
        v \<noteq> [] \<and> (\<exists>b. map_of (known_embeddings s) (hd v) = Some b \<and> c \<in> set b)) \<and>
     (\<forall>k b. map_of (known_embeddings s) k = Some b \<longrightarrow> set b \<subseteq> fst ` set (concepts s))"

section \<open>The bucket scan and the invariant\<close>

lemma bucket_has_equal_correct:
  "set b \<subseteq> fst ` set cs \<Longrightarrow>
   bucket_has_equal cs e b = Inr (\<exists>c\<in>set b. map_of cs c = Some e)"
proof (induction b)
  case Nil
  then show ?case by simp
next
  case (Cons c b)
  from Cons.prems have "c \<in> fst ` set cs" by simp
  then obtain v where v: "map_of cs c = Some v"
    by (cases "map_of cs c") (simp_all add: map_of_eq_None_iff)
  from Cons.prems have "set b \<subseteq> fst ` set cs" by simp
  with Cons.IH v show ?case by simp
qed

lemma nb_inv_init: "nb_inv \<lparr>concepts = [], known_embeddings = []\<rparr>"
  by (simp add: nb_inv_def)

lemma stored_iff_map_of:
  assumes "distinct (map fst cs)"
  shows "e \<in> snd ` set cs \<longleftrightarrow> (\<exists>c. map_of cs c = Some e)"
proof
  assume "e \<in> snd ` set cs"
  then obtain c where "(c, e) \<in> set cs" by auto
  with assms have "map_of cs c = Some e" by (rule map_of_is_SomeI)
  then show "\<exists>c. map_of cs c = Some e" ..
next
  assume "\<exists>c. map_of cs c = Some e"
  then obtain c where "map_of cs c = Some e" ..
  then have "(c, e) \<in> set cs" by (rule map_of_SomeD)
  then show "e \<in> snd ` set cs" by force
qed

lemma nb_invD:
  assumes "nb_inv s"
  shows "distinct (map fst (concepts s))"
    and "map_of (concepts s) c = Some v \<Longrightarrow>
           v \<noteq> [] \<and> (\<exists>b. map_of (known_embeddings s) (hd v) = Some b \<and> c \<in> set b)"
    and "map_of (known_embeddings s) k = Some b \<Longrightarrow> set b \<subseteq> fst ` set (concepts s)"
  using assms by (auto simp: nb_inv_def)

lemma nb_inv_store:
  assumes inv: "nb_inv s" and e: "e \<noteq> []"
    and bucket: "map_of (known_embeddings s) (hd e) = Some b \<or>
                 (map_of (known_embeddings s) (hd e) = None \<and> b = [])"
  shows "nb_inv (s\<lparr>known_embeddings := AList.update (hd e) (b @ [c]) (known_embeddings s),
                   concepts := AList.update c e (concepts s)\<rparr>)"
proof -
  let ?cs = "AList.update c e (concepts s)"
  let ?kn = "AList.update (hd e) (b @ [c]) (known_embeddings s)"
  have keys: "fst ` set ?cs = insert c (fst ` set (concepts s))"
    by (rule keys_update)
  have 1: "distinct (map fst ?cs)"
    using nb_invD(1) [OF inv] by (simp add: distinct_update)
  have 2: "v \<noteq> [] \<and> (\<exists>b'. map_of ?kn (hd v) = Some b' \<and> d \<in> set b')"
    if dv: "map_of ?cs d = Some v" for d v
  proof (cases "d = c")
    case True
    with dv e show ?thesis by simp
  next
    case False
    with dv have old: "map_of (concepts s) d = Some v" by simp
    from nb_invD(2) [OF inv old] obtain b' where
      v: "v \<noteq> []" and b': "map_of (known_embeddings s) (hd v) = Some b'" and d: "d \<in> set b'"
      by blast
    show ?thesis
    proof (cases "hd v = hd e")
      case True
      with b' bucket have "b' = b" by auto
      with True v d show ?thesis by simp
    next
      case False
      with v b' d show ?thesis by simp
    qed
  qed
  have 3: "set b' \<subseteq> fst ` set ?cs" if kb: "map_of ?kn k = Some b'" for k b'
  proof (cases "k = hd e")
    case True
    with kb have "b' = b @ [c]" by simp
    moreover have "set b \<subseteq> fst ` set (concepts s)"
      using bucket by (auto dest: nb_invD(3) [OF inv])
    ultimately show ?thesis using keys by auto
  next
    case False
    with kb have "map_of (known_embeddings s) k = Some b'" by simp
    from nb_invD(3) [OF inv this] keys show ?thesis by auto
  qed
  from 1 2 3 show ?thesis by (simp add: nb_inv_def)
qed

lemma nb_inv_no_bucket:
  assumes inv: "nb_inv s" and none: "map_of (known_embeddings s) (hd e) = None"
  shows "e \<notin> snd ` set (concepts s)"
proof
  assume "e \<in> snd ` set (concepts s)"
  with nb_invD(1) [OF inv] obtain c where "map_of (concepts s) c = Some e"
    by (auto simp: stored_iff_map_of)
  from nb_invD(2) [OF inv this] none show False by simp
qed

lemma nb_inv_bucket:
  assumes inv: "nb_inv s" and some: "map_of (known_embeddings s) (hd e) = Some b"
  shows "e \<in> snd ` set (concepts s) \<longleftrightarrow> (\<exists>c\<in>set b. map_of (concepts s) c = Some e)"
proof
  assume "e \<in> snd ` set (concepts s)"
  with nb_invD(1) [OF inv] obtain c where c: "map_of (concepts s) c = Some e"
    by (auto simp: stored_iff_map_of)
  from nb_invD(2) [OF inv c] some have "c \<in> set b" by auto
  with c show "\<exists>c\<in>set b. map_of (concepts s) c = Some e" ..
next
  assume "\<exists>c\<in>set b. map_of (concepts s) c = Some e"
  with nb_invD(1) [OF inv] show "e \<in> snd ` set (concepts s)"
    by (auto simp: stored_iff_map_of)
qed

lemma add_embedding_refine:
  assumes inv: "nb_inv s"
  shows "map_sum id concepts (add_embedding True c e s) = add_embedding_spec True c e (concepts s)"
proof (cases e)
  case Nil
  then show ?thesis by (simp add: add_embedding_def add_embedding_spec_def)
next
  case (Cons e0 es)
  show ?thesis
  proof (cases "map_of (known_embeddings s) e0")
    case None
    with nb_inv_no_bucket [OF inv, of e] Cons show ?thesis
      by (simp add: add_embedding_def add_embedding_spec_def)
  next
    case (Some b)
    with Cons nb_invD(3) [OF inv] have "set b \<subseteq> fst ` set (concepts s)" by simp
    with nb_inv_bucket [OF inv, of e b] Some Cons show ?thesis
      by (simp add: add_embedding_def add_embedding_spec_def bucket_has_equal_correct)
  qed
qed

lemma add_embedding_inv:
  assumes inv: "nb_inv s" and step: "add_embedding True c e s = Inr s'"
  shows "nb_inv s'"
proof (cases e)
  case Nil
  with step show ?thesis by (simp add: add_embedding_def)
next
  case (Cons e0 es)
  show ?thesis
  proof (cases "map_of (known_embeddings s) e0")
    case None
    with Cons step have "s' = s\<lparr>known_embeddings := AList.update (hd e) ([] @ [c]) (known_embeddings s),
                              concepts := AList.update c e (concepts s)\<rparr>"
      by (simp add: add_embedding_def)
    with nb_inv_store [OF inv, of e "[]" c] None Cons show ?thesis by simp
  next
    case (Some b)
    with Cons nb_invD(3) [OF inv] have "set b \<subseteq> fst ` set (concepts s)" by simp
    then have found: "bucket_has_equal (concepts s) e b = Inr (\<exists>c\<in>set b. map_of (concepts s) c = Some e)"
      by (rule bucket_has_equal_correct)
    show ?thesis
    proof (cases "\<exists>c\<in>set b. map_of (concepts s) c = Some e")
      case True
      with step Some Cons found have "s' = s" by (simp add: add_embedding_def)
      with inv show ?thesis by simp
    next
      case False
      with step Some Cons found have "s' = s\<lparr>known_embeddings := AList.update (hd e) (b @ [c]) (known_embeddings s),
                              concepts := AList.update c e (concepts s)\<rparr>"
        by (simp add: add_embedding_def)
      with nb_inv_store [OF inv, of e b c] Some Cons show ?thesis by simp
    qed
  qed
qed

section \<open>The loop\<close>

text \<open>A simulation between two runs of the loop: a step that refines another under
  an invariant gives a loop that refines the other loop.\<close>

lemma load_rows_refine:
  assumes step: "\<And>c e s. I s \<Longrightarrow> map_sum id \<alpha> (step c e s) = step' c e (\<alpha> s)"
      and inv: "\<And>c e s s'. I s \<Longrightarrow> step c e s = Inr s' \<Longrightarrow> I s'"
      and "I s"
  shows "map_sum id \<alpha> (load_rows fl d step n f s) = load_rows fl d step' n f (\<alpha> s)"
  using assms(3)
proof (induction n arbitrary: f s)
  case 0
  then show ?case by simp
next
  case (Suc n)
  obtain line rest where lr: "py_readline f = (line, rest)" by fastforce
  show ?case
  proof (cases "parse_row fl d line")
    case (Inl err)
    with lr show ?thesis by simp
  next
    case (Inr ce)
    obtain c e where ce: "ce = (c, e)" by fastforce
    show ?thesis
    proof (cases "step c e s")
      case (Inl err)
      with step [OF Suc.prems, of c e] have "step' c e (\<alpha> s) = Inl err" by simp
      with Inl lr Inr ce show ?thesis by simp
    next
      case Inr_s: (Inr s')
      with step [OF Suc.prems, of c e] have "step' c e (\<alpha> s) = Inr (\<alpha> s')" by simp
      moreover from inv [OF Suc.prems Inr_s] have "I s'" .
      ultimately show ?thesis using Suc.IH [of s' rest] lr Inr ce Inr_s by simp
    qed
  qed
qed

lemma parse_row_length:
  "parse_row fl d line = Inr (c, e) \<Longrightarrow> int (length e) = d"
  by (auto simp: parse_row_def py_bind_def Let_def split: sum.splits option.splits if_splits)

lemma parse_row_error:
  "parse_row fl d line = Inl err \<Longrightarrow> err \<in> {IndexError, ValueError, AssertionError}"
  by (auto simp: parse_row_def py_bind_def py_nth_def Let_def split: sum.splits option.splits if_splits)

lemma load_rows_Suc_Inr:
  assumes "load_rows fl d step (Suc n) f s = Inr s'"
  obtains line rest c e s1 where "py_readline f = (line, rest)"
    and "parse_row fl d line = Inr (c, e)" and "step c e s = Inr s1"
    and "load_rows fl d step n rest s1 = Inr s'"
  using assms by (auto simp: py_bind_Inr_iff split: prod.splits)

lemma load_rows_preserves:
  assumes "load_rows fl d step n f s = Inr s'" and "P s"
      and step: "\<And>c e s s'. int (length e) = d \<Longrightarrow> P s \<Longrightarrow> step c e s = Inr s' \<Longrightarrow> P s'"
  shows "P s'"
  using assms(1,2)
proof (induction n arbitrary: f s)
  case 0
  then show ?case by simp
next
  case (Suc n)
  from Suc.prems(1) obtain line rest c e s1 where
    row: "parse_row fl d line = Inr (c, e)" and st: "step c e s = Inr s1" and
    run: "load_rows fl d step n rest s1 = Inr s'"
    by (rule load_rows_Suc_Inr)
  from step [OF parse_row_length [OF row] Suc.prems(2) st] have "P s1" .
  with run show ?case by (rule Suc.IH)
qed

lemma load_rows_error:
  assumes "load_rows fl d step n f s = Inl err"
      and step: "\<And>c e s. step c e s \<noteq> Inl KeyError"
  shows "err \<noteq> KeyError"
  using assms(1)
proof (induction n arbitrary: f s)
  case 0
  then show ?case by simp
next
  case (Suc n)
  obtain line rest where lr: "py_readline f = (line, rest)" by fastforce
  show ?case
  proof (cases "parse_row fl d line")
    case (Inl e)
    with Suc.prems lr have "e = err" by simp
    with parse_row_error [OF Inl] show ?thesis by auto
  next
    case (Inr ce)
    obtain c e where ce: "ce = (c, e)" by fastforce
    show ?thesis
    proof (cases "step c e s")
      case (Inl e')
      with Suc.prems lr Inr ce have "e' = err" by simp
      with Inl step [of c e s] show ?thesis by auto
    next
      case (Inr s1)
      with Suc.prems lr \<open>parse_row fl d line = Inr ce\<close> ce
      have "load_rows fl d step n rest s1 = Inl err" by simp
      then show ?thesis by (rule Suc.IH)
    qed
  qed
qed

lemma snd_set_update_subset:
  "snd ` set (AList.update c e cs) \<subseteq> insert e (snd ` set cs)"
  by (induction cs) auto

lemma distinct_values_update:
  "distinct (map snd cs) \<Longrightarrow> e \<notin> snd ` set cs \<Longrightarrow> distinct (map snd (AList.update c e cs))"
proof (induction cs)
  case Nil
  then show ?case by simp
next
  case (Cons p cs)
  obtain k v where p: "p = (k, v)" by fastforce
  show ?case
  proof (cases "k = c")
    case True
    with Cons.prems p show ?thesis by auto
  next
    case False
    from Cons.prems p have "v \<notin> insert e (snd ` set cs)" by auto
    with snd_set_update_subset [of c e cs] have "v \<notin> snd ` set (AList.update c e cs)" by blast
    with Cons False p show ?thesis by auto
  qed
qed

lemma add_embedding_spec_distinct:
  assumes "add_embedding_spec True c e cs = Inr cs'"
      and "distinct (map fst cs) \<and> distinct (map snd cs)"
  shows "distinct (map fst cs') \<and> distinct (map snd cs')"
  using assms distinct_values_update [of cs e c]
  by (auto simp: add_embedding_spec_def distinct_update split: if_splits)

lemma add_embedding_spec_values:
  "add_embedding_spec rd c e cs = Inr cs' \<Longrightarrow> snd ` set cs' \<subseteq> insert e (snd ` set cs)"
  using snd_set_update_subset [of c e cs] by (auto simp: add_embedding_spec_def split: if_splits)

lemma add_embedding_spec_no_KeyError: "add_embedding_spec rd c e cs \<noteq> Inl KeyError"
  by (simp add: add_embedding_spec_def)

lemma add_embedding_spec_all:
  assumes "add_embedding_spec rd c e cs = Inr cs'" and "P e" and "\<forall>v\<in>snd ` set cs. P v"
  shows "\<forall>v\<in>snd ` set cs'. P v"
proof
  fix v
  assume "v \<in> snd ` set cs'"
  with add_embedding_spec_values [OF assms(1)] have "v = e \<or> v \<in> snd ` set cs" by auto
  with assms(2,3) show "P v" by auto
qed

lemma load_numberbatch_eq_spec:
  "load_numberbatch fl text remove_duplicate = load_numberbatch_spec fl text remove_duplicate"
proof -
  have rows: "map_sum id concepts (load_rows fl d (add_embedding remove_duplicate) n f
                 \<lparr>concepts = [], known_embeddings = []\<rparr>)
            = load_rows fl d (add_embedding_spec remove_duplicate) n f []" for d n f
  proof (cases remove_duplicate)
    case True
    have "map_sum id concepts (load_rows fl d (add_embedding True) n f \<lparr>concepts = [], known_embeddings = []\<rparr>)
        = load_rows fl d (add_embedding_spec True) n f (concepts \<lparr>concepts = [], known_embeddings = []\<rparr>)"
      by (rule load_rows_refine [where I = nb_inv])
        (auto intro: add_embedding_refine add_embedding_inv nb_inv_init)
    with True show ?thesis by simp
  next
    case False
    have "map_sum id concepts (load_rows fl d (add_embedding False) n f \<lparr>concepts = [], known_embeddings = []\<rparr>)
        = load_rows fl d (add_embedding_spec False) n f (concepts \<lparr>concepts = [], known_embeddings = []\<rparr>)"
      by (rule load_rows_refine [where I = "\<lambda>_. True"])
        (auto simp: add_embedding_def add_embedding_spec_def)
    with False show ?thesis by simp
  qed
  show ?thesis
    unfolding load_numberbatch_def load_numberbatch_spec_def
    by (auto simp: py_bind_def rows [symmetric] split: prod.splits sum.splits)
qed

section \<open>The loop reads the first rows of the file\<close>

lemma py_readline_Nil_iff: "fst (py_readline f) = [] \<longleftrightarrow> f = []"
  by (cases f) (auto split: prod.splits)

lemma take_pad: "take n (xs @ replicate (Suc n) a) = take n (xs @ replicate n a)"
  by (simp add: take_append take_replicate del: replicate_Suc)

lemma parse_row_Nil: "parse_row fl d [] = Inl IndexError"
  by (simp add: parse_row_def py_split_ws.simps)

lemma add_embedding_empty_dedup: "add_embedding True c [] s = Inl IndexError"
  by (simp add: add_embedding_def)

lemma load_rows_row_list:
  "load_rows fl d step n f s = load_row_list fl d step (take n (py_lines f @ replicate n [])) s"
proof (induction n arbitrary: f s)
  case 0
  then show ?case by simp
next
  case (Suc n)
  obtain line rest where lr: "py_readline f = (line, rest)" by fastforce
  show ?case
  proof (cases "line = []")
    case True
    with lr py_readline_Nil_iff [of f] have f: "f = []" "rest = []" by auto
    have "py_lines [] = []" by (simp add: py_lines.simps)
    with f lr show ?thesis by (simp add: parse_row_Nil)
  next
    case False
    with lr have "py_lines f = line # py_lines rest" by (simp add: py_lines.simps [of f])
    moreover have "load_rows fl d step n rest = load_row_list fl d step (take n (py_lines rest @ replicate n []))"
      by (rule ext) (rule Suc.IH)
    moreover have "take (Suc n) (py_lines f @ replicate (Suc n) []) = line # take n (py_lines rest @ replicate n [])"
      using \<open>py_lines f = line # py_lines rest\<close> take_pad [of n "py_lines rest" "[]"] by simp
    ultimately show ?thesis using lr by (simp del: take_append)
  qed
qed

lemma load_row_list_append:
  "load_row_list fl d step (xs @ ys) s = py_bind (load_row_list fl d step xs s) (load_row_list fl d step ys)"
  by (induction xs arbitrary: s) (auto simp: py_bind_def split: sum.splits prod.splits)

lemma load_numberbatch_rows:
  assumes "py_readline text = (header, rest)" and "parse_header header = Inr (num, d)"
  shows "load_numberbatch fl text rdup =
           py_bind (load_row_list fl d (add_embedding rdup) (take (nat num) (py_lines rest @ replicate (nat num) []))
                      \<lparr>concepts = [], known_embeddings = []\<rparr>) (\<lambda>s. Inr (concepts s))"
  using assms by (simp add: load_numberbatch_def load_rows_row_list)

section \<open>Evaluation on concrete files\<close>

lemma load_rows_numeral [simp]:
  "load_rows fl d step (numeral k) f s = load_rows fl d step (Suc (pred_numeral k)) f s"
  by (simp add: numeral_eq_Suc)

lemma load_rows_one [simp]: "load_rows fl d step 1 f s = load_rows fl d step (Suc 0) f s"
  by simp

lemmas nb_eval = load_numberbatch_def parse_header_def parse_row_def add_embedding_def
  py_float_def py_int_def py_isspace_def py_isdigit_def digits_val_def digit_val_def
  py_split_ws.simps Let_def

lemma example_dedup_load:
  "load_numberbatch py_float (''2 2'' @ NL # ''hand 1 0'' @ NL # ''arm 1 0'' @ [NL]) True
     = Inr [(''hand'', [1::real, 0])]"
  by (simp add: nb_eval)

section \<open>Properties of the embedding table\<close>

text \<open>C6. The dict the loader builds is exactly the one the bucket-free reference
  policy builds, on every file and with or without \<open>remove_duplicate\<close>: the
  first-element buckets are an optimisation that changes no outcome, errors
  included.\<close>

theorem load_numberbatch_refines_spec:
  "load_numberbatch fl text remove_duplicate = load_numberbatch_spec fl text remove_duplicate"
  by (rule load_numberbatch_eq_spec)

text \<open>C7. With \<open>remove_duplicate\<close>, no two concepts of the loaded table share a
  vector (and no concept appears twice).\<close>

theorem load_numberbatch_dedup_distinct:
  assumes "load_numberbatch fl text True = Inr cs"
  shows "distinct (map fst cs) \<and> distinct (map snd cs)"
proof -
  from assms obtain header rest num_concepts embedding_size where
    "py_readline text = (header, rest)"
    "parse_header header = Inr (num_concepts, embedding_size)" and
    run: "load_rows fl embedding_size (add_embedding_spec True) (nat num_concepts) rest [] = Inr cs"
    by (auto simp: load_numberbatch_eq_spec load_numberbatch_spec_def py_bind_Inr_iff
             split: prod.splits)
  have step: "\<And>c e s s'. int (length e) = embedding_size \<Longrightarrow>
      distinct (map fst s) \<and> distinct (map snd s) \<Longrightarrow> add_embedding_spec True c e s = Inr s' \<Longrightarrow>
      distinct (map fst s') \<and> distinct (map snd s')"
    using add_embedding_spec_distinct by blast
  from load_rows_preserves [where P = "\<lambda>cs. distinct (map fst cs) \<and> distinct (map snd cs)", OF run _ step] show ?thesis by simp
qed

theorem load_numberbatch_dedup_distinct_witness:
  "load_numberbatch py_float (''2 2'' @ NL # ''hand 1 0'' @ NL # ''arm 1 0'' @ [NL]) True
     = Inr [(''hand'', [1, 0])] \<and>
   distinct (map fst [(''hand'', [1::real, 0])]) \<and> distinct (map snd [(''hand'', [1::real, 0])])"
  using load_numberbatch_dedup_distinct [OF example_dedup_load] example_dedup_load by simp

text \<open>C8. Every vector of a loaded table has the length the header declares.\<close>

theorem load_numberbatch_dimension:
  assumes "load_numberbatch fl text rd = Inr cs"
      and "py_readline text = (header, rest)"
      and "parse_header header = Inr (num_concepts, embedding_size)"
  shows "\<forall>v\<in>snd ` set cs. int (length v) = embedding_size"
proof -
  from assms have run: "load_rows fl embedding_size (add_embedding_spec rd) (nat num_concepts) rest [] = Inr cs"
    by (simp add: load_numberbatch_eq_spec load_numberbatch_spec_def)
  then show ?thesis
  proof (rule load_rows_preserves)
    show "\<forall>v\<in>snd ` set []. int (length v) = embedding_size" by simp
  next
    fix c e s s'
    assume "int (length e) = embedding_size"
      and "\<forall>v\<in>snd ` set s. int (length v) = embedding_size"
      and "add_embedding_spec rd c e s = Inr s'"
    then show "\<forall>v\<in>snd ` set s'. int (length v) = embedding_size"
      by (intro add_embedding_spec_all [of rd c e s s' "\<lambda>v. int (length v) = embedding_size"])
  qed
qed

theorem load_numberbatch_dimension_witness:
  "load_numberbatch py_float (''2 2'' @ NL # ''hand 1 0'' @ NL # ''arm 1 0'' @ [NL]) True
     = Inr [(''hand'', [1, 0])] \<and>
   py_readline (''2 2'' @ NL # ''hand 1 0'' @ NL # ''arm 1 0'' @ [NL])
     = (''2 2'' @ [NL], ''hand 1 0'' @ NL # ''arm 1 0'' @ [NL]) \<and>
   parse_header (''2 2'' @ [NL]) = Inr (2, 2) \<and>
   int (length [1::real, 0]) = 2"
proof -
  have r: "py_readline (''2 2'' @ NL # ''hand 1 0'' @ NL # ''arm 1 0'' @ [NL])
     = (''2 2'' @ [NL], ''hand 1 0'' @ NL # ''arm 1 0'' @ [NL])" by simp
  have h: "parse_header (''2 2'' @ [NL]) = Inr (2, 2)" by (simp add: nb_eval)
  from load_numberbatch_dimension [OF example_dedup_load r h] example_dedup_load r h
  show ?thesis by simp
qed

text \<open>C9. Loading the embedding file never raises KeyError: the bucket scan only
  reads concepts that are stored.\<close>

theorem load_numberbatch_no_KeyError: "load_numberbatch fl text rd \<noteq> Inl KeyError"
proof
  assume err: "load_numberbatch fl text rd = Inl KeyError"
  obtain header rest where hr: "py_readline text = (header, rest)" by fastforce
  show False
  proof (cases "parse_header header")
    case (Inl e)
    with err hr show False
      by (auto simp: load_numberbatch_eq_spec load_numberbatch_spec_def parse_header_def
               split: option.splits list.splits)
  next
    case (Inr nd)
    obtain n d where nd: "nd = (n, d)" by fastforce
    with err hr Inr have "load_rows fl d (add_embedding_spec rd) (nat n) rest [] = Inl KeyError"
      by (simp add: load_numberbatch_eq_spec load_numberbatch_spec_def)
    from load_rows_error [OF this add_embedding_spec_no_KeyError] show False by simp
  qed
qed

text \<open>C24. A file whose header declares more rows than it holds makes the
  load fail with IndexError (the row \<open>readline\<close> returns at the end of the
  file is the empty string, and \<open>''.split()[0]\<close> raises): no partial table
  is returned.\<close>

theorem load_numberbatch_truncated:
  assumes "py_readline text = (header, rest)" and "parse_header header = Inr (num, d)"
      and "length (py_lines rest) < nat num"
      and "load_row_list fl d (add_embedding rdup) (py_lines rest) \<lparr>concepts = [], known_embeddings = []\<rparr> = Inr s"
  shows "load_numberbatch fl text rdup = Inl IndexError"
proof -
  obtain k where k: "nat num - length (py_lines rest) = Suc k" using assms(3) by (metis Suc_diff_Suc)
  have "take (nat num) (py_lines rest @ replicate (nat num) []) = py_lines rest @ [] # replicate k []"
    using assms(3) k by (simp add: take_append min_def)
  with assms show ?thesis
    by (simp add: load_numberbatch_rows load_row_list_append parse_row_Nil)
qed

theorem load_numberbatch_truncated_witness:
  "load_numberbatch py_float (''2 2'' @ NL # ''hand 1 0'' @ [NL]) False = Inl IndexError"
proof -
  have r: "py_readline (''2 2'' @ NL # ''hand 1 0'' @ [NL]) = (''2 2'' @ [NL], ''hand 1 0'' @ [NL])" by simp
  have h: "parse_header (''2 2'' @ [NL]) = Inr (2, 2)" by (simp add: nb_eval)
  have l: "py_lines (''hand 1 0'' @ [NL]) = [''hand 1 0'' @ [NL]]" by (simp add: py_lines.simps)
  have s: "load_row_list py_float 2 (add_embedding False) (py_lines (''hand 1 0'' @ [NL])) \<lparr>concepts = [], known_embeddings = []\<rparr> =
             Inr \<lparr>concepts = [(''hand'', [1::real, 0])], known_embeddings = []\<rparr>" by (simp only: l) (simp add: nb_eval)
  have n: "length (py_lines (''hand 1 0'' @ [NL])) < nat 2" by (simp only: l) simp
  from load_numberbatch_truncated [OF r h n s] show ?thesis .
qed

text \<open>C25. A row whose vector length differs from the header's dimension
  makes the load fail with AssertionError, whatever the rows after it.\<close>

theorem load_numberbatch_row_length_error:
  assumes "py_readline text = (header, rest)" and "parse_header header = Inr (num, d)"
      and "take (nat num) (py_lines rest) = ls1 @ l # ls2"
      and "load_row_list fl d (add_embedding rdup) ls1 \<lparr>concepts = [], known_embeddings = []\<rparr> = Inr s1"
      and "py_split_ws l = concept # vals" and "those (map fl vals) = Some v" and "int (length v) \<noteq> d"
  shows "load_numberbatch fl text rdup = Inl AssertionError"
proof -
  have "take (nat num) (py_lines rest @ replicate (nat num) []) = ls1 @ l # (ls2 @ take (nat num - length (py_lines rest)) (replicate (nat num) []))"
    using assms(3) by (simp add: take_append)
  moreover have "parse_row fl d l = Inl AssertionError"
    using assms(5-7) by (simp add: parse_row_def)
  ultimately show ?thesis using assms(1,2,4)
    by (simp add: load_numberbatch_rows load_row_list_append)
qed

theorem load_numberbatch_row_length_error_witness:
  "load_numberbatch py_float (''2 2'' @ NL # ''hand 1 0 0'' @ NL # ''arm 0 1'' @ [NL]) False = Inl AssertionError"
proof -
  have r: "py_readline (''2 2'' @ NL # ''hand 1 0 0'' @ NL # ''arm 0 1'' @ [NL]) = (''2 2'' @ [NL], ''hand 1 0 0'' @ NL # ''arm 0 1'' @ [NL])" by simp
  have h: "parse_header (''2 2'' @ [NL]) = Inr (2, 2)" by (simp add: nb_eval)
  have l: "take (nat 2) (py_lines (''hand 1 0 0'' @ NL # ''arm 0 1'' @ [NL])) = [] @ (''hand 1 0 0'' @ [NL]) # [''arm 0 1'' @ [NL]]"
    by (simp add: py_lines.simps)
  have s: "load_row_list py_float 2 (add_embedding False) [] \<lparr>concepts = [], known_embeddings = []\<rparr> =
             Inr \<lparr>concepts = [], known_embeddings = []\<rparr>" by simp
  have w: "py_split_ws (''hand 1 0 0'' @ [NL]) = ''hand'' # [''1'', ''0'', ''0'']" by (simp add: nb_eval)
  have v: "those (map py_float [''1'', ''0'', ''0'']) = Some [1, 0, 0]" by (simp add: nb_eval)
  from load_numberbatch_row_length_error [OF r h l s w v] show ?thesis by simp
qed

text \<open>C26. With \<open>remove_duplicate\<close> and a declared dimension of 0, every
  file with at least one row fails: its first row is parsed into an empty
  vector, and the bucket key \<open>embedding[0]\<close> raises IndexError before the
  row is stored.\<close>

theorem dedup_zero_dimension:
  assumes "py_readline text = (header, rest)" and "parse_header header = Inr (num, 0)"
      and "0 < num" and "py_lines rest = l # ls" and "py_split_ws l = [concept]"
  shows "parse_row fl 0 l = Inr (concept, []) \<and> load_numberbatch fl text True = Inl IndexError"
proof -
  have row: "parse_row fl 0 l = Inr (concept, [])" using assms(5) by (simp add: parse_row_def)
  obtain k where k: "nat num = Suc k" using assms(3) by (metis gr0_implies_Suc zero_less_nat_eq)
  have "take (nat num) (py_lines rest @ replicate (nat num) []) = l # take k (ls @ replicate (Suc k) [])"
    by (simp add: assms(4) k)
  with assms(1,2) row show ?thesis
    by (simp add: load_numberbatch_rows add_embedding_empty_dedup)
qed

theorem dedup_zero_dimension_witness:
  "parse_row py_float 0 (''hand'' @ [NL]) = Inr (''hand'', []) \<and>
   load_numberbatch py_float (''1 0'' @ NL # ''hand'' @ [NL]) True = Inl IndexError"
proof -
  have r: "py_readline (''1 0'' @ NL # ''hand'' @ [NL]) = (''1 0'' @ [NL], ''hand'' @ [NL])" by simp
  have h: "parse_header (''1 0'' @ [NL]) = Inr (1, 0)" by (simp add: nb_eval)
  have l: "py_lines (''hand'' @ [NL]) = (''hand'' @ [NL]) # []" by (simp add: py_lines.simps)
  have w: "py_split_ws (''hand'' @ [NL]) = [''hand'']" by (simp add: nb_eval)
  show ?thesis using dedup_zero_dimension [OF r h _ l w, of py_float] by simp
qed

end
