(* ===== verification/Graph.thy ===== *)
theory Graph
  imports Numberbatch
begin

text \<open>
  The relation graph (\<open>ConceptNet.__add_outbond\<close>, \<open>__add_inbond\<close> and
  \<open>__load_conceptnet\<close>, conceptnet.py lines 79--117) and the constructor that
  loads both files (lines 11--40). The object is the record \<open>conceptnet\<close>;
  its two adjacency structures are three-level dicts
  \<open>bonds[concept][other][relation] = weight\<close> (the code nests the other
  concept before the relation). A weight is read by the parameter \<open>fl\<close>
  (Python's \<open>float\<close>, \<open>None\<close> for its ValueError) into a linear order with
  a zero, the \<open>0.0\<close> a new entry starts from.

  Each line is split on tabs; a line whose label is not in
  \<open>valid_assertions\<close>, or (with \<open>remove_dangling\<close>) whose endpoints are not
  both in the embedding table, is skipped; any other line is stored as an
  outbound edge, and its reverse as a second outbound edge for a symmetric
  label or as an inbound edge otherwise, each insertion keeping the larger
  weight. \<open>classify_line\<close> and \<open>insert_edge\<close> restate one line's effect as
  "which edge, if any" and "store it"; \<open>load_line_classify\<close> proves that
  the code's line step is their composition.
\<close>

section \<open>State\<close>

type_synonym 'w bonds = "(concept, (concept, (relation, 'w) pydict) pydict) pydict"

text \<open>The attributes of a \<open>ConceptNet\<close> object. \<open>concepts\<close> is renamed
  \<open>cn_concepts\<close>, as \<open>concepts\<close> already names the embedding loader's field;
  \<open>edge_weights\<close> is created empty and never used.\<close>

record ('f, 'w) conceptnet =
  valid_assertions :: "relation set"
  symmetric_assertions :: "relation set"
  cn_concepts :: "(concept, 'f list) pydict"
  inbonds :: "'w bonds"
  outbonds :: "'w bonds"
  edge_weights :: "(concept, 'w) pydict"

definition valid_assertions_init :: "relation set" where
  "valid_assertions_init = {
     ''RelatedTo'', ''FormOf'', ''PartOf'', ''HasA'', ''UsedFor'', ''CapableOf'', ''AtLocation'',
     ''Causes'', ''HasSubevent'', ''HasFirstSubevent'', ''HasLastSubevent'', ''HasPrerequisite'',
     ''HasProperty'', ''MotivatedByGoal'', ''ObstructedBy'', ''Desires'', ''CreatedBy'', ''Synonym'',
     ''Antonym'', ''DistinctFrom'', ''DerivedFrom'', ''SymbolOf'', ''DefinedAs'', ''MannerOf'',
     ''LocatedNear'', ''HasContext'', ''SimilarTo'', ''EtymologicallyRelatedTo'',
     ''EtymologicallyDerivedFrom'', ''CausesDesire'', ''MadeOf'', ''ReceivesAction'', ''ExternalURL'',
     ''NotIsA'', ''NotDesires'', ''NotUsedFor'', ''NotCapableOf'', ''NotHasProperty''}"

definition symmetric_assertions_init :: "relation set" where
  "symmetric_assertions_init = {
     ''RelatedTo'', ''Synonym'', ''Antonym'', ''DistinctFrom'', ''LocatedNear'', ''SimilarTo'',
     ''EtymologicallyRelatedTo''}"

section \<open>Inserting an edge\<close>

text \<open>\<open>bonds[s][t][r] = max(bonds[s][t][r], w)\<close>, creating the missing levels
  and the entry \<open>0.0\<close> first (lines 80--87 and 90--97).\<close>

definition bond_insert :: "concept \<Rightarrow> concept \<Rightarrow> relation \<Rightarrow> 'w::{linorder, zero} \<Rightarrow> 'w bonds \<Rightarrow> 'w bonds" where
  "bond_insert s t r w bonds =
     (let b1 = dict_get bonds s [];
          b2 = dict_get b1 t [];
          old = dict_get b2 r 0
      in AList.update s (AList.update t (AList.update r (py_max old w) b2) b1) bonds)"

text \<open>The body of \<open>__add_outbond(elem)\<close> and \<open>__add_inbond(elem)\<close> on one of the
  two structures: \<open>elem[1]\<close>, \<open>elem[2]\<close>, \<open>elem[0]\<close> and \<open>elem[3]\<close> are read in
  this order, and \<open>float(elem[3])\<close> may fail.\<close>

definition add_bond ::
  "(string \<Rightarrow> 'w option) \<Rightarrow> string list \<Rightarrow> 'w::{linorder, zero} bonds \<Rightarrow> 'w bonds py_result" where
  "add_bond fl elem bonds =
     py_bind (py_nth elem 1) (\<lambda>s. py_bind (py_nth elem 2) (\<lambda>t. py_bind (py_nth elem 0) (\<lambda>r.
       py_bind (py_nth elem 3) (\<lambda>w_str.
         case fl w_str of
           None \<Rightarrow> Inl ValueError
         | Some w \<Rightarrow> Inr (bond_insert s t r w bonds)))))"

definition add_outbond ::
  "(string \<Rightarrow> 'w option) \<Rightarrow> string list \<Rightarrow> ('f, 'w::{linorder, zero}) conceptnet \<Rightarrow> ('f, 'w) conceptnet py_result" where
  "add_outbond fl elem cn = py_bind (add_bond fl elem (outbonds cn)) (\<lambda>b. Inr (cn\<lparr>outbonds := b\<rparr>))"

definition add_inbond ::
  "(string \<Rightarrow> 'w option) \<Rightarrow> string list \<Rightarrow> ('f, 'w::{linorder, zero}) conceptnet \<Rightarrow> ('f, 'w) conceptnet py_result" where
  "add_inbond fl elem cn = py_bind (add_bond fl elem (inbonds cn)) (\<lambda>b. Inr (cn\<lparr>inbonds := b\<rparr>))"

section \<open>Loading the relation file\<close>

text \<open>\<open>[elem[0], elem[2], elem[1], elem[3]]\<close> (lines 111 and 113).\<close>

definition reverse_elem :: "string list \<Rightarrow> string list py_result" where
  "reverse_elem elem =
     py_bind (py_nth elem 0) (\<lambda>r. py_bind (py_nth elem 2) (\<lambda>t.
       py_bind (py_nth elem 1) (\<lambda>s. py_bind (py_nth elem 3) (\<lambda>w. Inr [r, t, s, w]))))"

text \<open>One line of the loop (lines 105--113). The condition of line 108 is
  evaluated left to right and stops early, so \<open>elem[1]\<close> and \<open>elem[2]\<close> are
  read only as far as it needs them.\<close>

definition load_line ::
  "(string \<Rightarrow> 'w option) \<Rightarrow> bool \<Rightarrow> string \<Rightarrow> ('f, 'w::{linorder, zero}) conceptnet \<Rightarrow>
   ('f, 'w) conceptnet py_result" where
  "load_line fl remove_dangling line cn =
     (let elem = py_split_sep TAB line in
      py_bind (py_nth elem 0) (\<lambda>rel.
        if rel \<notin> valid_assertions cn then Inr cn
        else
          py_bind
            (if \<not> remove_dangling then Inr True
             else py_bind (py_nth elem 1) (\<lambda>s.
                    if \<not> py_in s (cn_concepts cn) then Inr False
                    else py_bind (py_nth elem 2) (\<lambda>t. Inr (py_in t (cn_concepts cn)))))
            (\<lambda>accept.
              if \<not> accept then Inr cn
              else
                py_bind (add_outbond fl elem cn) (\<lambda>cn1.
                  py_bind (reverse_elem elem) (\<lambda>rev_elem.
                    if rel \<in> symmetric_assertions cn then add_outbond fl rev_elem cn1
                    else add_inbond fl rev_elem cn1)))))"

text \<open>The loop \<open>while line: ...; line = f_in.readline()\<close> (lines 103--116) on
  the remaining text of the file. It stops at the end of the file, where
  \<open>readline\<close> returns the empty string, and on the first error.\<close>

function load_conceptnet ::
  "(string \<Rightarrow> 'w option) \<Rightarrow> bool \<Rightarrow> string \<Rightarrow> ('f, 'w::{linorder, zero}) conceptnet \<Rightarrow>
   ('f, 'w) conceptnet py_result" where
  "load_conceptnet fl remove_dangling f cn =
     (let (line, rest) = py_readline f in
      if line = [] then Inr cn
      else case load_line fl remove_dangling line cn of
             Inl e \<Rightarrow> Inl e
           | Inr cn' \<Rightarrow> load_conceptnet fl remove_dangling rest cn')"
  by pat_completeness auto
termination
  by (relation "measure (\<lambda>(fl, rd, f, cn). length f)") (simp_all add: py_readline_shrinks)

declare load_conceptnet.simps [simp del]

text \<open>The constructor (lines 11--40): the constant label sets, the empty
  dicts, the embedding file loaded first and the relation file after it, the
  latter reading the table the former built.\<close>

definition conceptnet_init ::
  "(string \<Rightarrow> 'f option) \<Rightarrow> (string \<Rightarrow> 'w option) \<Rightarrow> string \<Rightarrow> string \<Rightarrow> bool \<Rightarrow> bool \<Rightarrow>
   ('f, 'w::{linorder, zero}) conceptnet py_result" where
  "conceptnet_init ffl wfl conceptnet_text numberbatch_text remove_duplicate remove_dangling =
     (let cn0 = \<lparr>valid_assertions = valid_assertions_init,
                 symmetric_assertions = symmetric_assertions_init,
                 cn_concepts = [], inbonds = [], outbonds = [], edge_weights = []\<rparr>
      in py_bind (load_numberbatch ffl numberbatch_text remove_duplicate) (\<lambda>cs.
           load_conceptnet wfl remove_dangling conceptnet_text (cn0\<lparr>cn_concepts := cs\<rparr>)))"

section \<open>The graph as a map of edges\<close>

text \<open>\<open>bonds[s][t][r]\<close> read as a partial map; the missing levels read as
  empty dicts, which is how every query treats them.\<close>

definition lookup3 :: "'w bonds \<Rightarrow> concept \<Rightarrow> concept \<Rightarrow> relation \<Rightarrow> 'w option" where
  "lookup3 bonds s t r = map_of (dict_get (dict_get bonds s []) t []) r"

text \<open>Keys are distinct at every level, as they are in a dict.\<close>

definition bonds_wf :: "'w bonds \<Rightarrow> bool" where
  "bonds_wf bonds \<longleftrightarrow>
     distinct (map fst bonds) \<and>
     list_all (\<lambda>(s, b1). distinct (map fst b1) \<and> list_all (\<lambda>(t, b2). distinct (map fst b2)) b1) bonds"

text \<open>The invariant of a built object: both adjacency structures are
  well-formed dicts.\<close>

definition graph_wf :: "('f, 'w) conceptnet \<Rightarrow> bool" where
  "graph_wf cn \<longleftrightarrow> bonds_wf (outbonds cn) \<and> bonds_wf (inbonds cn)"

text \<open>
  One line restated as the edge it contributes: \<open>None\<close> for a skipped line,
  \<open>Some (r, s, t, w)\<close> for a stored one, an error where the code raises.
  Storing an edge inserts it into \<open>outbonds\<close> and its reverse into
  \<open>outbonds\<close> or \<open>inbonds\<close>.
\<close>

definition classify_line ::
  "(string \<Rightarrow> 'w option) \<Rightarrow> relation set \<Rightarrow> bool \<Rightarrow> (concept, 'f list) pydict \<Rightarrow> string \<Rightarrow>
   (relation \<times> concept \<times> concept \<times> 'w) option py_result" where
  "classify_line fl valid remove_dangling cs line =
     (let elem = py_split_sep TAB line in
      py_bind (py_nth elem 0) (\<lambda>rel.
        if rel \<notin> valid then Inr None
        else if remove_dangling \<and> length elem < 2 then Inl IndexError
        else if remove_dangling \<and> \<not> py_in (elem ! 1) cs then Inr None
        else if remove_dangling \<and> length elem < 3 then Inl IndexError
        else if remove_dangling \<and> \<not> py_in (elem ! 2) cs then Inr None
        else if length elem < 4 then Inl IndexError
        else case fl (elem ! 3) of
               None \<Rightarrow> Inl ValueError
             | Some w \<Rightarrow> Inr (Some (rel, elem ! 1, elem ! 2, w))))"

definition insert_edge ::
  "relation \<Rightarrow> concept \<Rightarrow> concept \<Rightarrow> 'w::{linorder, zero} \<Rightarrow> ('f, 'w) conceptnet \<Rightarrow> ('f, 'w) conceptnet" where
  "insert_edge r s t w cn =
     (let cn1 = cn\<lparr>outbonds := bond_insert s t r w (outbonds cn)\<rparr>
      in if r \<in> symmetric_assertions cn then cn1\<lparr>outbonds := bond_insert t s r w (outbonds cn1)\<rparr>
         else cn1\<lparr>inbonds := bond_insert t s r w (inbonds cn1)\<rparr>)"

text \<open>The loop over the file's lines, and the edges a list of lines contributes.\<close>

fun load_lines ::
  "(string \<Rightarrow> 'w option) \<Rightarrow> bool \<Rightarrow> string list \<Rightarrow> ('f, 'w::{linorder, zero}) conceptnet \<Rightarrow>
   ('f, 'w) conceptnet py_result" where
  "load_lines fl remove_dangling [] cn = Inr cn"
| "load_lines fl remove_dangling (l # ls) cn =
     py_bind (load_line fl remove_dangling l cn) (\<lambda>cn'. load_lines fl remove_dangling ls cn')"

fun accepted_edges ::
  "(string \<Rightarrow> 'w option) \<Rightarrow> relation set \<Rightarrow> bool \<Rightarrow> (concept, 'f list) pydict \<Rightarrow> string list \<Rightarrow>
   (relation \<times> concept \<times> concept \<times> 'w) list py_result" where
  "accepted_edges fl valid remove_dangling cs [] = Inr []"
| "accepted_edges fl valid remove_dangling cs (l # ls) =
     py_bind (classify_line fl valid remove_dangling cs l) (\<lambda>e.
       py_bind (accepted_edges fl valid remove_dangling cs ls) (\<lambda>es.
         Inr (case e of None \<Rightarrow> es | Some x \<Rightarrow> x # es)))"

text \<open>
  The weights the edges contribute to the outbound entry \<open>(s, t, r)\<close>: an
  edge \<open>s \<rightarrow> t\<close>, and for a symmetric label also an edge \<open>t \<rightarrow> s\<close>; and to
  the inbound entry: an edge \<open>t \<rightarrow> s\<close> of a label that is not symmetric.
  \<open>acc_weight\<close> folds them into an entry as the insertions do: a new
  entry starts from \<open>0\<close> and each weight keeps the larger value.
\<close>

definition out_weights ::
  "(relation \<times> concept \<times> concept \<times> 'w) list \<Rightarrow> relation set \<Rightarrow> concept \<Rightarrow> concept \<Rightarrow> relation \<Rightarrow> 'w list" where
  "out_weights es symset s t r =
     [w. (r', a, b, w) \<leftarrow> es, r' = r \<and> ((a, b) = (s, t) \<or> (r \<in> symset \<and> (b, a) = (s, t)))]"

definition in_weights ::
  "(relation \<times> concept \<times> concept \<times> 'w) list \<Rightarrow> relation set \<Rightarrow> concept \<Rightarrow> concept \<Rightarrow> relation \<Rightarrow> 'w list" where
  "in_weights es symset s t r = [w. (r', a, b, w) \<leftarrow> es, r' = r \<and> r \<notin> symset \<and> (b, a) = (s, t)]"

definition acc_weight :: "'w::{linorder, zero} option \<Rightarrow> 'w list \<Rightarrow> 'w option" where
  "acc_weight old ws = foldl (\<lambda>acc w. Some (max (case acc of None \<Rightarrow> 0 | Some v \<Rightarrow> v) w)) old ws"

section \<open>Example data\<close>

text \<open>The end-to-end example of the specification (section 8): a two-row
  embedding file and a three-line relation file with a duplicate, heavier
  \<open>RelatedTo\<close> edge. \<open>example_graph\<close> is the object the constructor builds
  from them.\<close>

definition example_numberbatch :: string where
  "example_numberbatch = ''2 3'' @ NL # ''hand 1.0 0.0 0.0'' @ NL # ''arm 0.0 1.0 0.0'' @ [NL]"
definition example_line1 :: string where
  "example_line1 = ''RelatedTo'' @ TAB # ''hand'' @ TAB # ''arm'' @ TAB # ''0.5'' @ [NL]"
definition example_line2 :: string where
  "example_line2 = ''RelatedTo'' @ TAB # ''hand'' @ TAB # ''arm'' @ TAB # ''0.8'' @ [NL]"
definition example_line3 :: string where
  "example_line3 = ''PartOf'' @ TAB # ''arm'' @ TAB # ''hand'' @ TAB # ''0.9'' @ [NL]"
definition example_conceptnet :: string where
  "example_conceptnet = example_line1 @ example_line2 @ example_line3"

definition example_table :: "(concept, real list) pydict" where
  "example_table = [(''hand'', [1, 0, 0]), (''arm'', [0, 1, 0])]"

abbreviation example_state :: "real bonds \<Rightarrow> real bonds \<Rightarrow> (real, real) conceptnet" where
  "example_state ib ob \<equiv> \<lparr>valid_assertions = valid_assertions_init, symmetric_assertions = symmetric_assertions_init,
        cn_concepts = example_table, inbonds = ib, outbonds = ob, edge_weights = []\<rparr>"

definition example_graph :: "(real, real) conceptnet" where
  "example_graph = example_state
     [(''hand'', [(''arm'', [(''PartOf'', 9/10)])])]
     [(''hand'', [(''arm'', [(''RelatedTo'', 4/5)])]),
      (''arm'', [(''hand'', [(''RelatedTo'', 4/5), (''PartOf'', 9/10)])])]"

text \<open>Two malformed relation lines: one with a fifth field, one with only
  three.\<close>

definition example_long_line :: string where
  "example_long_line = ''RelatedTo'' @ TAB # ''hand'' @ TAB # ''arm'' @ TAB # ''0.5'' @ TAB # ''x'' @ [NL]"

definition example_short_line :: string where
  "example_short_line = ''PartOf'' @ TAB # ''arm'' @ TAB # ''hand'' @ [NL]"

section \<open>Inserting an edge, as a map\<close>

lemma lookup3_bond_insert:
  "lookup3 (bond_insert s t r w b) s' t' r' =
     (if (s', t', r') = (s, t, r) then Some (max (case lookup3 b s t r of None \<Rightarrow> 0 | Some v \<Rightarrow> v) w)
      else lookup3 b s' t' r')"
  by (auto simp: lookup3_def bond_insert_def Let_def dict_get_def split: option.splits)

lemma add_bond_eq:
  "add_bond fl elem b =
     (if length elem < 4 then Inl IndexError
      else case fl (elem ! 3) of
             None \<Rightarrow> Inl ValueError
           | Some w \<Rightarrow> Inr (bond_insert (elem ! 1) (elem ! 2) (elem ! 0) w b))"
  by (auto simp: add_bond_def py_nth_def split: option.splits)

lemma reverse_elem_eq:
  "reverse_elem elem = (if length elem < 4 then Inl IndexError else Inr [elem ! 0, elem ! 2, elem ! 1, elem ! 3])"
  by (auto simp: reverse_elem_def py_nth_def)

lemma load_line_classify:
  "load_line fl rd line cn =
     (case classify_line fl (valid_assertions cn) rd (cn_concepts cn) line of
        Inl e \<Rightarrow> Inl e
      | Inr None \<Rightarrow> Inr cn
      | Inr (Some (r, s, t, w)) \<Rightarrow> Inr (insert_edge r s t w cn))"
proof -
  obtain elem where elem: "py_split_sep TAB line = elem" by simp
  then have ne: "elem \<noteq> []" using py_split_sep_nonempty by blast
  show ?thesis
    unfolding load_line_def classify_line_def Let_def elem
    using ne
    by (auto simp: py_nth_def add_outbond_def add_inbond_def add_bond_eq reverse_elem_eq
                   insert_edge_def Let_def split: option.splits)
qed

lemma insert_edge_frame [simp]:
  "valid_assertions (insert_edge r s t w cn) = valid_assertions cn"
  "symmetric_assertions (insert_edge r s t w cn) = symmetric_assertions cn"
  "cn_concepts (insert_edge r s t w cn) = cn_concepts cn"
  by (simp_all add: insert_edge_def Let_def)

lemma load_conceptnet_lines:
  "load_conceptnet fl rd f cn = load_lines fl rd (py_lines f) cn"
proof (induction fl rd f cn rule: load_conceptnet.induct)
  case (1 fl rd f cn)
  obtain line rest where lr: "py_readline f = (line, rest)" by fastforce
  show ?case
  proof (cases "line = []")
    case True
    with lr show ?thesis by (simp add: py_lines.simps load_conceptnet.simps)
  next
    case False
    show ?thesis
    proof (cases "load_line fl rd line cn")
      case (Inl e)
      with lr False show ?thesis by (simp add: py_lines.simps load_conceptnet.simps)
    next
      case (Inr cn')
      with lr False "1.IH" [OF refl lr [symmetric] False Inr] show ?thesis
        by (simp add: py_lines.simps load_conceptnet.simps)
    qed
  qed
qed

lemma acc_weight_append: "acc_weight old (xs @ ys) = acc_weight (acc_weight old xs) ys"
  by (simp add: acc_weight_def)

lemma acc_weight_simps [simp]:
  "acc_weight old [] = old"
  "acc_weight old [w] = Some (max (case old of None \<Rightarrow> 0 | Some v \<Rightarrow> v) w)"
  by (simp_all add: acc_weight_def)

lemma out_weights_Cons:
  "out_weights (e # es) S s t r = out_weights [e] S s t r @ out_weights es S s t r"
  by (simp add: out_weights_def)

lemma in_weights_Cons:
  "in_weights (e # es) S s t r = in_weights [e] S s t r @ in_weights es S s t r"
  by (simp add: in_weights_def)

lemma out_weights_single:
  "out_weights [(r, a, b, w)] S s t r' =
     (if r' = r \<and> ((a, b) = (s, t) \<or> (r \<in> S \<and> (b, a) = (s, t))) then [w] else [])"
  by (auto simp: out_weights_def)

lemma in_weights_single:
  "in_weights [(r, a, b, w)] S s t r' = (if r' = r \<and> r \<notin> S \<and> (b, a) = (s, t) then [w] else [])"
  by (simp add: in_weights_def)

lemma lookup3_insert_edge_out:
  "lookup3 (outbonds (insert_edge r a b w cn)) s t r' =
     acc_weight (lookup3 (outbonds cn) s t r') (out_weights [(r, a, b, w)] (symmetric_assertions cn) s t r')"
proof (cases "r \<in> symmetric_assertions cn")
  case sym: True
  then have out: "outbonds (insert_edge r a b w cn) = bond_insert b a r w (bond_insert a b r w (outbonds cn))"
    by (simp add: insert_edge_def Let_def)
  consider (ba) "(s, t, r') = (b, a, r)" | (ab) "(s, t, r') = (a, b, r)" "(s, t, r') \<noteq> (b, a, r)"
    | (other) "(s, t, r') \<noteq> (a, b, r)" "(s, t, r') \<noteq> (b, a, r)"
    by blast
  then show ?thesis
  proof cases
    case ba
    then show ?thesis
      using out sym by (cases "a = b") (simp_all add: lookup3_bond_insert out_weights_single max.assoc)
  next
    case ab
    then show ?thesis
      using out sym by (simp add: lookup3_bond_insert out_weights_single)
  next
    case other
    then have "\<not> (r' = r \<and> ((a, b) = (s, t) \<or> (r \<in> symmetric_assertions cn \<and> (b, a) = (s, t))))"
      by auto
    with other out show ?thesis
      by (simp only: lookup3_bond_insert out_weights_single if_False if_not_P) simp
  qed
next
  case False
  then have out: "outbonds (insert_edge r a b w cn) = bond_insert a b r w (outbonds cn)"
    by (simp add: insert_edge_def Let_def)
  show ?thesis
  proof (cases "(s, t, r') = (a, b, r)")
    case True
    with out show ?thesis by (simp add: lookup3_bond_insert out_weights_single)
  next
    case other: False
    with False have "\<not> (r' = r \<and> ((a, b) = (s, t) \<or> (r \<in> symmetric_assertions cn \<and> (b, a) = (s, t))))"
      by auto
    with other out show ?thesis
      by (simp only: lookup3_bond_insert out_weights_single if_not_P) simp
  qed
qed

lemma lookup3_insert_edge_in:
  "lookup3 (inbonds (insert_edge r a b w cn)) s t r' =
     acc_weight (lookup3 (inbonds cn) s t r') (in_weights [(r, a, b, w)] (symmetric_assertions cn) s t r')"
proof (cases "r \<in> symmetric_assertions cn")
  case True
  then have "inbonds (insert_edge r a b w cn) = inbonds cn"
    by (simp add: insert_edge_def Let_def)
  with True show ?thesis by (simp add: in_weights_single)
next
  case False
  then have inb: "inbonds (insert_edge r a b w cn) = bond_insert b a r w (inbonds cn)"
    by (simp add: insert_edge_def Let_def)
  show ?thesis
  proof (cases "(s, t, r') = (b, a, r)")
    case True
    with inb False show ?thesis by (simp add: lookup3_bond_insert in_weights_single)
  next
    case other: False
    then have "\<not> (r' = r \<and> r \<notin> symmetric_assertions cn \<and> (b, a) = (s, t))"
      by auto
    with other inb show ?thesis
      by (simp only: lookup3_bond_insert in_weights_single if_not_P) simp
  qed
qed

section \<open>The loaded graph as a fold over the accepted edges\<close>

lemma out_edges_step:
  "(\<lambda>s t r'. acc_weight (lookup3 (outbonds cn) s t r') (out_weights ((r, a, b, w) # es) (symmetric_assertions cn) s t r'))
   = (\<lambda>s t r'. acc_weight (lookup3 (outbonds (insert_edge r a b w cn)) s t r')
                 (out_weights es (symmetric_assertions (insert_edge r a b w cn)) s t r'))"
  by (simp add: fun_eq_iff out_weights_Cons [of "(r, a, b, w)" es] acc_weight_append lookup3_insert_edge_out)

lemma in_edges_step:
  "(\<lambda>s t r'. acc_weight (lookup3 (inbonds cn) s t r') (in_weights ((r, a, b, w) # es) (symmetric_assertions cn) s t r'))
   = (\<lambda>s t r'. acc_weight (lookup3 (inbonds (insert_edge r a b w cn)) s t r')
                 (in_weights es (symmetric_assertions (insert_edge r a b w cn)) s t r'))"
  by (simp add: fun_eq_iff in_weights_Cons [of "(r, a, b, w)" es] acc_weight_append lookup3_insert_edge_in)

lemma load_lines_edges:
  "map_sum id (\<lambda>cn'. (lookup3 (outbonds cn'), lookup3 (inbonds cn'))) (load_lines fl rd lines cn) =
   map_sum id (\<lambda>es. (\<lambda>s t r. acc_weight (lookup3 (outbonds cn) s t r) (out_weights es (symmetric_assertions cn) s t r),
                     \<lambda>s t r. acc_weight (lookup3 (inbonds cn) s t r) (in_weights es (symmetric_assertions cn) s t r)))
     (accepted_edges fl (valid_assertions cn) rd (cn_concepts cn) lines)"
proof (induction lines arbitrary: cn)
  case Nil
  show ?case by (simp add: out_weights_def in_weights_def fun_eq_iff)
next
  case (Cons l ls)
  show ?case
  proof (cases "classify_line fl (valid_assertions cn) rd (cn_concepts cn) l")
    case (Inl e)
    then show ?thesis by (simp add: load_line_classify)
  next
    case (Inr x)
    show ?thesis
    proof (cases x)
      case None
      with Inr Cons.IH [of cn] show ?thesis by (simp add: load_line_classify)
    next
      case (Some e)
      obtain r a b w where e: "e = (r, a, b, w)" by (cases e) auto
      let ?cn1 = "insert_edge r a b w cn"
      have "map_sum id (\<lambda>cn'. (lookup3 (outbonds cn'), lookup3 (inbonds cn'))) (load_lines fl rd ls ?cn1) =
            map_sum id (\<lambda>es. (\<lambda>s t r. acc_weight (lookup3 (outbonds ?cn1) s t r) (out_weights es (symmetric_assertions ?cn1) s t r),
                     \<lambda>s t r. acc_weight (lookup3 (inbonds ?cn1) s t r) (in_weights es (symmetric_assertions ?cn1) s t r)))
            (accepted_edges fl (valid_assertions cn) rd (cn_concepts cn) ls)"
        using Cons.IH [of ?cn1] by (simp only: insert_edge_frame)
      with Inr Some e show ?thesis
        by (cases "accepted_edges fl (valid_assertions cn) rd (cn_concepts cn) ls")
           (simp_all add: load_line_classify out_edges_step in_edges_step id_def)
    qed
  qed
qed

section \<open>The constructed object\<close>

lemma load_line_frame:
  assumes "load_line fl rd line cn = Inr cn1"
  shows "valid_assertions cn1 = valid_assertions cn \<and> symmetric_assertions cn1 = symmetric_assertions cn \<and>
         cn_concepts cn1 = cn_concepts cn"
  using assms by (auto simp: load_line_classify split: sum.splits option.splits prod.splits)

lemma load_lines_frame:
  assumes "load_lines fl rd lines cn = Inr cn'"
  shows "valid_assertions cn' = valid_assertions cn \<and> symmetric_assertions cn' = symmetric_assertions cn \<and>
         cn_concepts cn' = cn_concepts cn"
  using assms
proof (induction lines arbitrary: cn)
  case Nil
  then show ?case by simp
next
  case (Cons l ls)
  from Cons.prems obtain cn1 where l: "load_line fl rd l cn = Inr cn1" and ls: "load_lines fl rd ls cn1 = Inr cn'"
    by (auto simp: py_bind_Inr_iff)
  from load_line_frame [OF l] Cons.IH [OF ls] show ?case by simp
qed

lemma foldl_max_Max: "foldl max v ws = Max (insert v (set ws))"
proof (induction ws arbitrary: v)
  case Nil
  show ?case by simp
next
  case (Cons w ws)
  have "foldl max v (w # ws) = Max (insert (max v w) (set ws))"
    using Cons.IH [of "max v w"] by simp
  also have "\<dots> = Max (insert v (set (w # ws)))"
  proof (cases "ws = []")
    case True
    then show ?thesis by simp
  next
    case False
    then show ?thesis by (simp add: Max_insert max.assoc)
  qed
  finally show ?case .
qed

lemma acc_weight_Some: "acc_weight (Some v) ws = Some (foldl max v ws)"
  by (induction ws arbitrary: v) (simp_all add: acc_weight_def)

lemma acc_weight_None:
  "acc_weight None ws = (if ws = [] then None else Some (Max (insert 0 (set ws))))"
proof (cases ws)
  case Nil
  then show ?thesis by simp
next
  case (Cons w ws')
  have "acc_weight None (w # ws') = acc_weight (Some (max 0 w)) ws'"
    by (simp add: acc_weight_def)
  also have "\<dots> = Some (foldl max 0 (w # ws'))"
    by (simp add: acc_weight_Some)
  also have "\<dots> = Some (Max (insert 0 (set (w # ws'))))"
    by (simp only: foldl_max_Max)
  finally show ?thesis using Cons by simp
qed

lemma conceptnet_init_Inr:
  assumes "conceptnet_init ffl wfl ctext ntext rdup rd = Inr cn"
  obtains cs where "load_numberbatch ffl ntext rdup = Inr cs"
    and "load_lines wfl rd (py_lines ctext)
           \<lparr>valid_assertions = valid_assertions_init, symmetric_assertions = symmetric_assertions_init,
            cn_concepts = cs, inbonds = [], outbonds = [], edge_weights = []\<rparr> = Inr cn"
  using assms by (auto simp: conceptnet_init_def load_conceptnet_lines py_bind_Inr_iff)

lemma lookup3_Nil [simp]: "lookup3 [] s t r = None"
  by (simp add: lookup3_def)

lemma conceptnet_init_edges:
  assumes "conceptnet_init ffl wfl ctext ntext rdup rd = Inr cn"
  obtains es where "accepted_edges wfl valid_assertions_init rd (cn_concepts cn) (py_lines ctext) = Inr es"
    and "\<And>s t r. lookup3 (outbonds cn) s t r = acc_weight None (out_weights es symmetric_assertions_init s t r)"
    and "\<And>s t r. lookup3 (inbonds cn) s t r = acc_weight None (in_weights es symmetric_assertions_init s t r)"
proof -
  from assms obtain cs where
    load: "load_lines wfl rd (py_lines ctext)
           \<lparr>valid_assertions = valid_assertions_init, symmetric_assertions = symmetric_assertions_init,
            cn_concepts = cs, inbonds = [], outbonds = [], edge_weights = []\<rparr> = Inr cn"
    by (rule conceptnet_init_Inr)
  from load_lines_frame [OF load] have cs: "cn_concepts cn = cs" by simp
  from load_lines_edges [of wfl rd "py_lines ctext"
       "\<lparr>valid_assertions = valid_assertions_init, symmetric_assertions = symmetric_assertions_init,
            cn_concepts = cs, inbonds = [], outbonds = [], edge_weights = []\<rparr>"] load
  obtain es where
    "accepted_edges wfl valid_assertions_init rd cs (py_lines ctext) = Inr es" and
    "lookup3 (outbonds cn) = (\<lambda>s t r. acc_weight None (out_weights es symmetric_assertions_init s t r))" and
    "lookup3 (inbonds cn) = (\<lambda>s t r. acc_weight None (in_weights es symmetric_assertions_init s t r))"
    by (cases "accepted_edges wfl valid_assertions_init rd cs (py_lines ctext)") auto
  with cs show ?thesis using that by simp
qed

lemma in_weights_symmetric: "r \<in> S \<Longrightarrow> in_weights es S s t r = []"
  by (induction es) (auto simp: in_weights_def)

lemma out_weights_swap: "r \<in> S \<Longrightarrow> out_weights es S t s r = out_weights es S s t r"
  by (induction es) (auto simp: out_weights_def)

lemma in_weights_mirror: "r \<notin> S \<Longrightarrow> in_weights es S t s r = out_weights es S s t r"
  by (induction es) (auto simp: out_weights_def in_weights_def)

lemma out_weights_mem:
  "w \<in> set (out_weights es S s t r) \<Longrightarrow>
     \<exists>a b. (r, a, b, w) \<in> set es \<and> ((a, b) = (s, t) \<or> (b, a) = (s, t))"
  by (induction es) (auto simp: out_weights_def split: prod.splits if_splits)

lemma in_weights_mem:
  "w \<in> set (in_weights es S s t r) \<Longrightarrow> \<exists>a b. (r, a, b, w) \<in> set es \<and> (b, a) = (s, t)"
  by (induction es) (auto simp: in_weights_def split: prod.splits if_splits)

lemma classify_line_Some:
  assumes "classify_line fl valid rd cs line = Inr (Some (r, a, b, w))"
  shows "r \<in> valid \<and> (rd \<longrightarrow> py_in a cs \<and> py_in b cs)"
  using assms by (auto simp: classify_line_def Let_def py_nth_def split: if_splits option.splits)

lemma accepted_edges_mem:
  assumes "accepted_edges fl valid rd cs lines = Inr es" and "e \<in> set es"
  shows "\<exists>l\<in>set lines. classify_line fl valid rd cs l = Inr (Some e)"
  using assms
proof (induction lines arbitrary: es)
  case Nil
  then show ?case by simp
next
  case (Cons l ls)
  from Cons.prems(1) obtain x es' where
    x: "classify_line fl valid rd cs l = Inr x" and es': "accepted_edges fl valid rd cs ls = Inr es'" and
    es: "es = (case x of None \<Rightarrow> es' | Some y \<Rightarrow> y # es')"
    by (auto simp: py_bind_Inr_iff)
  show ?case
  proof (cases "x = Some e")
    case True
    with x show ?thesis by auto
  next
    case False
    with es Cons.prems(2) have "e \<in> set es'" by (auto split: option.splits)
    from Cons.IH [OF es' this] show ?thesis by auto
  qed
qed

lemma accepted_edges_endpoints:
  assumes "accepted_edges fl valid rd cs lines = Inr es" and "(r, a, b, w) \<in> set es"
  shows "r \<in> valid \<and> (rd \<longrightarrow> py_in a cs \<and> py_in b cs)"
proof -
  from accepted_edges_mem [OF assms] obtain l where
    "classify_line fl valid rd cs l = Inr (Some (r, a, b, w))" by blast
  then show ?thesis by (rule classify_line_Some)
qed

lemma acc_weight_None_Some: "acc_weight None ws = Some w \<Longrightarrow> ws \<noteq> [] \<and> 0 \<le> w"
  by (auto simp: acc_weight_None split: if_splits intro: Max_ge)

lemma acc_weight_Some_mem: "acc_weight None ws = Some w \<Longrightarrow> \<exists>w'. w' \<in> set ws"
  by (cases ws) (auto simp: acc_weight_None)

lemma conceptnet_stored_edge:
  assumes "conceptnet_init ffl wfl ctext ntext remove_duplicate remove_dangling = Inr cn"
      and "lookup3 (outbonds cn) s t r = Some w \<or> lookup3 (inbonds cn) s t r = Some w"
  obtains es a b w' where
    "accepted_edges wfl valid_assertions_init remove_dangling (cn_concepts cn) (py_lines ctext) = Inr es"
    "(r, a, b, w') \<in> set es" "(a, b) = (s, t) \<or> (b, a) = (s, t)"
proof -
  from assms(1) obtain es where
    es: "accepted_edges wfl valid_assertions_init remove_dangling (cn_concepts cn) (py_lines ctext) = Inr es" and
    out: "\<And>s t r. lookup3 (outbonds cn) s t r = acc_weight None (out_weights es symmetric_assertions_init s t r)" and
    inb: "\<And>s t r. lookup3 (inbonds cn) s t r = acc_weight None (in_weights es symmetric_assertions_init s t r)"
    by (rule conceptnet_init_edges) blast
  show ?thesis
  proof (cases "lookup3 (outbonds cn) s t r = Some w")
    case True
    with out obtain w' where "w' \<in> set (out_weights es symmetric_assertions_init s t r)"
      by (metis acc_weight_Some_mem)
    from out_weights_mem [OF this] that es show ?thesis by blast
  next
    case False
    with assms(2) inb obtain w' where "w' \<in> set (in_weights es symmetric_assertions_init s t r)"
      by (metis acc_weight_Some_mem)
    from in_weights_mem [OF this] that es show ?thesis by blast
  qed
qed

lemma conceptnet_stored_weight:
  assumes "conceptnet_init ffl wfl ctext ntext remove_duplicate remove_dangling = Inr cn"
      and "lookup3 (outbonds cn) s t r = Some w \<or> lookup3 (inbonds cn) s t r = Some w"
  shows "0 \<le> w"
proof -
  from assms(1) obtain es where
    out: "\<And>s t r. lookup3 (outbonds cn) s t r = acc_weight None (out_weights es symmetric_assertions_init s t r)" and
    inb: "\<And>s t r. lookup3 (inbonds cn) s t r = acc_weight None (in_weights es symmetric_assertions_init s t r)"
    by (rule conceptnet_init_edges) blast
  from assms(2) show ?thesis
    unfolding out inb by (auto dest: acc_weight_None_Some)
qed

section \<open>Well-formedness of the built object\<close>

lemma bonds_wf_bond_insert:
  assumes "bonds_wf b"
  shows "bonds_wf (bond_insert s t r w b)"
proof -
  let ?b1 = "dict_get b s []"
  let ?b2 = "dict_get ?b1 t []"
  have b1: "distinct (map fst ?b1) \<and> list_all (\<lambda>(t, b2). distinct (map fst b2)) ?b1"
    using list_all_dict_get [of "\<lambda>(s, b1). distinct (map fst b1) \<and> list_all (\<lambda>(t, b2). distinct (map fst b2)) b1" b s "[]"]
      assms by (simp add: bonds_wf_def)
  then have b2: "distinct (map fst ?b2)"
    using list_all_dict_get [of "\<lambda>(t, b2). distinct (map fst b2)" ?b1 t "[]"] by simp
  from assms b1 b2 show ?thesis
    unfolding bonds_wf_def bond_insert_def Let_def
    by (auto intro!: distinct_update list_all_update)
qed

lemma graph_wf_insert_edge: "graph_wf cn \<Longrightarrow> graph_wf (insert_edge r s t w cn)"
  by (simp add: graph_wf_def insert_edge_def Let_def bonds_wf_bond_insert)

lemma graph_wf_load_line:
  "load_line fl rd line cn = Inr cn' \<Longrightarrow> graph_wf cn \<Longrightarrow> graph_wf cn'"
  by (auto simp: load_line_classify graph_wf_insert_edge split: sum.splits option.splits prod.splits)

lemma graph_wf_load_lines:
  "load_lines fl rd lines cn = Inr cn' \<Longrightarrow> graph_wf cn \<Longrightarrow> graph_wf cn'"
proof (induction lines arbitrary: cn)
  case Nil
  then show ?case by simp
next
  case (Cons l ls)
  then obtain cn1 where "load_line fl rd l cn = Inr cn1" "load_lines fl rd ls cn1 = Inr cn'"
    by (auto simp: py_bind_Inr_iff)
  with Cons show ?case by (blast intro: graph_wf_load_line)
qed

lemma graph_wf_conceptnet_init:
  assumes "conceptnet_init ffl wfl ctext ntext rdup rd = Inr cn"
  shows "graph_wf cn"
proof -
  from assms obtain cs where
    "load_lines wfl rd (py_lines ctext)
       \<lparr>valid_assertions = valid_assertions_init, symmetric_assertions = symmetric_assertions_init,
        cn_concepts = cs, inbonds = [], outbonds = [], edge_weights = []\<rparr> = Inr cn"
    by (rule conceptnet_init_Inr)
  then show ?thesis by (rule graph_wf_load_lines) (simp add: graph_wf_def bonds_wf_def)
qed

lemma graph_wf_bonds:
  "graph_wf cn \<Longrightarrow> bonds_wf (outbonds cn)" "graph_wf cn \<Longrightarrow> bonds_wf (inbonds cn)"
  by (simp_all add: graph_wf_def)

text \<open>In a built object, \<open>inbonds\<close> is determined by \<open>outbonds\<close>, and every
  stored edge joins embedded concepts when dangling edges are dropped.\<close>

lemma conceptnet_inbonds_lookup:
  assumes "conceptnet_init ffl wfl ctext ntext rdup rd = Inr cn"
  shows "lookup3 (inbonds cn) t s r = (if r \<in> symmetric_assertions_init then None else lookup3 (outbonds cn) s t r)"
proof -
  from assms obtain es where
    "\<And>s t r. lookup3 (outbonds cn) s t r = acc_weight None (out_weights es symmetric_assertions_init s t r)" and
    "\<And>s t r. lookup3 (inbonds cn) s t r = acc_weight None (in_weights es symmetric_assertions_init s t r)"
    by (rule conceptnet_init_edges) blast
  then show ?thesis by (simp add: in_weights_symmetric in_weights_mirror)
qed

lemma conceptnet_stored_concepts:
  assumes "conceptnet_init ffl wfl ctext ntext remove_duplicate True = Inr cn"
      and "lookup3 (outbonds cn) s t r = Some w \<or> lookup3 (inbonds cn) s t r = Some w"
  shows "py_in s (cn_concepts cn) \<and> py_in t (cn_concepts cn)"
proof -
  from assms obtain es a b w' where
    es: "accepted_edges wfl valid_assertions_init True (cn_concepts cn) (py_lines ctext) = Inr es" and
    e: "(r, a, b, w') \<in> set es" and ab: "(a, b) = (s, t) \<or> (b, a) = (s, t)"
    by (rule conceptnet_stored_edge)
  from accepted_edges_endpoints [OF es e] ab show ?thesis by auto
qed

section \<open>Lines of the wrong shape\<close>

lemma classify_line_short:
  assumes "length (py_split_sep TAB line) < 4" and "hd (py_split_sep TAB line) \<in> valid"
      and "rd \<longrightarrow> length (py_split_sep TAB line) = 3 \<and> py_in (py_split_sep TAB line ! 1) cs \<and> py_in (py_split_sep TAB line ! 2) cs"
  shows "classify_line fl valid rd cs line = Inl IndexError"
proof -
  obtain r rest where e: "py_split_sep TAB line = r # rest"
    using py_split_sep_nonempty by (metis neq_Nil_conv)
  with assms show ?thesis by (auto simp: classify_line_def Let_def py_nth_def)
qed

lemma classify_line_short_dangling:
  assumes "py_split_sep TAB line = [r, s, t @ [NL]]" and "\<forall>c\<in>fst ` set cs. NL \<notin> set c"
  shows "classify_line fl valid True cs line = Inr None"
proof -
  have "map_of cs (t @ [NL]) = None"
  proof (rule ccontr)
    assume "map_of cs (t @ [NL]) \<noteq> None"
    then obtain v where "(t @ [NL], v) \<in> set cs" by (auto dest: map_of_SomeD)
    then have "t @ [NL] \<in> fst ` set cs" by force
    with assms(2) show False by fastforce
  qed
  with assms(1) show ?thesis by (simp add: classify_line_def Let_def)
qed

lemma load_line_four_fields:
  assumes "py_split_sep TAB l = [rel, c1, c2, w]"
  shows "load_line fl rd l cn = Inl e \<Longrightarrow> e = ValueError"
    and "fl w \<noteq> None \<Longrightarrow> \<exists>cn'. load_line fl rd l cn = Inr cn'"
  using assms by (auto simp: load_line_classify classify_line_def Let_def split: if_splits option.splits)

lemma load_lines_error:
  "load_lines fl rd ls (cn :: ('f, 'w::{linorder, zero}) conceptnet) = Inl e \<Longrightarrow>
   \<forall>l\<in>set ls. \<forall>c :: ('f, 'w) conceptnet. load_line fl rd l c = Inl e \<longrightarrow> e = E \<Longrightarrow> e = E"
proof (induction ls arbitrary: cn)
  case Nil
  then show ?case by simp
next
  case (Cons l ls)
  show ?case
  proof (cases "load_line fl rd l cn")
    case (Inl e')
    from bspec [OF Cons.prems(2) list.set_intros(1)] have "load_line fl rd l cn = Inl e \<longrightarrow> e = E" by blast
    with Cons.prems(1) Inl show ?thesis by simp
  next
    case (Inr c')
    with Cons show ?thesis by simp
  qed
qed

lemma load_lines_total:
  "\<forall>l\<in>set ls. \<forall>c :: ('f, 'w::{linorder, zero}) conceptnet. \<exists>c'. load_line fl rd l c = Inr c' \<Longrightarrow>
   \<exists>cn'. load_lines fl rd ls (cn :: ('f, 'w) conceptnet) = Inr cn'"
proof (induction ls arbitrary: cn)
  case Nil
  then show ?case by simp
next
  case (Cons l ls)
  from bspec [OF Cons.prems list.set_intros(1)] obtain c' where "load_line fl rd l cn = Inr c'" by blast
  with Cons show ?case by simp
qed

section \<open>Evaluation of the example\<close>

lemmas float_eval = py_float_def py_isspace_def py_isdigit_def digits_val_def digit_val_def

lemma example_nb: "load_numberbatch py_float example_numberbatch False = Inr example_table"
  by (simp add: example_numberbatch_def example_table_def nb_eval)

lemma example_lines: "py_lines example_conceptnet = [example_line1, example_line2, example_line3]"
  by (simp add: example_conceptnet_def example_line1_def example_line2_def example_line3_def py_lines.simps)

lemma example_classify:
  "classify_line py_float valid_assertions_init True example_table example_line1 = Inr (Some (''RelatedTo'', ''hand'', ''arm'', 1/2))"
  "classify_line py_float valid_assertions_init True example_table example_line2 = Inr (Some (''RelatedTo'', ''hand'', ''arm'', 4/5))"
  "classify_line py_float valid_assertions_init True example_table example_line3 = Inr (Some (''PartOf'', ''arm'', ''hand'', 9/10))"
  by (simp_all add: classify_line_def valid_assertions_init_def float_eval example_table_def
                    example_line1_def example_line2_def example_line3_def)

lemma example_edges:
  "accepted_edges py_float valid_assertions_init True example_table (py_lines example_conceptnet) =
   Inr [(''RelatedTo'', ''hand'', ''arm'', 1/2), (''RelatedTo'', ''hand'', ''arm'', 4/5), (''PartOf'', ''arm'', ''hand'', 9/10)]"
  by (simp only: example_lines accepted_edges.simps example_classify py_bind_simps option.case)

lemma example_steps:
  "load_line py_float True example_line1 (example_state [] []) =
     Inr (example_state [] [(''hand'', [(''arm'', [(''RelatedTo'', 1/2)])]), (''arm'', [(''hand'', [(''RelatedTo'', 1/2)])])])"
  "load_line py_float True example_line2
     (example_state [] [(''hand'', [(''arm'', [(''RelatedTo'', 1/2)])]), (''arm'', [(''hand'', [(''RelatedTo'', 1/2)])])]) =
     Inr (example_state [] [(''hand'', [(''arm'', [(''RelatedTo'', 4/5)])]), (''arm'', [(''hand'', [(''RelatedTo'', 4/5)])])])"
  "load_line py_float True example_line3
     (example_state [] [(''hand'', [(''arm'', [(''RelatedTo'', 4/5)])]), (''arm'', [(''hand'', [(''RelatedTo'', 4/5)])])]) =
     Inr example_graph"
  by (simp_all only: load_line_classify conceptnet.simps example_classify sum.case option.case prod.case)
     (simp_all add: insert_edge_def Let_def symmetric_assertions_init_def example_graph_def,
      simp_all add: bond_insert_def Let_def dict_get_def)

lemma example_init:
  "conceptnet_init py_float py_float example_conceptnet example_numberbatch False True = Inr example_graph"
  by (simp only: conceptnet_init_def Let_def example_nb py_bind_simps conceptnet.simps load_conceptnet_lines
                 example_lines load_lines.simps example_steps)

lemma example_graph_lookups:
  "lookup3 (outbonds example_graph) ''hand'' ''arm'' ''RelatedTo'' = Some (4/5)"
  "lookup3 (outbonds example_graph) ''arm'' ''hand'' ''RelatedTo'' = Some (4/5)"
  "lookup3 (outbonds example_graph) ''arm'' ''hand'' ''PartOf'' = Some (9/10)"
  "lookup3 (inbonds example_graph) ''hand'' ''arm'' ''PartOf'' = Some (9/10)"
  "lookup3 (inbonds example_graph) ''arm'' ''hand'' ''RelatedTo'' = None"
  by (simp_all add: example_graph_def lookup3_def dict_get_def)

section \<open>Properties of the relation graph\<close>

text \<open>C1. Loading the relation file builds, at every key, exactly the weight the
  accepted edges determine: an outbound entry \<open>(s, t, r)\<close> is the running
  maximum, from \<open>0\<close>, of the edges \<open>s \<rightarrow> t\<close> labelled \<open>r\<close> and, for a symmetric
  \<open>r\<close>, of the edges \<open>t \<rightarrow> s\<close>; an inbound entry that of the reversed edges of
  non-symmetric labels. A line the code rejects with an error makes the load
  fail with the same error as the first such line.\<close>

theorem load_conceptnet_refines_edges:
  "map_sum id (\<lambda>cn'. (lookup3 (outbonds cn'), lookup3 (inbonds cn'))) (load_conceptnet fl rd text cn) =
   map_sum id (\<lambda>es. (\<lambda>s t r. acc_weight (lookup3 (outbonds cn) s t r) (out_weights es (symmetric_assertions cn) s t r),
                     \<lambda>s t r. acc_weight (lookup3 (inbonds cn) s t r) (in_weights es (symmetric_assertions cn) s t r)))
     (accepted_edges fl (valid_assertions cn) rd (cn_concepts cn) (py_lines text))"
  unfolding load_conceptnet_lines by (rule load_lines_edges)

text \<open>C2. In a constructed object, the weight stored for a duplicated outbound
  edge is the maximum of the weights of all its accepted lines (and of
  \<open>0.0\<close>, the value a new entry starts from): never the first, the last or
  their sum.\<close>

theorem conceptnet_max_weight:
  assumes "conceptnet_init ffl wfl ctext ntext remove_duplicate remove_dangling = Inr cn"
      and "accepted_edges wfl valid_assertions_init remove_dangling (cn_concepts cn) (py_lines ctext) = Inr es"
  shows "lookup3 (outbonds cn) s t r =
           (if out_weights es symmetric_assertions_init s t r = [] then None
            else Some (Max (insert 0 (set (out_weights es symmetric_assertions_init s t r)))))"
proof -
  from assms(1) obtain es' where
    "accepted_edges wfl valid_assertions_init remove_dangling (cn_concepts cn) (py_lines ctext) = Inr es'" and
    "lookup3 (outbonds cn) s t r = acc_weight None (out_weights es' symmetric_assertions_init s t r)"
    by (rule conceptnet_init_edges) blast
  with assms(2) show ?thesis by (simp add: acc_weight_None)
qed

theorem conceptnet_max_weight_witness:
  "conceptnet_init py_float py_float example_conceptnet example_numberbatch False True = Inr example_graph \<and>
   accepted_edges py_float valid_assertions_init True (cn_concepts example_graph) (py_lines example_conceptnet) =
     Inr [(''RelatedTo'', ''hand'', ''arm'', 1/2), (''RelatedTo'', ''hand'', ''arm'', 4/5), (''PartOf'', ''arm'', ''hand'', 9/10)] \<and>
   lookup3 (outbonds example_graph) ''hand'' ''arm'' ''RelatedTo'' = Some (4/5)"
proof -
  have es: "accepted_edges py_float valid_assertions_init True (cn_concepts example_graph) (py_lines example_conceptnet) =
     Inr [(''RelatedTo'', ''hand'', ''arm'', 1/2), (''RelatedTo'', ''hand'', ''arm'', 4/5), (''PartOf'', ''arm'', ''hand'', (9/10::real))]"
    by (simp add: example_graph_def example_edges)
  from conceptnet_max_weight [OF example_init es, of "''hand''" "''arm''" "''RelatedTo''"] example_init es
  show ?thesis by (simp add: out_weights_def symmetric_assertions_init_def)
qed

text \<open>C3. A symmetric relation lives only in \<open>outbonds\<close>, in both directions
  with the same weight, and never in \<open>inbonds\<close>.\<close>

theorem conceptnet_symmetric_outbound_only:
  assumes "conceptnet_init ffl wfl ctext ntext remove_duplicate remove_dangling = Inr cn"
      and "r \<in> symmetric_assertions_init"
  shows "lookup3 (inbonds cn) s t r = None \<and> lookup3 (outbonds cn) t s r = lookup3 (outbonds cn) s t r"
proof -
  from assms(1) obtain es where
    "\<And>s t r. lookup3 (outbonds cn) s t r = acc_weight None (out_weights es symmetric_assertions_init s t r)" and
    "\<And>s t r. lookup3 (inbonds cn) s t r = acc_weight None (in_weights es symmetric_assertions_init s t r)"
    by (rule conceptnet_init_edges) blast
  with assms(2) show ?thesis by (simp add: in_weights_symmetric out_weights_swap)
qed

theorem conceptnet_symmetric_outbound_only_witness:
  "conceptnet_init py_float py_float example_conceptnet example_numberbatch False True = Inr example_graph \<and>
   ''RelatedTo'' \<in> symmetric_assertions_init \<and>
   lookup3 (inbonds example_graph) ''arm'' ''hand'' ''RelatedTo'' = None \<and>
   lookup3 (outbonds example_graph) ''hand'' ''arm'' ''RelatedTo'' = lookup3 (outbonds example_graph) ''arm'' ''hand'' ''RelatedTo''"
proof -
  have r: "''RelatedTo'' \<in> symmetric_assertions_init" by (simp add: symmetric_assertions_init_def)
  from conceptnet_symmetric_outbound_only [OF example_init r, of "''arm''" "''hand''"] example_init r
  show ?thesis by simp
qed

text \<open>C4. For a relation that is not symmetric, \<open>inbonds[t][s][r]\<close> is exactly
  \<open>outbonds[s][t][r]\<close>: the inbound structure is the mirror of the outbound
  one.\<close>

theorem conceptnet_inbound_mirrors_outbound:
  assumes "conceptnet_init ffl wfl ctext ntext remove_duplicate remove_dangling = Inr cn"
      and "r \<notin> symmetric_assertions_init"
  shows "lookup3 (inbonds cn) t s r = lookup3 (outbonds cn) s t r"
proof -
  from assms(1) obtain es where
    "\<And>s t r. lookup3 (outbonds cn) s t r = acc_weight None (out_weights es symmetric_assertions_init s t r)" and
    "\<And>s t r. lookup3 (inbonds cn) s t r = acc_weight None (in_weights es symmetric_assertions_init s t r)"
    by (rule conceptnet_init_edges) blast
  with assms(2) show ?thesis by (simp add: in_weights_mirror)
qed

theorem conceptnet_inbound_mirrors_outbound_witness:
  "conceptnet_init py_float py_float example_conceptnet example_numberbatch False True = Inr example_graph \<and>
   ''PartOf'' \<notin> symmetric_assertions_init \<and>
   lookup3 (inbonds example_graph) ''hand'' ''arm'' ''PartOf'' = Some (9/10)"
proof -
  have r: "''PartOf'' \<notin> symmetric_assertions_init" by (simp add: symmetric_assertions_init_def)
  from conceptnet_inbound_mirrors_outbound [OF example_init r, of "''hand''" "''arm''"] example_init r
  show ?thesis by (simp add: example_graph_lookups)
qed

text \<open>C5. With \<open>remove_dangling\<close>, every stored edge, outbound or inbound,
  joins two concepts that have an embedding.\<close>

theorem conceptnet_no_dangling:
  assumes "conceptnet_init ffl wfl ctext ntext remove_duplicate True = Inr cn"
      and "lookup3 (outbonds cn) s t r = Some w \<or> lookup3 (inbonds cn) s t r = Some w"
  shows "py_in s (cn_concepts cn) \<and> py_in t (cn_concepts cn)"
  using assms by (rule conceptnet_stored_concepts)

theorem conceptnet_no_dangling_witness:
  "conceptnet_init py_float py_float example_conceptnet example_numberbatch False True = Inr example_graph \<and>
   lookup3 (outbonds example_graph) ''hand'' ''arm'' ''RelatedTo'' = Some (4/5) \<and>
   py_in ''hand'' (cn_concepts example_graph) \<and> py_in ''arm'' (cn_concepts example_graph)"
proof -
  have l: "lookup3 (outbonds example_graph) ''hand'' ''arm'' ''RelatedTo'' = Some (4/5) \<or>
           lookup3 (inbonds example_graph) ''hand'' ''arm'' ''RelatedTo'' = Some (4/5)"
    by (simp add: example_graph_lookups)
  from conceptnet_no_dangling [OF example_init l] example_init show ?thesis
    by (simp add: example_graph_lookups)
qed

text \<open>C10. Every stored edge carries a label of \<open>valid_assertions\<close>.\<close>

theorem conceptnet_only_whitelisted:
  assumes "conceptnet_init ffl wfl ctext ntext remove_duplicate remove_dangling = Inr cn"
      and "lookup3 (outbonds cn) s t r = Some w \<or> lookup3 (inbonds cn) s t r = Some w"
  shows "r \<in> valid_assertions_init"
proof -
  from assms obtain es a b w' where
    es: "accepted_edges wfl valid_assertions_init remove_dangling (cn_concepts cn) (py_lines ctext) = Inr es" and
    e: "(r, a, b, w') \<in> set es"
    by (rule conceptnet_stored_edge)
  from accepted_edges_endpoints [OF es e] show ?thesis by simp
qed

theorem conceptnet_only_whitelisted_witness:
  "conceptnet_init py_float py_float example_conceptnet example_numberbatch False True = Inr example_graph \<and>
   lookup3 (outbonds example_graph) ''arm'' ''hand'' ''PartOf'' = Some (9/10) \<and>
   ''PartOf'' \<in> valid_assertions_init"
proof -
  have l: "lookup3 (outbonds example_graph) ''arm'' ''hand'' ''PartOf'' = Some (9/10) \<or>
           lookup3 (inbonds example_graph) ''arm'' ''hand'' ''PartOf'' = Some (9/10)"
    by (simp add: example_graph_lookups)
  from conceptnet_only_whitelisted [OF example_init l] example_init show ?thesis
    by (simp add: example_graph_lookups)
qed

text \<open>C11. Every stored weight is at least \<open>0\<close>, whatever the weights of the
  file: an entry starts from \<open>0.0\<close> and only grows.\<close>

theorem conceptnet_weight_nonneg:
  assumes "conceptnet_init ffl wfl ctext ntext remove_duplicate remove_dangling = Inr cn"
      and "lookup3 (outbonds cn) s t r = Some w \<or> lookup3 (inbonds cn) s t r = Some w"
  shows "0 \<le> w"
  using assms by (rule conceptnet_stored_weight)

theorem conceptnet_weight_nonneg_witness:
  "conceptnet_init py_float py_float example_conceptnet example_numberbatch False True = Inr example_graph \<and>
   lookup3 (inbonds example_graph) ''hand'' ''arm'' ''PartOf'' = Some (9/10) \<and> (0::real) \<le> 9/10"
proof -
  have l: "lookup3 (outbonds example_graph) ''hand'' ''arm'' ''PartOf'' = Some (9/10) \<or>
           lookup3 (inbonds example_graph) ''hand'' ''arm'' ''PartOf'' = Some (9/10)"
    by (simp add: example_graph_lookups)
  from conceptnet_weight_nonneg [OF example_init l] example_init show ?thesis
    by (simp add: example_graph_lookups)
qed

text \<open>C27. A line with fewer than four fields and a whitelisted label makes
  the load fail with IndexError, when \<open>remove_dangling\<close> is off or the
  endpoints it names are embedded.\<close>

theorem load_line_short_line:
  assumes "length (py_split_sep TAB line) < 4" and "hd (py_split_sep TAB line) \<in> valid_assertions cn"
      and "rd \<longrightarrow> length (py_split_sep TAB line) = 3 \<and> py_in (py_split_sep TAB line ! 1) (cn_concepts cn) \<and>
                 py_in (py_split_sep TAB line ! 2) (cn_concepts cn)"
  shows "load_line fl rd line cn = Inl IndexError"
  using classify_line_short [OF assms, of fl] by (simp add: load_line_classify)

theorem load_line_short_line_witness:
  "load_line py_float False example_short_line (example_state [] []) = Inl IndexError"
proof -
  have e: "py_split_sep TAB example_short_line = [''PartOf'', ''arm'', ''hand'' @ [NL]]"
    by (simp add: example_short_line_def)
  have "length (py_split_sep TAB example_short_line) < 4"
       "hd (py_split_sep TAB example_short_line) \<in> valid_assertions (example_state [] [])"
       "False \<longrightarrow> length (py_split_sep TAB example_short_line) = 3 \<and>
           py_in (py_split_sep TAB example_short_line ! 1) (cn_concepts (example_state [] [])) \<and>
           py_in (py_split_sep TAB example_short_line ! 2) (cn_concepts (example_state [] []))"
    by (simp_all add: e valid_assertions_init_def)
  then show ?thesis by (rule load_line_short_line)
qed

text \<open>C28. With \<open>remove_dangling\<close> (the default), a three-field line is not
  an error but is skipped whenever no embedded concept contains a newline:
  its last field keeps the line's newline, so it never names an embedded
  concept. (Without \<open>remove_dangling\<close> the same line raises IndexError,
  C27.)\<close>

theorem short_line_skipped_when_dangling:
  assumes "py_split_sep TAB line = [r, s, t @ [NL]]" and "\<forall>c\<in>fst ` set (cn_concepts cn). NL \<notin> set c"
  shows "load_line fl True line cn = Inr cn"
  using classify_line_short_dangling [OF assms, of fl "valid_assertions cn"] by (simp add: load_line_classify)

theorem short_line_skipped_when_dangling_witness:
  "load_line py_float True example_short_line (example_state [] []) = Inr (example_state [] [])"
proof -
  have e: "py_split_sep TAB example_short_line = [''PartOf'', ''arm'', ''hand'' @ [NL]]"
    by (simp add: example_short_line_def)
  have "\<forall>c\<in>fst ` set (cn_concepts (example_state [] [])). NL \<notin> set c" by (simp add: example_table_def)
  with e show ?thesis by (rule short_line_skipped_when_dangling)
qed

text \<open>C29. Fields after the fourth are ignored: a line with extra fields is
  loaded exactly as its first four fields.\<close>

theorem load_line_extra_fields:
  assumes "py_split_sep TAB line = r # s # t # w # extra"
  shows "load_line fl rd line cn = load_line fl rd (py_join TAB [r, s, t, w]) cn"
proof -
  have "\<forall>x\<in>set [r, s, t, w]. TAB \<notin> set x"
    using fields_no_sep [of _ TAB line] assms by auto
  then have j: "py_split_sep TAB (py_join TAB [r, s, t, w]) = [r, s, t, w]"
    by (intro py_split_sep_join) simp_all
  show ?thesis
    unfolding load_line_classify classify_line_def Let_def assms j by (simp add: py_nth_def eval_nat_numeral split: option.split)
qed

theorem load_line_extra_fields_witness:
  "load_line py_float True example_long_line (example_state [] []) =
   load_line py_float True (py_join TAB [''RelatedTo'', ''hand'', ''arm'', ''0.5'']) (example_state [] [])"
proof -
  have "py_split_sep TAB example_long_line = ''RelatedTo'' # ''hand'' # ''arm'' # ''0.5'' # [''x'' @ [NL]]"
    by (simp add: example_long_line_def)
  then show ?thesis by (rule load_line_extra_fields)
qed

end
