(* ===== verification/Query.thy ===== *)
theory Query
  imports Graph
begin

text \<open>
  The query facade (\<open>ConceptNet.__edge_list\<close>, \<open>__get_outbonds\<close>,
  \<open>__get_inbonds\<close>, \<open>get_embedding\<close>, \<open>query_concept\<close> and \<open>query_edge\<close>,
  conceptnet.py lines 119--171): read-only functions of a built object. An
  edge is the four-element Python list \<open>[source, relation, target, weight]\<close>,
  here a tuple, and results keep the order in which the dicts iterate.
  \<open>query_concept\<close> returns a dict with the keys \<open>'out'\<close> and, for an
  undirected query, \<open>'in'\<close>.
\<close>

type_synonym 'w edge = "concept \<times> relation \<times> concept \<times> 'w"

section \<open>Operations\<close>

text \<open>\<open>__edge_list(concept1, edges, flip)\<close> (lines 120--128).\<close>

definition edge_list ::
  "concept \<Rightarrow> (concept, (relation, 'w) pydict) pydict \<Rightarrow> bool \<Rightarrow> 'w edge list" where
  "edge_list concept1 edges flip =
     concat (map (\<lambda>(concept2, rels).
       map (\<lambda>(rel, w). if flip then (concept2, rel, concept1, w) else (concept1, rel, concept2, w)) rels)
       edges)"

text \<open>Lines 131--135 and 138--142.\<close>

definition get_outbonds :: "('f, 'w) conceptnet \<Rightarrow> concept \<Rightarrow> 'w edge list" where
  "get_outbonds cn concept =
     (case map_of (outbonds cn) concept of None \<Rightarrow> [] | Some edges \<Rightarrow> edge_list concept edges False)"

definition get_inbonds :: "('f, 'w) conceptnet \<Rightarrow> concept \<Rightarrow> 'w edge list" where
  "get_inbonds cn concept =
     (case map_of (inbonds cn) concept of None \<Rightarrow> [] | Some edges \<Rightarrow> edge_list concept edges True)"

text \<open>Lines 149--152.\<close>

definition get_embedding :: "('f, 'w) conceptnet \<Rightarrow> concept \<Rightarrow> 'f list option" where
  "get_embedding cn concept = map_of (cn_concepts cn) concept"

text \<open>Lines 155--159.\<close>

definition query_concept :: "('f, 'w) conceptnet \<Rightarrow> concept \<Rightarrow> bool \<Rightarrow> (string, 'w edge list) pydict" where
  "query_concept cn concept directed =
     (if directed then [(''out'', get_outbonds cn concept)]
      else [(''out'', get_outbonds cn concept), (''in'', get_inbonds cn concept)])"

text \<open>Lines 162--171: the outbound relations from \<open>concept1\<close> to \<open>concept2\<close>,
  then, for an undirected query, the inbound ones reported in their original
  direction.\<close>

definition query_edge :: "('f, 'w) conceptnet \<Rightarrow> concept \<Rightarrow> concept \<Rightarrow> bool \<Rightarrow> 'w edge list" where
  "query_edge cn concept1 concept2 directed =
     (let l1 = (case map_of (outbonds cn) concept1 of
                  None \<Rightarrow> []
                | Some d \<Rightarrow> (case map_of d concept2 of
                              None \<Rightarrow> []
                            | Some rels \<Rightarrow> map (\<lambda>(rel, w). (concept1, rel, concept2, w)) rels));
          l2 = (if \<not> directed then
                  (case map_of (inbonds cn) concept1 of
                     None \<Rightarrow> []
                   | Some d \<Rightarrow> (case map_of d concept2 of
                                 None \<Rightarrow> []
                               | Some rels \<Rightarrow> map (\<lambda>(rel, w). (concept2, rel, concept1, w)) rels))
                else [])
      in l1 @ l2)"

section \<open>Example data\<close>

text \<open>A relation file with a single self-loop of a relation that is not
  symmetric, loaded against the example embedding file, and the object it
  builds.\<close>

definition example_loop_line :: string where
  "example_loop_line = ''PartOf'' @ TAB # ''hand'' @ TAB # ''hand'' @ TAB # ''0.5'' @ [NL]"

definition example_loop_graph :: "(real, real) conceptnet" where
  "example_loop_graph = example_state
     [(''hand'', [(''hand'', [(''PartOf'', 1/2)])])] [(''hand'', [(''hand'', [(''PartOf'', 1/2)])])]"

section \<open>Reading the nested dicts\<close>

lemma bonds_wf_level1:
  assumes "bonds_wf b"
  shows "distinct (map fst (dict_get b s [])) \<and> list_all (\<lambda>(t, b2). distinct (map fst b2)) (dict_get b s [])"
  using list_all_dict_get [of "\<lambda>(s, b1). distinct (map fst b1) \<and> list_all (\<lambda>(t, b2). distinct (map fst b2)) b1" b s "[]"]
    assms by (simp add: bonds_wf_def)

lemma bonds_wf_level2:
  assumes "bonds_wf b"
  shows "distinct (map fst (dict_get (dict_get b s []) t []))"
  using list_all_dict_get [of "\<lambda>(t, b2). distinct (map fst b2)" "dict_get b s []" t "[]"] bonds_wf_level1 [OF assms]
  by simp

lemma mem_dict_get_lookup3:
  "bonds_wf b \<Longrightarrow> (r, w) \<in> set (dict_get (dict_get b s []) t []) \<longleftrightarrow> lookup3 b s t r = Some w"
  unfolding lookup3_def by (simp add: bonds_wf_level2)

lemma mem_dict_get_inner:
  "bonds_wf b \<Longrightarrow> (\<exists>rels. (t, rels) \<in> set (dict_get b s []) \<and> (r, w) \<in> set rels) \<longleftrightarrow> lookup3 b s t r = Some w"
proof -
  assume wf: "bonds_wf b"
  have "(\<exists>rels. (t, rels) \<in> set (dict_get b s []) \<and> (r, w) \<in> set rels) \<longleftrightarrow>
        (\<exists>rels. map_of (dict_get b s []) t = Some rels \<and> (r, w) \<in> set rels)"
    using bonds_wf_level1 [OF wf] by simp
  also have "\<dots> \<longleftrightarrow> (r, w) \<in> set (dict_get (dict_get b s []) t [])"
    by (auto simp: dict_get_def [of "dict_get b s []"] split: option.split dest: sym)
  finally show ?thesis using mem_dict_get_lookup3 [OF wf] by simp
qed

section \<open>The queries as sets of edges\<close>

lemma edge_list_Nil [simp]: "edge_list c [] flip = []"
  by (simp add: edge_list_def)

lemma get_outbonds_eq: "get_outbonds cn c = edge_list c (dict_get (outbonds cn) c []) False"
  by (simp add: get_outbonds_def dict_get_def split: option.split)

lemma get_inbonds_eq: "get_inbonds cn c = edge_list c (dict_get (inbonds cn) c []) True"
  by (simp add: get_inbonds_def dict_get_def split: option.split)

lemma query_edge_eq:
  "query_edge cn c1 c2 directed =
     map (\<lambda>(r, w). (c1, r, c2, w)) (dict_get (dict_get (outbonds cn) c1 []) c2 []) @
     (if directed then [] else map (\<lambda>(r, w). (c2, r, c1, w)) (dict_get (dict_get (inbonds cn) c1 []) c2 []))"
  by (simp add: query_edge_def dict_get_def split: option.split)

lemma set_edge_list_out:
  "set (edge_list c edges False) = {(c, r, t, w) | t r w. \<exists>rels. (t, rels) \<in> set edges \<and> (r, w) \<in> set rels}"
  by (auto simp: edge_list_def) force

lemma set_edge_list_in:
  "set (edge_list c edges True) = {(t, r, c, w) | t r w. \<exists>rels. (t, rels) \<in> set edges \<and> (r, w) \<in> set rels}"
  by (auto simp: edge_list_def) force

lemma distinct_edge_list:
  "distinct (map fst edges) \<Longrightarrow> list_all (\<lambda>(t, rels). distinct (map fst rels)) edges \<Longrightarrow>
   distinct (edge_list c edges flip)"
proof (induction edges)
  case Nil
  then show ?case by simp
next
  case (Cons e es)
  obtain t rels where e: "e = (t, rels)" by fastforce
  have split: "edge_list c (e # es) flip =
      map (\<lambda>(rel, w). if flip then (t, rel, c, w) else (c, rel, t, w)) rels @ edge_list c es flip"
    by (simp add: edge_list_def e)
  have "distinct rels" using Cons.prems e by (simp add: distinct_map)
  then have d1: "distinct (map (\<lambda>(rel, w). if flip then (t, rel, c, w) else (c, rel, t, w)) rels)"
    by (auto simp: distinct_map inj_on_def split: if_splits)
  have "t \<notin> fst ` set es" using Cons.prems e by simp
  then have disj: "set (map (\<lambda>(rel, w). if flip then (t, rel, c, w) else (c, rel, t, w)) rels) \<inter> set (edge_list c es flip) = {}"
    by (cases flip) (auto simp: set_edge_list_out set_edge_list_in, (force simp: image_iff)+)
  from Cons d1 disj show ?case by (simp add: split)
qed

lemma distinct_map_edge:
  "distinct (map fst xs) \<Longrightarrow> distinct (map (\<lambda>(r, w). (a, r, b, w)) xs)"
  by (induction xs) (auto simp: image_iff)

lemma query_edge_set:
  assumes "graph_wf cn"
  shows "set (query_edge cn c1 c2 directed) =
     {(c1, r, c2, w) | r w. lookup3 (outbonds cn) c1 c2 r = Some w} \<union>
     {(c2, r, c1, w) | r w. \<not> directed \<and> lookup3 (inbonds cn) c1 c2 r = Some w}"
  using assms by (auto simp: query_edge_eq mem_dict_get_lookup3 graph_wf_bonds)

lemma get_outbonds_set:
  "graph_wf cn \<Longrightarrow> set (get_outbonds cn c) = {(c, r, t, w) | t r w. lookup3 (outbonds cn) c t r = Some w}"
  by (simp add: get_outbonds_eq set_edge_list_out mem_dict_get_inner graph_wf_bonds)

lemma get_inbonds_set:
  "graph_wf cn \<Longrightarrow> set (get_inbonds cn c) = {(t, r, c, w) | t r w. lookup3 (inbonds cn) c t r = Some w}"
  by (simp add: get_inbonds_eq set_edge_list_in mem_dict_get_inner graph_wf_bonds)

lemma get_bonds_distinct:
  "graph_wf cn \<Longrightarrow> distinct (get_outbonds cn c)" "graph_wf cn \<Longrightarrow> distinct (get_inbonds cn c)"
  by (simp_all add: get_outbonds_eq get_inbonds_eq distinct_edge_list bonds_wf_level1 graph_wf_bonds)

lemma query_result_stored:
  assumes "graph_wf cn"
      and "(x, r, y, w) \<in> set (query_edge cn c1 c2 d) \<union> set (concat (map snd (query_concept cn c d)))"
  shows "lookup3 (outbonds cn) x y r = Some w \<or> lookup3 (inbonds cn) y x r = Some w"
  using assms(2)
  by (auto simp: query_edge_set [OF assms(1)] query_concept_def get_outbonds_set [OF assms(1)]
                 get_inbonds_set [OF assms(1)] split: if_splits)

section \<open>Evaluation of the examples\<close>

lemma example_loop_init:
  "conceptnet_init py_float py_float example_loop_line example_numberbatch False True = Inr example_loop_graph"
proof -
  have lines: "py_lines example_loop_line = [example_loop_line]"
    by (simp add: example_loop_line_def py_lines.simps)
  have cl: "classify_line py_float valid_assertions_init True example_table example_loop_line =
            Inr (Some (''PartOf'', ''hand'', ''hand'', 1/2))"
    by (simp add: classify_line_def valid_assertions_init_def float_eval example_table_def example_loop_line_def)
  have step: "load_line py_float True example_loop_line (example_state [] []) = Inr example_loop_graph"
    by (simp only: load_line_classify conceptnet.simps cl sum.case option.case prod.case)
       (simp add: insert_edge_def Let_def symmetric_assertions_init_def example_loop_graph_def,
        simp add: bond_insert_def Let_def dict_get_def)
  show ?thesis
    by (simp only: conceptnet_init_def Let_def example_nb py_bind_simps conceptnet.simps load_conceptnet_lines
                   lines load_lines.simps step)
qed

lemma example_spec_queries:
  "query_edge example_graph ''hand'' ''arm'' True = [(''hand'', ''RelatedTo'', ''arm'', 4/5)]"
  "query_edge example_graph ''arm'' ''hand'' True = [(''arm'', ''RelatedTo'', ''hand'', 4/5), (''arm'', ''PartOf'', ''hand'', 9/10)]"
  "query_edge example_graph ''hand'' ''arm'' False = [(''hand'', ''RelatedTo'', ''arm'', 4/5), (''arm'', ''PartOf'', ''hand'', 9/10)]"
  by (simp_all add: query_edge_def example_graph_def)

section \<open>Properties of the queries\<close>

text \<open>C12. On a built object, \<open>query_edge(c1, c2, directed)\<close> returns exactly
  the stored edges \<open>c1 \<rightarrow> c2\<close> with their weights and, when undirected, the
  stored edges \<open>c2 \<rightarrow> c1\<close> of the relations that are not symmetric, each in
  its original direction.\<close>

theorem query_edge_edges:
  assumes init: "conceptnet_init ffl wfl ctext ntext remove_duplicate remove_dangling = Inr cn"
  shows "set (query_edge cn c1 c2 directed) =
     {(c1, r, c2, w) | r w. lookup3 (outbonds cn) c1 c2 r = Some w} \<union>
     {(c2, r, c1, w) | r w. \<not> directed \<and> r \<notin> symmetric_assertions_init \<and> lookup3 (outbonds cn) c2 c1 r = Some w}"
  using graph_wf_conceptnet_init [OF init]
  by (auto simp: query_edge_set conceptnet_inbonds_lookup [OF init] split: if_splits)

theorem query_edge_edges_witness:
  "conceptnet_init py_float py_float example_conceptnet example_numberbatch False True = Inr example_graph \<and>
   set (query_edge example_graph ''hand'' ''arm'' False) =
     {(''hand'', ''RelatedTo'', ''arm'', 4/5), (''arm'', ''PartOf'', ''hand'', 9/10)}"
proof -
  have "set (query_edge example_graph ''hand'' ''arm'' False) =
     {(''hand'', r, ''arm'', w) | r w. lookup3 (outbonds example_graph) ''hand'' ''arm'' r = Some w} \<union>
     {(''arm'', r, ''hand'', w) | r w. \<not> False \<and> r \<notin> symmetric_assertions_init \<and>
                                     lookup3 (outbonds example_graph) ''arm'' ''hand'' r = Some w}"
    by (rule query_edge_edges [OF example_init])
  with example_init show ?thesis
    by (simp add: example_spec_queries)
qed

text \<open>C13. An undirected query of a concept with itself returns a self-loop
  of a relation that is not symmetric twice, once from \<open>outbonds\<close> and once
  reconstructed from \<open>inbonds\<close>.\<close>

theorem query_edge_self_loop_twice:
  assumes init: "conceptnet_init ffl wfl ctext ntext remove_duplicate remove_dangling = Inr cn"
      and "r \<notin> symmetric_assertions_init" and "lookup3 (outbonds cn) c c r = Some w"
  shows "count_list (query_edge cn c c False) (c, r, c, w) = 2"
proof -
  from graph_wf_conceptnet_init [OF init] have wf: "bonds_wf (outbonds cn)" "bonds_wf (inbonds cn)"
    by (simp_all add: graph_wf_bonds)
  have inb: "lookup3 (inbonds cn) c c r = Some w"
    using assms by (simp add: conceptnet_inbonds_lookup [OF init])
  have "count_list (map (\<lambda>(r, w). (c, r, c, w)) (dict_get (dict_get (outbonds cn) c []) c [])) (c, r, c, w) = 1"
    using assms(3) wf(1) by (auto simp: count_list_distinct distinct_map_edge bonds_wf_level2 mem_dict_get_lookup3)
  moreover have "count_list (map (\<lambda>(r, w). (c, r, c, w)) (dict_get (dict_get (inbonds cn) c []) c [])) (c, r, c, w) = 1"
    using inb wf(2) by (auto simp: count_list_distinct distinct_map_edge bonds_wf_level2 mem_dict_get_lookup3)
  ultimately show ?thesis by (simp add: query_edge_eq)
qed

theorem query_edge_self_loop_twice_witness:
  "conceptnet_init py_float py_float example_loop_line example_numberbatch False True = Inr example_loop_graph \<and>
   ''PartOf'' \<notin> symmetric_assertions_init \<and> lookup3 (outbonds example_loop_graph) ''hand'' ''hand'' ''PartOf'' = Some (1/2) \<and>
   query_edge example_loop_graph ''hand'' ''hand'' False =
     [(''hand'', ''PartOf'', ''hand'', 1/2), (''hand'', ''PartOf'', ''hand'', 1/2)]"
proof -
  have r: "''PartOf'' \<notin> symmetric_assertions_init" by (simp add: symmetric_assertions_init_def)
  have l: "lookup3 (outbonds example_loop_graph) ''hand'' ''hand'' ''PartOf'' = Some (1/2)"
    by (simp add: example_loop_graph_def lookup3_def dict_get_def)
  have "count_list (query_edge example_loop_graph ''hand'' ''hand'' False) (''hand'', ''PartOf'', ''hand'', 1/2) = 2"
    by (rule query_edge_self_loop_twice [OF example_loop_init r l])
  with example_loop_init r l show ?thesis by (simp add: query_edge_def example_loop_graph_def)
qed

text \<open>C14. \<open>query_concept(c, directed)\<close> has the key \<open>'out'\<close>, listing each
  stored edge from \<open>c\<close> once; the key \<open>'in'\<close> only when undirected, listing
  once each stored edge into \<open>c\<close> of a relation that is not symmetric (the
  symmetric ones are already in \<open>'out'\<close>).\<close>

theorem query_concept_edges:
  assumes init: "conceptnet_init ffl wfl ctext ntext remove_duplicate remove_dangling = Inr cn"
  shows "map_of (query_concept cn c directed) ''out'' = Some (get_outbonds cn c) \<and>
         set (get_outbonds cn c) = {(c, r, t, w) | t r w. lookup3 (outbonds cn) c t r = Some w} \<and>
         distinct (get_outbonds cn c) \<and>
         map_of (query_concept cn c directed) ''in'' = (if directed then None else Some (get_inbonds cn c)) \<and>
         set (get_inbonds cn c) =
           {(s, r, c, w) | s r w. r \<notin> symmetric_assertions_init \<and> lookup3 (outbonds cn) s c r = Some w} \<and>
         distinct (get_inbonds cn c)"
proof -
  have wf: "graph_wf cn" by (rule graph_wf_conceptnet_init [OF init])
  have outs: "set (get_outbonds cn c) = {(c, r, t, w) | t r w. lookup3 (outbonds cn) c t r = Some w}"
    by (rule get_outbonds_set [OF wf])
  have ins: "set (get_inbonds cn c) =
           {(s, r, c, w) | s r w. r \<notin> symmetric_assertions_init \<and> lookup3 (outbonds cn) s c r = Some w}"
    by (auto simp: get_inbonds_set [OF wf] conceptnet_inbonds_lookup [OF init] split: if_splits)
  have keys: "map_of (query_concept cn c directed) ''out'' = Some (get_outbonds cn c)"
    "map_of (query_concept cn c directed) ''in'' = (if directed then None else Some (get_inbonds cn c))"
    by (simp_all add: query_concept_def)
  show ?thesis by (intro conjI keys outs ins get_bonds_distinct [OF wf])
qed

theorem query_concept_edges_witness:
  "conceptnet_init py_float py_float example_conceptnet example_numberbatch False True = Inr example_graph \<and>
   set (get_inbonds example_graph ''hand'') = {(''arm'', ''PartOf'', ''hand'', 9/10)} \<and>
   map_of (query_concept example_graph ''hand'' True) ''in'' = None"
proof -
  have "set (get_inbonds example_graph ''hand'') =
           {(s, r, ''hand'', w) | s r w. r \<notin> symmetric_assertions_init \<and> lookup3 (outbonds example_graph) s ''hand'' r = Some w}"
    and "map_of (query_concept example_graph ''hand'' True) ''in'' = None"
    using query_concept_edges [OF example_init, of "''hand''" True] by simp_all
  with example_init show ?thesis
    by (simp add: get_inbonds_def edge_list_def example_graph_def)
qed

text \<open>C15. With \<open>remove_dangling\<close>, no edge returned by \<open>query_edge\<close> or
  \<open>query_concept\<close> names a concept for which \<open>get_embedding\<close> returns
  \<open>None\<close>.\<close>

theorem query_no_dangling:
  assumes init: "conceptnet_init ffl wfl ctext ntext remove_duplicate True = Inr cn"
      and "(x, r, y, w) \<in> set (query_edge cn c1 c2 directed) \<union> set (concat (map snd (query_concept cn c directed)))"
  shows "get_embedding cn x \<noteq> None \<and> get_embedding cn y \<noteq> None"
proof -
  from query_result_stored [OF graph_wf_conceptnet_init [OF init] assms(2)]
  have "lookup3 (outbonds cn) x y r = Some w \<or> lookup3 (inbonds cn) y x r = Some w" .
  then show ?thesis
  proof
    assume "lookup3 (outbonds cn) x y r = Some w"
    then have "py_in x (cn_concepts cn) \<and> py_in y (cn_concepts cn)"
      using conceptnet_stored_concepts [OF init] by blast
    then show ?thesis by (simp add: get_embedding_def)
  next
    assume "lookup3 (inbonds cn) y x r = Some w"
    then have "py_in y (cn_concepts cn) \<and> py_in x (cn_concepts cn)"
      using conceptnet_stored_concepts [OF init] by blast
    then show ?thesis by (simp add: get_embedding_def)
  qed
qed

theorem query_no_dangling_witness:
  "conceptnet_init py_float py_float example_conceptnet example_numberbatch False True = Inr example_graph \<and>
   get_embedding example_graph ''arm'' = Some [0, 1, 0] \<and> get_embedding example_graph ''hand'' = Some [1, 0, 0]"
proof -
  have e: "(''arm'', ''PartOf'', ''hand'', 9/10) \<in>
      set (query_edge example_graph ''hand'' ''arm'' False) \<union> set (concat (map snd (query_concept example_graph ''hand'' False)))"
    by (simp add: example_spec_queries)
  from query_no_dangling [OF example_init e] example_init show ?thesis
    by (simp add: get_embedding_def example_graph_def example_table_def)
qed

end
