(* ===== verification/GetData.thy ===== *)
theory GetData
  imports PyStr
begin

text \<open>
  The download script src/get_data.py: \<open>get_conceptnet\<close> downloads the
  ConceptNet assertions, unzips them and filters the English edges into the
  four-column file the loader reads; \<open>get_numberbatch\<close> downloads and
  unzips the embedding file. Every stage is skipped when its output is
  already on disk with the expected SHA-256, so the script can be rerun after
  an interruption.

  The effects are explicit: a state holds the file system (a map from file
  names to contents) and the lines printed; an operation returns a result
  (\<open>Inl\<close> the exception it raises, \<open>sys.exit\<close> included) together with the
  state at the time it returns or raises, so that what an interrupted run
  leaves on disk is part of the model. The libraries the script calls are
  parameters of an environment: the body \<open>requests\<close> fetches for a URL
  (\<open>None\<close> when it raises), SHA-256 as a function of the contents, gzip
  decompression (the output produced and whether the stream was valid),
  \<open>json.loads\<close> and \<open>str(meta['weight'])\<close>.
\<close>

section \<open>State, environment and sequencing\<close>

record gd_state =
  files :: "string \<Rightarrow> string option"
  printed :: "string list"

record 'j gd_env =
  net :: "string \<Rightarrow> string option"
  sha :: "string \<Rightarrow> string"
  gunzip :: "string \<Rightarrow> string \<times> bool"
  jload :: "string \<Rightarrow> 'j option"
  jweight :: "'j \<Rightarrow> string option"

type_synonym 'a io = "gd_state \<Rightarrow> 'a py_result \<times> gd_state"

definition io_return :: "'a \<Rightarrow> 'a io" where
  "io_return a s = (Inr a, s)"

definition io_bind :: "'a io \<Rightarrow> ('a \<Rightarrow> 'b io) \<Rightarrow> 'b io" where
  "io_bind m f s = (case m s of (Inl e, s') \<Rightarrow> (Inl e, s') | (Inr a, s') \<Rightarrow> f a s')"

text \<open>\<open>print(msg)\<close> and \<open>sys.exit(msg)\<close>.\<close>

definition py_print :: "string \<Rightarrow> unit io" where
  "py_print msg s = (Inr (), s\<lparr>printed := printed s @ [msg]\<rparr>)"

definition sys_exit :: "string \<Rightarrow> 'a io" where
  "sys_exit msg s = (Inl (SysExit msg), s)"

text \<open>\<open>os.remove(f)\<close>: FileNotFoundError, an OSError, when it is absent.\<close>

definition os_remove :: "string \<Rightarrow> unit io" where
  "os_remove f s = (if files s f = None then (Inl OSError, s) else (Inr (), s\<lparr>files := (files s)(f := None)\<rparr>))"

section \<open>Helper functions (lines 16--36)\<close>

text \<open>\<open>download_file(url, filename)\<close>: \<open>requests.get\<close> and
  \<open>raise_for_status\<close> raise before the file is opened.\<close>

definition download_file :: "'j gd_env \<Rightarrow> string \<Rightarrow> string \<Rightarrow> unit io" where
  "download_file env url filename s =
     (case net env url of
        None \<Rightarrow> (Inl HTTPError, s)
      | Some body \<Rightarrow> (Inr (), s\<lparr>files := (files s)(filename \<mapsto> body)\<rparr>))"

definition compute_sha256 :: "'j gd_env \<Rightarrow> string \<Rightarrow> string io" where
  "compute_sha256 env filename s =
     (case files s filename of None \<Rightarrow> (Inl OSError, s) | Some d \<Rightarrow> (Inr (sha env d), s))"

text \<open>\<open>unzip_file(file_zipped, file_unzipped)\<close>: the output file is created
  before the stream is read, so an invalid stream (\<open>BadGzipFile\<close>, an
  OSError) leaves the output written so far.\<close>

definition unzip_file :: "'j gd_env \<Rightarrow> string \<Rightarrow> string \<Rightarrow> unit io" where
  "unzip_file env file_zipped file_unzipped s =
     (case files s file_zipped of
        None \<Rightarrow> (Inl OSError, s)
      | Some d \<Rightarrow>
          (let (out, ok) = gunzip env d;
               s' = s\<lparr>files := (files s)(file_unzipped \<mapsto> out)\<rparr>
           in if ok then (Inr (), s') else (Inl OSError, s')))"

section \<open>Filtering the English assertions (lines 44--53)\<close>

text \<open>One line of the assertions file: \<open>None\<close> when it is skipped, the line
  written otherwise. Python evaluates the condition and the written
  expression left to right, which fixes which exception a malformed line
  raises.\<close>

definition filter_line :: "'j gd_env \<Rightarrow> string \<Rightarrow> string option py_result" where
  "filter_line env line =
     (let v = py_split_sep TAB line in
      py_bind (py_nth v 2) (\<lambda>v2.
        if \<not> py_startswith v2 ''/c/en/'' then Inr None
        else py_bind (py_nth v 3) (\<lambda>v3.
          if \<not> py_startswith v3 ''/c/en/'' then Inr None
          else py_bind (py_nth v 4) (\<lambda>v4.
            case jload env v4 of
              None \<Rightarrow> Inl ValueError
            | Some meta \<Rightarrow>
                py_bind (py_nth (py_split_sep CHR ''/'' (v ! 1)) 2) (\<lambda>rel.
                py_bind (py_nth (py_split_sep CHR ''/'' v2) 3) (\<lambda>c1.
                py_bind (py_nth (py_split_sep CHR ''/'' v3) 3) (\<lambda>c2.
                  case jweight env meta of
                    None \<Rightarrow> Inl KeyError
                  | Some w \<Rightarrow> Inr (Some (rel @ TAB # c1 @ TAB # c2 @ TAB # w @ [NL])))))))))"

text \<open>\<open>f_out.write(...)\<close> appends to the file opened for writing.\<close>

definition append_file :: "string \<Rightarrow> string \<Rightarrow> gd_state \<Rightarrow> gd_state" where
  "append_file f txt s = s\<lparr>files := (files s)(f \<mapsto> (case files s f of None \<Rightarrow> [] | Some c \<Rightarrow> c) @ txt)\<rparr>"

text \<open>The \<open>while line:\<close> loop over the lines \<open>readline\<close> returns.\<close>

fun filter_loop :: "'j gd_env \<Rightarrow> string list \<Rightarrow> string \<Rightarrow> unit io" where
  "filter_loop env [] file_filtered s = (Inr (), s)"
| "filter_loop env (line # rest) file_filtered s =
     (case filter_line env line of
        Inl e \<Rightarrow> (Inl e, s)
      | Inr None \<Rightarrow> filter_loop env rest file_filtered s
      | Inr (Some out) \<Rightarrow> filter_loop env rest file_filtered (append_file file_filtered out s))"

text \<open>\<open>filter_conceptnet(file_all, file_filtered)\<close>: opening the output
  truncates it.\<close>

definition filter_conceptnet :: "'j gd_env \<Rightarrow> string \<Rightarrow> string \<Rightarrow> unit io" where
  "filter_conceptnet env file_all file_filtered s =
     (case files s file_all of
        None \<Rightarrow> (Inl OSError, s)
      | Some txt \<Rightarrow> filter_loop env (py_lines txt) file_filtered (s\<lparr>files := (files s)(file_filtered \<mapsto> [])\<rparr>))"

text \<open>The lines the loop writes, as a pure function of the lines it reads.\<close>

fun filter_lines :: "'j gd_env \<Rightarrow> string list \<Rightarrow> string list py_result" where
  "filter_lines env [] = Inr []"
| "filter_lines env (line # rest) =
     py_bind (filter_line env line) (\<lambda>out.
       py_bind (filter_lines env rest) (\<lambda>outs.
         Inr (case out of None \<Rightarrow> outs | Some l \<Rightarrow> l # outs)))"

section \<open>The stages of a download (lines 68--117 and 137--169)\<close>

text \<open>Whether a stage has to run: \<open>flag = True; if os.path.isfile(f) and
  guard: if expected == compute_sha256(f): flag = False\<close>.\<close>

definition stage_flag :: "'j gd_env \<Rightarrow> string \<Rightarrow> string \<Rightarrow> bool \<Rightarrow> bool io" where
  "stage_flag env filename expected guard s =
     (if files s filename \<noteq> None \<and> guard
      then io_bind (compute_sha256 env filename) (\<lambda>sha256. io_return (\<not> expected = sha256)) s
      else (Inr True, s))"

text \<open>\<open>sha256 = compute_sha256(f); if expected != sha256: sys.exit(msg)\<close>\<close>

definition check_hash :: "'j gd_env \<Rightarrow> string \<Rightarrow> string \<Rightarrow> string \<Rightarrow> unit io" where
  "check_hash env filename expected failure =
     io_bind (compute_sha256 env filename) (\<lambda>sha256.
       if expected \<noteq> sha256 then sys_exit failure else io_return ())"

text \<open>The three stages, as both functions write them; \<open>run\<close> is the
  conjunction of flags the code tests.\<close>

definition download_stage :: "'j gd_env \<Rightarrow> bool \<Rightarrow> string \<Rightarrow> string \<Rightarrow> string \<Rightarrow> string \<Rightarrow> unit io" where
  "download_stage env run url file_zipped zipped_hash failure =
     (if run then
        io_bind (download_file env url file_zipped) (\<lambda>_.
        io_bind (check_hash env file_zipped zipped_hash failure) (\<lambda>_.
        py_print ''Download OK!''))
      else py_print ''Skipping download!'')"

definition unzip_stage :: "'j gd_env \<Rightarrow> bool \<Rightarrow> string \<Rightarrow> string \<Rightarrow> string \<Rightarrow> string \<Rightarrow> unit io" where
  "unzip_stage env run file_zipped file_unzipped unzipped_hash failure =
     (if run then
        io_bind (unzip_file env file_zipped file_unzipped) (\<lambda>_.
        io_bind (check_hash env file_unzipped unzipped_hash failure) (\<lambda>_.
        io_bind (os_remove file_zipped) (\<lambda>_.
        py_print ''Extraction OK!'')))
      else py_print ''Skipping extraction!'')"

definition filter_stage :: "'j gd_env \<Rightarrow> bool \<Rightarrow> string \<Rightarrow> string \<Rightarrow> string \<Rightarrow> string \<Rightarrow> unit io" where
  "filter_stage env run file_all file_filtered filtered_hash failure =
     (if run then
        io_bind (filter_conceptnet env file_all file_filtered) (\<lambda>_.
        io_bind (check_hash env file_filtered filtered_hash failure) (\<lambda>_.
        io_bind (os_remove file_all) (\<lambda>_.
        py_print ''Filtering OK!'')))
      else py_print ''Skipping filtering!'')"

section \<open>\<open>get_conceptnet()\<close> (lines 42--119)\<close>

definition conceptnet_url :: string where
  "conceptnet_url = ''https://s3.amazonaws.com/conceptnet/downloads/2019/edges/conceptnet-assertions-5.7.0.csv.gz''"

definition conceptnet_filename_zipped :: string where
  "conceptnet_filename_zipped = last (py_split_sep CHR ''/'' conceptnet_url)"

definition conceptnet_filename_zipped_hash :: string where
  "conceptnet_filename_zipped_hash = ''accd65fe94038584295574ddc26e1500c1919c8c4532bf771811cafd0948af7e''"

definition conceptnet_filename :: string where
  "conceptnet_filename = take (length conceptnet_filename_zipped - 3) conceptnet_filename_zipped"

definition conceptnet_filename_hash :: string where
  "conceptnet_filename_hash = ''40ad6e34b1bf86b013e46645fcb20e9b9c74091614c8b914c3c42f55c117afd2''"

definition conceptnet_filename_filtered :: string where
  "conceptnet_filename_filtered = ''conceptnet-en-5.7.0.txt''"

definition conceptnet_filename_filtered_hash :: string where
  "conceptnet_filename_filtered_hash = ''e554b78c27825be13a7d6b8799c79c099ce8d425b2c6b24c80ef7652704ba482''"

definition get_conceptnet :: "'j gd_env \<Rightarrow> unit io" where
  "get_conceptnet env =
     io_bind (py_print ''Retrieving ConceptNet...'') (\<lambda>_.
     io_bind (stage_flag env conceptnet_filename_filtered conceptnet_filename_filtered_hash True) (\<lambda>flag_filter.
     io_bind (stage_flag env conceptnet_filename conceptnet_filename_hash flag_filter) (\<lambda>flag_unzip.
     io_bind (stage_flag env conceptnet_filename_zipped conceptnet_filename_zipped_hash (flag_filter \<and> flag_unzip))
       (\<lambda>flag_download.
     io_bind (download_stage env (flag_download \<and> flag_unzip \<and> flag_filter) conceptnet_url
                conceptnet_filename_zipped conceptnet_filename_zipped_hash ''ConceptNet download failed!'') (\<lambda>_.
     io_bind (unzip_stage env (flag_unzip \<and> flag_filter) conceptnet_filename_zipped conceptnet_filename
                conceptnet_filename_hash ''ConceptNet extraction failed!'') (\<lambda>_.
     io_bind (filter_stage env flag_filter conceptnet_filename conceptnet_filename_filtered
                conceptnet_filename_filtered_hash ''ConceptNet filtering failed!'') (\<lambda>_.
     py_print (''Done!'' @ [NL]))))))))"

section \<open>\<open>get_numberbatch()\<close> (lines 125--171) and the script (lines 177--179)\<close>

definition numberbatch_url :: string where
  "numberbatch_url = ''https://conceptnet.s3.amazonaws.com/downloads/2019/numberbatch/numberbatch-en-19.08.txt.gz''"

definition numberbatch_filename_zipped :: string where
  "numberbatch_filename_zipped = last (py_split_sep CHR ''/'' numberbatch_url)"

definition numberbatch_filename_zipped_hash :: string where
  "numberbatch_filename_zipped_hash = ''90e57611eb71077ada9fd0b011fd0206de8ec13d035aced40b81b1a4d549c6a2''"

definition numberbatch_filename :: string where
  "numberbatch_filename = take (length numberbatch_filename_zipped - 3) numberbatch_filename_zipped"

definition numberbatch_filename_hash :: string where
  "numberbatch_filename_hash = ''42f92fcd49a63baf4d643bde39c996079432b383077afddebac20c2844c9a6f7''"

definition get_numberbatch :: "'j gd_env \<Rightarrow> unit io" where
  "get_numberbatch env =
     io_bind (py_print ''Retrieving NumberBatch...'') (\<lambda>_.
     io_bind (stage_flag env numberbatch_filename numberbatch_filename_hash True) (\<lambda>flag_unzip.
     io_bind (stage_flag env numberbatch_filename_zipped numberbatch_filename_zipped_hash flag_unzip) (\<lambda>flag_download.
     io_bind (download_stage env (flag_download \<and> flag_unzip) numberbatch_url
                numberbatch_filename_zipped numberbatch_filename_zipped_hash ''NumberBatch download failed!'') (\<lambda>_.
     io_bind (unzip_stage env flag_unzip numberbatch_filename_zipped numberbatch_filename
                numberbatch_filename_hash ''NumberBatch extraction failed!'') (\<lambda>_.
     py_print (''Done!'' @ [NL]))))))"

definition get_data_main :: "'j gd_env \<Rightarrow> unit io" where
  "get_data_main env = io_bind (get_conceptnet env) (\<lambda>_. get_numberbatch env)"

section \<open>Files on disk\<close>

text \<open>A file is in place when it exists and has the expected SHA-256: the
  test each stage makes before it decides to run.\<close>

definition has_file :: "'j gd_env \<Rightarrow> gd_state \<Rightarrow> string \<Rightarrow> string \<Rightarrow> bool" where
  "has_file env s f h \<longleftrightarrow> (\<exists>c. files s f = Some c \<and> sha env c = h)"


section \<open>Example environment\<close>

text \<open>A network serving a gzip stream \<open>Z\<close> of two assertions, one English
  and one French, a hash function that gives the three expected hashes to
  the three expected contents, and a network serving a corrupted stream.\<close>

definition example_assertion1 :: string where
  "example_assertion1 = ''/a/1'' @ TAB # ''/r/PartOf/'' @ TAB # ''/c/en/arm/n'' @ TAB # ''/c/en/hand'' @ TAB # ''{}'' @ [NL]"

definition example_assertion2 :: string where
  "example_assertion2 = ''/a/2'' @ TAB # ''/r/RelatedTo/'' @ TAB # ''/c/fr/main'' @ TAB # ''/c/en/hand'' @ TAB # ''{}'' @ [NL]"

definition example_assertions :: string where
  "example_assertions = example_assertion1 @ example_assertion2"

definition example_filtered :: string where
  "example_filtered = ''PartOf'' @ TAB # ''arm'' @ TAB # ''hand'' @ TAB # ''0.9'' @ [NL]"

definition example_env :: "string gd_env" where
  "example_env =
     \<lparr>net = (\<lambda>url. if url = conceptnet_url then Some ''Z'' else if url = numberbatch_url then Some ''N'' else None),
      sha = (\<lambda>c. if c = ''Z'' then conceptnet_filename_zipped_hash
                 else if c = example_assertions then conceptnet_filename_hash
                 else if c = example_filtered then conceptnet_filename_filtered_hash
                 else if c = ''N'' then numberbatch_filename_zipped_hash
                 else if c = ''E'' then numberbatch_filename_hash else ''0''),
      gunzip = (\<lambda>d. if d = ''Z'' then (example_assertions, True) else if d = ''N'' then (''E'', True) else ([], False)),
      jload = (\<lambda>v. Some v), jweight = (\<lambda>m. Some ''0.9'')\<rparr>"

definition example_bad_env :: "string gd_env" where
  "example_bad_env = example_env\<lparr>net := (\<lambda>url. Some ''Y'')\<rparr>"


definition example_offline_env :: "string gd_env" where
  "example_offline_env = example_env\<lparr>net := (\<lambda>url. None)\<rparr>"

section \<open>Sequencing\<close>

lemma io_bind_Inr_iff:
  "io_bind m f s = (Inr b, s') \<longleftrightarrow> (\<exists>a s1. m s = (Inr a, s1) \<and> f a s1 = (Inr b, s'))"
  by (auto simp: io_bind_def split: prod.splits sum.splits)

lemma io_bind_step [simp]:
  "m s = (Inr a, s1) \<Longrightarrow> io_bind m f s = f a s1"
  "m s = (Inl e, s1) \<Longrightarrow> io_bind m f s = (Inl e, s1)"
  by (simp_all add: io_bind_def)

lemma py_print_simp [simp]: "py_print msg s = (Inr (), s\<lparr>printed := printed s @ [msg]\<rparr>)"
  by (simp add: py_print_def)

lemma has_file_printed [simp]: "has_file env (s\<lparr>printed := p\<rparr>) f h = has_file env s f h"
  by (simp add: has_file_def)

lemma stage_flag_eq:
  "stage_flag env filename expected guard s = (Inr (\<not> (guard \<and> has_file env s filename expected)), s)"
  by (auto simp: stage_flag_def has_file_def compute_sha256_def io_return_def io_bind_def)

lemma io_bind_stage_flag [simp]:
  "io_bind (stage_flag env filename expected guard) k s = k (\<not> (guard \<and> has_file env s filename expected)) s"
  by (simp add: stage_flag_eq)

lemma io_bind_py_print [simp]:
  "io_bind (py_print msg) k s = k () (s\<lparr>printed := printed s @ [msg]\<rparr>)"
  by simp

lemma check_hash_eq:
  "check_hash env filename expected failure s =
     (if has_file env s filename expected then (Inr (), s)
      else if files s filename = None then (Inl OSError, s) else (Inl (SysExit failure), s))"
  by (auto simp: check_hash_def has_file_def compute_sha256_def io_return_def io_bind_def sys_exit_def)

lemma stage_skip [simp]:
  "download_stage env False url z zh m s = (Inr (), s\<lparr>printed := printed s @ [''Skipping download!'']\<rparr>)"
  "unzip_stage env False z u uh m s = (Inr (), s\<lparr>printed := printed s @ [''Skipping extraction!'']\<rparr>)"
  "filter_stage env False u f fh m s = (Inr (), s\<lparr>printed := printed s @ [''Skipping filtering!'']\<rparr>)"
  by (simp_all add: download_stage_def unzip_stage_def filter_stage_def)

lemma has_file_unique:
  "has_file env s f h \<Longrightarrow> \<forall>c. sha env c = h \<longrightarrow> c = d \<Longrightarrow> files s f = Some d"
  by (auto simp: has_file_def)


section \<open>The filter loop as a function of the lines read\<close>

lemma append_file_append: "files s f \<noteq> None \<Longrightarrow> append_file f (a @ b) s = append_file f b (append_file f a s)"
  by (auto simp: append_file_def)

lemma append_file_Nil: "files s f \<noteq> None \<Longrightarrow> append_file f [] s = s"
  by (auto simp: append_file_def map_upd_triv)

lemma files_append_file [simp]: "files (append_file f txt s) f \<noteq> None"
  by (simp add: append_file_def)

lemma filter_loop_lines:
  "filter_lines env ls = Inr outs \<Longrightarrow> files s f \<noteq> None \<Longrightarrow>
   filter_loop env ls f s = (Inr (), append_file f (concat outs) s)"
proof (induction ls arbitrary: s outs)
  case Nil
  then show ?case by (simp add: append_file_Nil)
next
  case (Cons l ls)
  from Cons.prems(1) obtain x outs' where
    x: "filter_line env l = Inr x" and rest: "filter_lines env ls = Inr outs'" and
    outs: "outs = (case x of None \<Rightarrow> outs' | Some y \<Rightarrow> y # outs')"
    by (auto simp: py_bind_Inr_iff)
  show ?case
  proof (cases x)
    case None
    with Cons.IH [OF rest Cons.prems(2)] x outs show ?thesis by simp
  next
    case (Some y)
    from Cons.IH [OF rest files_append_file] x outs Some Cons.prems(2) show ?thesis
      by (simp add: append_file_append)
  qed
qed

lemma filter_loop_result:
  "fst (filter_loop env ls f s) = map_sum id (\<lambda>_. ()) (filter_lines env ls)"
proof (induction ls arbitrary: s)
  case Nil
  then show ?case by simp
next
  case (Cons l ls)
  then show ?case
    by (cases "filter_line env l") (auto split: option.splits sum.splits simp: py_bind_def)
qed

lemma filter_conceptnet_lines:
  "files s file_all = Some txt \<Longrightarrow> filter_lines env (py_lines txt) = Inr outs \<Longrightarrow>
   filter_conceptnet env file_all file_filtered s = (Inr (), s\<lparr>files := (files s)(file_filtered \<mapsto> concat outs)\<rparr>)"
  by (simp add: filter_conceptnet_def filter_loop_lines append_file_def)

lemma filter_line_Some:
  assumes "filter_line env line = Inr (Some out)"
  obtains rel c1 c2 w m where "out = rel @ TAB # c1 @ TAB # c2 @ TAB # w @ [NL]" "jweight env m = Some w"
    "rel \<in> set (py_split_sep CHR ''/'' (py_split_sep TAB line ! 1))"
    "c1 \<in> set (py_split_sep CHR ''/'' (py_split_sep TAB line ! 2))"
    "c2 \<in> set (py_split_sep CHR ''/'' (py_split_sep TAB line ! 3))"
    "4 < length (py_split_sep TAB line)"
  using assms
  by (auto simp: filter_line_def Let_def py_bind_Inr_iff py_nth_Inr_iff split: if_splits option.splits)

lemma filtered_field:
  assumes "x \<in> set (py_split_sep CHR ''/'' (py_split_sep TAB line ! i))" and "NL \<notin> set (butlast line)"
      and "i < length (py_split_sep TAB line) - 1"
  shows "TAB \<notin> set x \<and> NL \<notin> set x \<and> CHR ''/'' \<notin> set x"
proof -
  have i: "py_split_sep TAB line ! i \<in> set (py_split_sep TAB line)" using assms(3) by simp
  have "NL \<notin> set (py_split_sep TAB line ! i)" by (rule py_split_sep_inner_field) (use assms in simp_all)
  with py_split_sep_field [OF assms(1)] py_split_sep_field [OF i] show ?thesis by auto
qed

lemma filter_line_fields:
  assumes "filter_line env line = Inr (Some out)" and "NL \<notin> set (butlast line)"
      and jw: "\<forall>m w. jweight env m = Some w \<longrightarrow> TAB \<notin> set w \<and> NL \<notin> set w"
  shows "\<exists>rel c1 c2 w. py_split_sep TAB out = [rel, c1, c2, w @ [NL]] \<and>
           CHR ''/'' \<notin> set rel \<and> CHR ''/'' \<notin> set c1 \<and> CHR ''/'' \<notin> set c2 \<and>
           (\<exists>l'. out = l' @ [NL] \<and> NL \<notin> set l')"
proof -
  from assms(1) obtain rel c1 c2 w m where out: "out = rel @ TAB # c1 @ TAB # c2 @ TAB # w @ [NL]"
    and m: "jweight env m = Some w"
    and r: "rel \<in> set (py_split_sep CHR ''/'' (py_split_sep TAB line ! 1))"
    and a: "c1 \<in> set (py_split_sep CHR ''/'' (py_split_sep TAB line ! 2))"
    and b: "c2 \<in> set (py_split_sep CHR ''/'' (py_split_sep TAB line ! 3))"
    and len: "4 < length (py_split_sep TAB line)"
    by (rule filter_line_Some)
  have fr: "TAB \<notin> set rel \<and> NL \<notin> set rel \<and> CHR ''/'' \<notin> set rel"
    by (rule filtered_field [OF r assms(2)]) (use len in simp)
  have fa: "TAB \<notin> set c1 \<and> NL \<notin> set c1 \<and> CHR ''/'' \<notin> set c1"
    by (rule filtered_field [OF a assms(2)]) (use len in simp)
  have fb: "TAB \<notin> set c2 \<and> NL \<notin> set c2 \<and> CHR ''/'' \<notin> set c2"
    by (rule filtered_field [OF b assms(2)]) (use len in simp)
  from jw m have fw: "TAB \<notin> set w \<and> NL \<notin> set w" by blast
  have "py_split_sep TAB out = [rel, c1, c2, w @ [NL]]"
    using fr fa fb fw by (simp add: out py_split_sep_append py_split_sep_no_sep)
  moreover have "out = (rel @ TAB # c1 @ TAB # c2 @ TAB # w) @ [NL]" by (simp add: out)
  ultimately show ?thesis using fr fa fb fw by fastforce
qed

lemma filter_lines_mem:
  "filter_lines env ls = Inr outs \<Longrightarrow> l \<in> set outs \<Longrightarrow> \<exists>line\<in>set ls. filter_line env line = Inr (Some l)"
proof (induction ls arbitrary: outs)
  case Nil
  then show ?case by simp
next
  case (Cons x xs)
  then obtain y outs' where "filter_line env x = Inr y" "filter_lines env xs = Inr outs'"
    "outs = (case y of None \<Rightarrow> outs' | Some l \<Rightarrow> l # outs')"
    by (auto simp: py_bind_Inr_iff)
  with Cons show ?case by (cases y) auto
qed


lemma filter_conceptnet_writes:
  assumes "filter_conceptnet env file_all file_filtered s = (Inr (), s')"
      and jw: "\<forall>m w. jweight env m = Some w \<longrightarrow> TAB \<notin> set w \<and> NL \<notin> set w"
  shows "\<exists>outs. files s' file_filtered = Some (concat outs) \<and> py_lines (concat outs) = outs \<and>
           (\<forall>l\<in>set outs. \<exists>rel c1 c2 w. py_split_sep TAB l = [rel, c1, c2, w @ [NL]] \<and>
                CHR ''/'' \<notin> set rel \<and> CHR ''/'' \<notin> set c1 \<and> CHR ''/'' \<notin> set c2)"
proof -
  from assms(1) obtain content where content: "files s file_all = Some content"
    by (auto simp: filter_conceptnet_def split: option.splits)
  from assms(1) filter_loop_result [of env "py_lines content" file_filtered "s\<lparr>files := (files s)(file_filtered \<mapsto> [])\<rparr>"] content
  obtain outs where outs: "filter_lines env (py_lines content) = Inr outs"
    by (cases "filter_lines env (py_lines content)") (auto simp: filter_conceptnet_def)
  with assms(1) content have s': "files s' file_filtered = Some (concat outs)"
    by (auto simp: filter_conceptnet_lines)
  have fields: "\<exists>rel c1 c2 w. py_split_sep TAB l = [rel, c1, c2, w @ [NL]] \<and>
                CHR ''/'' \<notin> set rel \<and> CHR ''/'' \<notin> set c1 \<and> CHR ''/'' \<notin> set c2 \<and>
                (\<exists>l'. l = l' @ [NL] \<and> NL \<notin> set l')" if "l \<in> set outs" for l
  proof -
    from filter_lines_mem [OF outs that] obtain line where
      "line \<in> set (py_lines content)" "filter_line env line = Inr (Some l)" by blast
    then show ?thesis using filter_line_fields jw py_lines_butlast by blast
  qed
  then have "py_lines (concat outs) = outs" by (intro py_lines_concat) blast
  with s' fields show ?thesis by blast
qed

section \<open>The stages\<close>

lemma download_stage_ok:
  "net env url = Some z \<Longrightarrow> sha env z = h \<Longrightarrow>
   download_stage env True url zf h m s =
     (Inr (), s\<lparr>files := (files s)(zf \<mapsto> z), printed := printed s @ [''Download OK!'']\<rparr>)"
  by (simp add: download_stage_def download_file_def io_bind_def check_hash_eq has_file_def)

lemma unzip_stage_ok:
  "files s zf = Some z \<Longrightarrow> gunzip env z = (u, True) \<Longrightarrow> sha env u = h \<Longrightarrow> zf \<noteq> uf \<Longrightarrow>
   unzip_stage env True zf uf h m s =
     (Inr (), s\<lparr>files := ((files s)(uf \<mapsto> u))(zf := None), printed := printed s @ [''Extraction OK!'']\<rparr>)"
  by (simp add: unzip_stage_def unzip_file_def io_bind_def check_hash_eq has_file_def os_remove_def)

lemma filter_stage_ok:
  "files s uf = Some u \<Longrightarrow> filter_lines env (py_lines u) = Inr outs \<Longrightarrow> sha env (concat outs) = h \<Longrightarrow> uf \<noteq> ff \<Longrightarrow>
   filter_stage env True uf ff h m s =
     (Inr (), s\<lparr>files := ((files s)(ff \<mapsto> concat outs))(uf := None), printed := printed s @ [''Filtering OK!'']\<rparr>)"
  by (simp add: filter_stage_def filter_conceptnet_lines io_bind_def check_hash_eq has_file_def os_remove_def)

lemma filter_stage_has_file:
  assumes "filter_stage env True file_all file_filtered h failure s = (Inr (), s')" and "file_all \<noteq> file_filtered"
  shows "has_file env s' file_filtered h"
  using assms
  by (auto simp: filter_stage_def io_bind_Inr_iff check_hash_eq os_remove_def has_file_def split: if_splits)

lemma unzip_stage_has_file:
  assumes "unzip_stage env True zf uf h failure s = (Inr (), s')" and "zf \<noteq> uf"
  shows "has_file env s' uf h"
  using assms
  by (auto simp: unzip_stage_def io_bind_Inr_iff check_hash_eq os_remove_def has_file_def split: if_splits)

lemma download_stage_frame:
  "download_stage env run url zf h m s = (Inr (), s') \<Longrightarrow> f \<noteq> zf \<Longrightarrow> files s' f = files s f"
  by (auto simp: download_stage_def io_bind_Inr_iff download_file_def check_hash_eq split: if_splits option.splits)

lemma unzip_stage_frame:
  "unzip_stage env run zf uf h m s = (Inr (), s') \<Longrightarrow> f \<noteq> zf \<Longrightarrow> f \<noteq> uf \<Longrightarrow> files s' f = files s f"
  by (auto simp: unzip_stage_def io_bind_Inr_iff unzip_file_def check_hash_eq os_remove_def Let_def
           split: if_splits option.splits prod.splits)

lemma conceptnet_filenames:
  "conceptnet_filename_zipped = ''conceptnet-assertions-5.7.0.csv.gz''"
  "conceptnet_filename = ''conceptnet-assertions-5.7.0.csv''"
  "numberbatch_filename_zipped = ''numberbatch-en-19.08.txt.gz''"
  "numberbatch_filename = ''numberbatch-en-19.08.txt''"
  by (simp_all add: conceptnet_filename_zipped_def conceptnet_url_def conceptnet_filename_def
                    numberbatch_filename_zipped_def numberbatch_url_def numberbatch_filename_def)

lemma conceptnet_filenames_distinct:
  "conceptnet_filename_zipped \<noteq> conceptnet_filename"
  "conceptnet_filename \<noteq> conceptnet_filename_filtered"
  "conceptnet_filename_zipped \<noteq> conceptnet_filename_filtered"
  by (simp_all add: conceptnet_filenames conceptnet_filename_filtered_def)

lemma numberbatch_filenames_distinct:
  "numberbatch_filename_zipped \<noteq> numberbatch_filename"
  "conceptnet_filename_filtered \<noteq> numberbatch_filename_zipped"
  "conceptnet_filename_filtered \<noteq> numberbatch_filename"
  by (simp_all add: conceptnet_filenames conceptnet_filename_filtered_def)


section \<open>The two functions\<close>

lemma get_conceptnet_eq:
  "get_conceptnet env s =
     io_bind (download_stage env
                (\<not> has_file env s conceptnet_filename_filtered conceptnet_filename_filtered_hash \<and>
                 \<not> has_file env s conceptnet_filename conceptnet_filename_hash \<and>
                 \<not> has_file env s conceptnet_filename_zipped conceptnet_filename_zipped_hash)
                conceptnet_url conceptnet_filename_zipped conceptnet_filename_zipped_hash ''ConceptNet download failed!'') (\<lambda>_.
     io_bind (unzip_stage env
                (\<not> has_file env s conceptnet_filename_filtered conceptnet_filename_filtered_hash \<and>
                 \<not> has_file env s conceptnet_filename conceptnet_filename_hash)
                conceptnet_filename_zipped conceptnet_filename conceptnet_filename_hash ''ConceptNet extraction failed!'') (\<lambda>_.
     io_bind (filter_stage env (\<not> has_file env s conceptnet_filename_filtered conceptnet_filename_filtered_hash)
                conceptnet_filename conceptnet_filename_filtered conceptnet_filename_filtered_hash ''ConceptNet filtering failed!'') (\<lambda>_.
     py_print (''Done!'' @ [NL]))))
     (s\<lparr>printed := printed s @ [''Retrieving ConceptNet...'']\<rparr>)"
  by (cases "has_file env s conceptnet_filename_filtered conceptnet_filename_filtered_hash";
      cases "has_file env s conceptnet_filename conceptnet_filename_hash";
      simp add: get_conceptnet_def)

lemma get_conceptnet_post:
  assumes "get_conceptnet env s = (Inr (), s')"
  shows "has_file env s' conceptnet_filename_filtered conceptnet_filename_filtered_hash"
proof (cases "has_file env s conceptnet_filename_filtered conceptnet_filename_filtered_hash")
  case True
  with assms show ?thesis by (auto simp: get_conceptnet_eq io_bind_def)
next
  case False
  with assms obtain s2 s3 where
    f: "filter_stage env True conceptnet_filename conceptnet_filename_filtered conceptnet_filename_filtered_hash
          ''ConceptNet filtering failed!'' s2 = (Inr (), s3)" and
    s': "s' = s3\<lparr>printed := printed s3 @ [''Done!'' @ [NL]]\<rparr>"
    by (auto simp: get_conceptnet_eq io_bind_Inr_iff)
  have "has_file env s3 conceptnet_filename_filtered conceptnet_filename_filtered_hash"
    using filter_stage_has_file [OF f] conceptnet_filenames_distinct by blast
  with s' show ?thesis by simp
qed

lemma get_conceptnet_skip:
  assumes "has_file env s conceptnet_filename_filtered conceptnet_filename_filtered_hash"
  shows "get_conceptnet env s =
           (Inr (), s\<lparr>printed := printed s @ [''Retrieving ConceptNet...'', ''Skipping download!'',
                       ''Skipping extraction!'', ''Skipping filtering!'', ''Done!'' @ [NL]]\<rparr>)"
  using assms by (simp add: get_conceptnet_eq io_bind_def)

lemma get_numberbatch_eq:
  "get_numberbatch env s =
     io_bind (download_stage env
                (\<not> has_file env s numberbatch_filename numberbatch_filename_hash \<and>
                 \<not> has_file env s numberbatch_filename_zipped numberbatch_filename_zipped_hash)
                numberbatch_url numberbatch_filename_zipped numberbatch_filename_zipped_hash ''NumberBatch download failed!'') (\<lambda>_.
     io_bind (unzip_stage env (\<not> has_file env s numberbatch_filename numberbatch_filename_hash)
                numberbatch_filename_zipped numberbatch_filename numberbatch_filename_hash ''NumberBatch extraction failed!'') (\<lambda>_.
     py_print (''Done!'' @ [NL])))
     (s\<lparr>printed := printed s @ [''Retrieving NumberBatch...'']\<rparr>)"
  by (cases "has_file env s numberbatch_filename numberbatch_filename_hash"; simp add: get_numberbatch_def)

lemma get_numberbatch_post:
  assumes "get_numberbatch env s = (Inr (), s')"
  shows "has_file env s' numberbatch_filename numberbatch_filename_hash"
proof (cases "has_file env s numberbatch_filename numberbatch_filename_hash")
  case True
  with assms show ?thesis by (auto simp: get_numberbatch_eq io_bind_def)
next
  case False
  with assms obtain s2 s3 where
    u: "unzip_stage env True numberbatch_filename_zipped numberbatch_filename numberbatch_filename_hash
          ''NumberBatch extraction failed!'' s2 = (Inr (), s3)" and
    s': "s' = s3\<lparr>printed := printed s3 @ [''Done!'' @ [NL]]\<rparr>"
    by (auto simp: get_numberbatch_eq io_bind_Inr_iff)
  have "has_file env s3 numberbatch_filename numberbatch_filename_hash"
    using unzip_stage_has_file [OF u] numberbatch_filenames_distinct by blast
  with s' show ?thesis by simp
qed

lemma get_numberbatch_frame:
  assumes "get_numberbatch env s = (Inr (), s')" and "f \<noteq> numberbatch_filename_zipped" and "f \<noteq> numberbatch_filename"
  shows "files s' f = files s f"
proof -
  from assms(1) obtain s1 s2 where
    d: "download_stage env (\<not> has_file env s numberbatch_filename numberbatch_filename_hash \<and>
                 \<not> has_file env s numberbatch_filename_zipped numberbatch_filename_zipped_hash)
                numberbatch_url numberbatch_filename_zipped numberbatch_filename_zipped_hash ''NumberBatch download failed!''
          (s\<lparr>printed := printed s @ [''Retrieving NumberBatch...'']\<rparr>) = (Inr (), s1)" and
    u: "unzip_stage env (\<not> has_file env s numberbatch_filename numberbatch_filename_hash)
                numberbatch_filename_zipped numberbatch_filename numberbatch_filename_hash ''NumberBatch extraction failed!''
          s1 = (Inr (), s2)" and
    s': "s' = s2\<lparr>printed := printed s2 @ [''Done!'' @ [NL]]\<rparr>"
    by (auto simp: get_numberbatch_eq io_bind_Inr_iff)
  from download_stage_frame [OF d assms(2)] unzip_stage_frame [OF u assms(2,3)] s' show ?thesis by simp
qed


section \<open>Evaluation of the example\<close>

lemma example_filter_lines:
  "filter_lines example_env (py_lines example_assertions) = Inr [example_filtered]"
proof -
  have "py_lines example_assertions = [example_assertion1, example_assertion2]"
    by (simp add: example_assertions_def example_assertion1_def example_assertion2_def py_lines.simps)
  moreover have "filter_line example_env example_assertion1 = Inr (Some example_filtered)"
    by (simp add: filter_line_def example_assertion1_def example_filtered_def example_env_def py_startswith_def)
  moreover have "filter_line example_env example_assertion2 = Inr None"
    by (simp add: filter_line_def example_assertion2_def py_startswith_def)
  ultimately show ?thesis by simp
qed

lemma example_hashes:
  "conceptnet_filename_zipped_hash \<noteq> conceptnet_filename_hash"
  "conceptnet_filename_zipped_hash \<noteq> conceptnet_filename_filtered_hash"
  "conceptnet_filename_hash \<noteq> conceptnet_filename_filtered_hash"
  "numberbatch_filename_zipped_hash \<noteq> numberbatch_filename_hash"
  "conceptnet_filename_zipped_hash \<noteq> numberbatch_filename_zipped_hash"
  "conceptnet_filename_zipped_hash \<noteq> numberbatch_filename_hash"
  "conceptnet_filename_hash \<noteq> numberbatch_filename_zipped_hash"
  "conceptnet_filename_hash \<noteq> numberbatch_filename_hash"
  "conceptnet_filename_filtered_hash \<noteq> numberbatch_filename_zipped_hash"
  "conceptnet_filename_filtered_hash \<noteq> numberbatch_filename_hash"
  "conceptnet_filename_zipped_hash \<noteq> ''0''" "conceptnet_filename_hash \<noteq> ''0''" "conceptnet_filename_filtered_hash \<noteq> ''0''"
  "numberbatch_filename_zipped_hash \<noteq> ''0''" "numberbatch_filename_hash \<noteq> ''0''"
  by (simp_all add: conceptnet_filename_zipped_hash_def conceptnet_filename_hash_def conceptnet_filename_filtered_hash_def
                    numberbatch_filename_zipped_hash_def numberbatch_filename_hash_def)

lemma example_strings:
  "example_assertions \<noteq> ''Z''" "example_filtered \<noteq> ''Z''" "example_filtered \<noteq> example_assertions"
  "example_assertions \<noteq> ''N''" "example_filtered \<noteq> ''N''" "example_assertions \<noteq> ''E''" "example_filtered \<noteq> ''E''"
  by (simp_all add: example_assertions_def example_assertion1_def example_assertion2_def example_filtered_def)

lemma example_env_sha:
  "sha example_env c = conceptnet_filename_zipped_hash \<longleftrightarrow> c = ''Z''"
  "sha example_env c = conceptnet_filename_hash \<longleftrightarrow> c = example_assertions"
  "sha example_env c = conceptnet_filename_filtered_hash \<longleftrightarrow> c = example_filtered"
  "sha example_env c = numberbatch_filename_zipped_hash \<longleftrightarrow> c = ''N''"
  "sha example_env c = numberbatch_filename_hash \<longleftrightarrow> c = ''E''"
  using example_hashes example_strings by (auto simp: example_env_def)

lemma example_run:
  "get_conceptnet example_env \<lparr>files = Map.empty, printed = []\<rparr> =
     (Inr (), \<lparr>files = [conceptnet_filename_filtered \<mapsto> example_filtered],
               printed = [''Retrieving ConceptNet...'', ''Download OK!'', ''Extraction OK!'', ''Filtering OK!'', ''Done!'' @ [NL]]\<rparr>)"
proof -
  have "net example_env conceptnet_url = Some ''Z''" "gunzip example_env ''Z'' = (example_assertions, True)"
    by (simp_all add: example_env_def)
  with example_env_sha example_filter_lines conceptnet_filenames_distinct show ?thesis
    by (simp add: get_conceptnet_eq io_bind_def has_file_def download_stage_ok unzip_stage_ok filter_stage_ok
                  fun_upd_twist)
qed


lemma numberbatch_url_ne: "numberbatch_url \<noteq> conceptnet_url"
  by (simp add: numberbatch_url_def conceptnet_url_def)

lemma example_nb_run:
  "get_numberbatch example_env \<lparr>files = [conceptnet_filename_filtered \<mapsto> example_filtered], printed = p\<rparr> =
     (Inr (), \<lparr>files = [conceptnet_filename_filtered \<mapsto> example_filtered, numberbatch_filename \<mapsto> ''E''],
               printed = p @ [''Retrieving NumberBatch...'', ''Download OK!'', ''Extraction OK!'', ''Done!'' @ [NL]]\<rparr>)"
proof -
  have "net example_env numberbatch_url = Some ''N''" "gunzip example_env ''N'' = (''E'', True)"
    using numberbatch_url_ne by (simp_all add: example_env_def)
  with example_env_sha numberbatch_filenames_distinct show ?thesis
    by (simp add: get_numberbatch_eq io_bind_def has_file_def download_stage_ok unzip_stage_ok fun_upd_twist)
qed

section \<open>Properties of the download script\<close>

text \<open>C16. A run of \<open>get_conceptnet()\<close> that returns leaves the filtered
  assertions file on disk with its expected SHA-256, whichever stages it
  skipped.\<close>

theorem get_conceptnet_establishes:
  assumes "get_conceptnet env s = (Inr (), s')"
  shows "has_file env s' conceptnet_filename_filtered conceptnet_filename_filtered_hash"
  using assms by (rule get_conceptnet_post)

theorem get_conceptnet_establishes_witness:
  "get_conceptnet example_env \<lparr>files = Map.empty, printed = []\<rparr> =
     (Inr (), \<lparr>files = [conceptnet_filename_filtered \<mapsto> example_filtered],
               printed = [''Retrieving ConceptNet...'', ''Download OK!'', ''Extraction OK!'', ''Filtering OK!'', ''Done!'' @ [NL]]\<rparr>) \<and>
   has_file example_env \<lparr>files = [conceptnet_filename_filtered \<mapsto> example_filtered],
               printed = [''Retrieving ConceptNet...'', ''Download OK!'', ''Extraction OK!'', ''Filtering OK!'', ''Done!'' @ [NL]]\<rparr>
     conceptnet_filename_filtered conceptnet_filename_filtered_hash"
  using get_conceptnet_establishes [OF example_run] example_run by simp

text \<open>C17. Rerunning \<open>get_conceptnet()\<close> after a run that returned skips
  every stage: it only prints, and leaves the file system as it was.\<close>

theorem get_conceptnet_idempotent:
  assumes "get_conceptnet env s = (Inr (), s')"
  shows "get_conceptnet env s' =
           (Inr (), s'\<lparr>printed := printed s' @ [''Retrieving ConceptNet...'', ''Skipping download!'',
                       ''Skipping extraction!'', ''Skipping filtering!'', ''Done!'' @ [NL]]\<rparr>)"
  using get_conceptnet_skip [OF get_conceptnet_post [OF assms]] .

theorem get_conceptnet_idempotent_witness:
  "get_conceptnet example_env \<lparr>files = [conceptnet_filename_filtered \<mapsto> example_filtered],
               printed = [''Retrieving ConceptNet...'', ''Download OK!'', ''Extraction OK!'', ''Filtering OK!'', ''Done!'' @ [NL]]\<rparr> =
     (Inr (), \<lparr>files = [conceptnet_filename_filtered \<mapsto> example_filtered],
               printed = [''Retrieving ConceptNet...'', ''Download OK!'', ''Extraction OK!'', ''Filtering OK!'', ''Done!'' @ [NL],
                          ''Retrieving ConceptNet...'', ''Skipping download!'', ''Skipping extraction!'', ''Skipping filtering!'',
                          ''Done!'' @ [NL]]\<rparr>)"
  using get_conceptnet_idempotent [OF example_run] by simp

text \<open>C18. With a network that serves the expected archive and a hash function
  without collisions on the three expected hashes, \<open>get_conceptnet()\<close>
  returns from every starting file system, with the filtered file holding
  exactly the lines the filter writes for the archive's contents: the
  script resumes after an interruption at any stage.\<close>

lemma get_conceptnet_completes:
  assumes net: "net env conceptnet_url = Some z" and hz: "sha env z = conceptnet_filename_zipped_hash"
      and gz: "gunzip env z = (u, True)" and hu: "sha env u = conceptnet_filename_hash"
      and flt: "filter_lines env (py_lines u) = Inr outs"
      and hf: "sha env (concat outs) = conceptnet_filename_filtered_hash"
      and cz: "\<forall>c. sha env c = conceptnet_filename_zipped_hash \<longrightarrow> c = z"
      and cu: "\<forall>c. sha env c = conceptnet_filename_hash \<longrightarrow> c = u"
      and cf: "\<forall>c. sha env c = conceptnet_filename_filtered_hash \<longrightarrow> c = concat outs"
  shows "\<exists>s'. get_conceptnet env s = (Inr (), s') \<and> files s' conceptnet_filename_filtered = Some (concat outs)"
proof (cases "has_file env s conceptnet_filename_filtered conceptnet_filename_filtered_hash")
  case True
  with has_file_unique [OF True cf] show ?thesis by (simp add: get_conceptnet_skip)
next
  case nf: False
  show ?thesis
  proof (cases "has_file env s conceptnet_filename conceptnet_filename_hash")
    case True
    with has_file_unique [OF True cu] nf flt hf conceptnet_filenames_distinct show ?thesis
      by (simp add: get_conceptnet_eq io_bind_def filter_stage_ok)
  next
    case nu: False
    show ?thesis
    proof (cases "has_file env s conceptnet_filename_zipped conceptnet_filename_zipped_hash")
      case True
      with has_file_unique [OF True cz] nf nu gz hu flt hf conceptnet_filenames_distinct show ?thesis
        by (simp add: get_conceptnet_eq io_bind_def unzip_stage_ok filter_stage_ok)
    next
      case False
      with nf nu net hz gz hu flt hf conceptnet_filenames_distinct show ?thesis
        by (simp add: get_conceptnet_eq io_bind_def download_stage_ok unzip_stage_ok filter_stage_ok)
    qed
  qed
qed

theorem get_conceptnet_completes_witness:
  "\<exists>s'. get_conceptnet example_env \<lparr>files = [conceptnet_filename \<mapsto> ''corrupt''], printed = []\<rparr> = (Inr (), s') \<and>
        files s' conceptnet_filename_filtered = Some (concat [example_filtered])"
proof -
  have "net example_env conceptnet_url = Some ''Z''" "gunzip example_env ''Z'' = (example_assertions, True)"
    by (simp_all add: example_env_def)
  with example_env_sha example_filter_lines show ?thesis
    by (intro get_conceptnet_completes) simp_all
qed

text \<open>C19. When the downloaded archive has the wrong hash, \<open>get_conceptnet()\<close>
  exits with \<open>ConceptNet download failed!\<close> and leaves the corrupted
  archive on disk.\<close>

theorem get_conceptnet_bad_download:
  assumes "\<not> has_file env s conceptnet_filename_filtered conceptnet_filename_filtered_hash"
      and "\<not> has_file env s conceptnet_filename conceptnet_filename_hash"
      and "\<not> has_file env s conceptnet_filename_zipped conceptnet_filename_zipped_hash"
      and "net env conceptnet_url = Some z" and "sha env z \<noteq> conceptnet_filename_zipped_hash"
  shows "get_conceptnet env s =
           (Inl (SysExit ''ConceptNet download failed!''),
            s\<lparr>files := (files s)(conceptnet_filename_zipped \<mapsto> z), printed := printed s @ [''Retrieving ConceptNet...'']\<rparr>)"
  using assms
  by (simp add: get_conceptnet_eq io_bind_def download_stage_def download_file_def check_hash_eq has_file_def)

theorem get_conceptnet_bad_download_witness:
  "get_conceptnet example_bad_env \<lparr>files = Map.empty, printed = []\<rparr> =
     (Inl (SysExit ''ConceptNet download failed!''),
      \<lparr>files = [conceptnet_filename_zipped \<mapsto> ''Y''], printed = [''Retrieving ConceptNet...'']\<rparr>)"
proof -
  have "sha example_bad_env ''Y'' \<noteq> conceptnet_filename_zipped_hash"
    using example_env_sha(1) [of "''Y''"] by (simp add: example_bad_env_def)
  moreover have "net example_bad_env conceptnet_url = Some ''Y''" by (simp add: example_bad_env_def)
  ultimately show ?thesis
    by (subst get_conceptnet_bad_download) (simp_all add: has_file_def)
qed

text \<open>C20. \<open>filter_conceptnet\<close>, the \<open>readline\<close> loop appending to the output
  file, computes the pure line-by-line filter: it fails exactly when the
  filter fails, with the same exception, and on success the output file holds
  the concatenation of the lines written.\<close>

theorem filter_conceptnet_refines:
  assumes "files s file_all = Some txt"
  shows "fst (filter_conceptnet env file_all file_filtered s) = map_sum id (\<lambda>_. ()) (filter_lines env (py_lines txt)) \<and>
         (\<forall>outs. filter_lines env (py_lines txt) = Inr outs \<longrightarrow>
            snd (filter_conceptnet env file_all file_filtered s) = s\<lparr>files := (files s)(file_filtered \<mapsto> concat outs)\<rparr>)"
proof
  show "fst (filter_conceptnet env file_all file_filtered s) = map_sum id (\<lambda>_. ()) (filter_lines env (py_lines txt))"
    using assms by (simp add: filter_conceptnet_def filter_loop_result)
  show "\<forall>outs. filter_lines env (py_lines txt) = Inr outs \<longrightarrow>
            snd (filter_conceptnet env file_all file_filtered s) = s\<lparr>files := (files s)(file_filtered \<mapsto> concat outs)\<rparr>"
    using assms by (simp add: filter_conceptnet_lines)
qed

theorem filter_conceptnet_refines_witness:
  "fst (filter_conceptnet example_env conceptnet_filename conceptnet_filename_filtered
          \<lparr>files = [conceptnet_filename \<mapsto> example_assertions], printed = []\<rparr>) = Inr () \<and>
   snd (filter_conceptnet example_env conceptnet_filename conceptnet_filename_filtered
          \<lparr>files = [conceptnet_filename \<mapsto> example_assertions], printed = []\<rparr>) =
     \<lparr>files = [conceptnet_filename \<mapsto> example_assertions, conceptnet_filename_filtered \<mapsto> example_filtered], printed = []\<rparr>"
  using filter_conceptnet_refines [of "\<lparr>files = [conceptnet_filename \<mapsto> example_assertions], printed = []\<rparr>"
          conceptnet_filename example_assertions example_env conceptnet_filename_filtered]
  by (simp add: example_filter_lines)

text \<open>C21. Every file \<open>filter_conceptnet\<close> writes reads back, line by line,
  as the lines it wrote, each of exactly four tab-separated fields (the
  relation and two concepts, none containing a slash, then the weight and
  the newline), provided the weight's string has no tab or newline.\<close>

theorem filter_conceptnet_output:
  assumes "filter_conceptnet env file_all file_filtered s = (Inr (), s')"
      and "\<forall>m w. jweight env m = Some w \<longrightarrow> TAB \<notin> set w \<and> NL \<notin> set w"
  shows "\<exists>outs. files s' file_filtered = Some (concat outs) \<and> py_lines (concat outs) = outs \<and>
           (\<forall>l\<in>set outs. \<exists>rel c1 c2 w. py_split_sep TAB l = [rel, c1, c2, w @ [NL]] \<and>
                CHR ''/'' \<notin> set rel \<and> CHR ''/'' \<notin> set c1 \<and> CHR ''/'' \<notin> set c2)"
  using assms by (rule filter_conceptnet_writes)

theorem filter_conceptnet_output_witness:
  "filter_conceptnet example_env conceptnet_filename conceptnet_filename_filtered
      \<lparr>files = [conceptnet_filename \<mapsto> example_assertions], printed = []\<rparr> =
    (Inr (), \<lparr>files = [conceptnet_filename \<mapsto> example_assertions, conceptnet_filename_filtered \<mapsto> example_filtered], printed = []\<rparr>) \<and>
   py_split_sep TAB example_filtered = [''PartOf'', ''arm'', ''hand'', ''0.9'' @ [NL]]"
proof -
  have run: "filter_conceptnet example_env conceptnet_filename conceptnet_filename_filtered
      \<lparr>files = [conceptnet_filename \<mapsto> example_assertions], printed = []\<rparr> =
    (Inr (), \<lparr>files = [conceptnet_filename \<mapsto> example_assertions, conceptnet_filename_filtered \<mapsto> example_filtered], printed = []\<rparr>)"
    by (simp add: filter_conceptnet_lines example_filter_lines)
  have jw: "\<forall>m w. jweight example_env m = Some w \<longrightarrow> TAB \<notin> set w \<and> NL \<notin> set w"
    by (simp add: example_env_def)
  from filter_conceptnet_output [OF run jw] run show ?thesis
    by (simp add: example_filtered_def)
qed

text \<open>C22. A run of the script (\<open>get_conceptnet()\<close> then
  \<open>get_numberbatch()\<close>) that returns leaves both files the library loads on
  disk with their expected hashes: the second function does not touch the
  first one's output.\<close>

theorem get_data_main_establishes:
  assumes "get_data_main env s = (Inr (), s')"
  shows "has_file env s' conceptnet_filename_filtered conceptnet_filename_filtered_hash \<and>
         has_file env s' numberbatch_filename numberbatch_filename_hash"
proof -
  from assms obtain s1 where c: "get_conceptnet env s = (Inr (), s1)" and n: "get_numberbatch env s1 = (Inr (), s')"
    by (auto simp: get_data_main_def io_bind_Inr_iff)
  have "files s' conceptnet_filename_filtered = files s1 conceptnet_filename_filtered"
    using get_numberbatch_frame [OF n] numberbatch_filenames_distinct by blast
  with get_conceptnet_post [OF c] get_numberbatch_post [OF n] show ?thesis by (simp add: has_file_def)
qed



theorem get_data_main_establishes_witness:
  "get_data_main example_env \<lparr>files = Map.empty, printed = []\<rparr> =
     (Inr (), \<lparr>files = [conceptnet_filename_filtered \<mapsto> example_filtered, numberbatch_filename \<mapsto> ''E''],
               printed = [''Retrieving ConceptNet...'', ''Download OK!'', ''Extraction OK!'', ''Filtering OK!'', ''Done!'' @ [NL],
                          ''Retrieving NumberBatch...'', ''Download OK!'', ''Extraction OK!'', ''Done!'' @ [NL]]\<rparr>) \<and>
   has_file example_env \<lparr>files = [conceptnet_filename_filtered \<mapsto> example_filtered, numberbatch_filename \<mapsto> ''E''],
               printed = []\<rparr> numberbatch_filename numberbatch_filename_hash"
proof -
  have run: "get_data_main example_env \<lparr>files = Map.empty, printed = []\<rparr> =
     (Inr (), \<lparr>files = [conceptnet_filename_filtered \<mapsto> example_filtered, numberbatch_filename \<mapsto> ''E''],
               printed = [''Retrieving ConceptNet...'', ''Download OK!'', ''Extraction OK!'', ''Filtering OK!'', ''Done!'' @ [NL],
                          ''Retrieving NumberBatch...'', ''Download OK!'', ''Extraction OK!'', ''Done!'' @ [NL]]\<rparr>)"
    by (simp add: get_data_main_def io_bind_def example_run example_nb_run)
  from get_data_main_establishes [OF run] run show ?thesis by (simp add: has_file_def)
qed

text \<open>C30. When the download itself fails (\<open>requests\<close> raises), nothing is
  written: the exception propagates with the file system unchanged.\<close>

theorem get_conceptnet_network_error:
  assumes "\<not> has_file env s conceptnet_filename_filtered conceptnet_filename_filtered_hash"
      and "\<not> has_file env s conceptnet_filename conceptnet_filename_hash"
      and "\<not> has_file env s conceptnet_filename_zipped conceptnet_filename_zipped_hash"
      and "net env conceptnet_url = None"
  shows "get_conceptnet env s = (Inl HTTPError, s\<lparr>printed := printed s @ [''Retrieving ConceptNet...'']\<rparr>)"
  using assms by (simp add: get_conceptnet_eq io_bind_def download_stage_def download_file_def)

theorem get_conceptnet_network_error_witness:
  "get_conceptnet example_offline_env \<lparr>files = Map.empty, printed = []\<rparr> =
     (Inl HTTPError, \<lparr>files = Map.empty, printed = [''Retrieving ConceptNet...'']\<rparr>)"
  by (subst get_conceptnet_network_error) (simp_all add: has_file_def example_offline_env_def)

end
