(* ===== verification/Spec2Isabelle.thy ===== *)
theory Spec2Isabelle
  imports Query GetData
begin

text \<open>
  \<^bold>\<open>A verification development of conceptnet-pytools.\<close>

  \<^bold>\<open>The program.\<close> src/conceptnet.py defines the class \<open>ConceptNet\<close>. Its
  constructor loads two files: a NumberBatch embedding file, which becomes
  the embedding table \<open>self.concepts\<close> (optionally deduplicated by vector);
  then a ConceptNet relation file of tab-separated lines, which becomes two
  adjacency structures \<open>self.outbonds\<close> and \<open>self.inbonds\<close> (lines whose
  label is not whitelisted are skipped; with \<open>remove_dangling\<close>, so are lines
  whose endpoints have no embedding). Its public methods \<open>get_embedding\<close>,
  \<open>query_concept\<close> and \<open>query_edge\<close> read the built object. src/get_data.py
  downloads, checks (SHA-256), unzips and filters the two files the class
  loads. src/test.py prints a few queries.

  \<^bold>\<open>Theories, and how they correspond to the code.\<close>
  \<^item> \<open>Prelude\<close>: Python exceptions as the datatype \<open>py_error\<close> and fallible
    results as \<open>py_error + 'a\<close>, sequenced by \<open>py_bind\<close>; indexing
    \<open>py_nth\<close> that raises IndexError; dicts as association lists updated by
    \<open>AList.update\<close> (CPython's insertion order); \<open>d.get\<close> as \<open>dict_get\<close>.
  \<^item> \<open>PyStr\<close>: the string builtins the code calls (\<open>str.split\<close> with and
    without separator, \<open>readline\<close> and the lines of a file, \<open>startswith\<close>,
    \<open>int\<close>, \<open>float\<close> on decimal tokens), with their round trips.
  \<^item> \<open>Numberbatch\<close>: \<open>__load_numberbatch\<close> (lines 47--76). The loop state is
    the record \<open>nb_state\<close> (\<open>self.concepts\<close> and \<open>known_embeddings\<close>);
    \<open>parse_row\<close>, \<open>bucket_has_equal\<close> and \<open>add_embedding\<close> are one row, and
    \<open>load_rows\<close> the \<open>for\<close> loop over the declared number of rows. The
    bucket algorithm is proved to compute a reference policy without buckets
    (\<open>add_embedding_spec\<close>, "keep the first concept of each vector"), and
    the loop to be a fold \<open>load_row_list\<close> over the file's first rows, from
    which the load's error exits follow (a truncated file, a row of the wrong
    length, dimension 0 under deduplication).
  \<^item> \<open>Graph\<close>: \<open>__add_outbond\<close>, \<open>__add_inbond\<close>, \<open>__load_conceptnet\<close> and the
    constructor (lines 11--117). The object is the record \<open>conceptnet\<close>; one
    line is \<open>load_line\<close>, the \<open>while line:\<close> loop is \<open>load_conceptnet\<close>, the
    constructor \<open>conceptnet_init\<close>. The loaded graph is abstracted to the
    partial map \<open>lookup3\<close> and proved to be the max-accumulation of the
    accepted edges (\<open>accepted_edges\<close>, \<open>out_weights\<close>, \<open>in_weights\<close>); the
    invariant \<open>graph_wf\<close> (distinct keys at every level) holds of every built
    object. Lines of the wrong shape are characterised: extra fields are
    ignored, short lines raise IndexError or are skipped as dangling.
  \<^item> \<open>Query\<close>: \<open>__edge_list\<close>, \<open>__get_outbonds\<close>, \<open>__get_inbonds\<close>,
    \<open>get_embedding\<close>, \<open>query_concept\<close>, \<open>query_edge\<close> (lines 119--171), as
    functions of the built record, characterised as sets of stored edges.
  \<^item> \<open>GetData\<close>: src/get_data.py. A state \<open>gd_state\<close> holds the file system
    and the printed lines; an operation returns its result or exception
    together with the state, so what an interrupted run leaves on disk is
    modelled. The network, SHA-256, gzip and JSON are parameters
    (\<open>gd_env\<close>). The three stages shared by \<open>get_conceptnet\<close> and
    \<open>get_numberbatch\<close> are \<open>download_stage\<close>, \<open>unzip_stage\<close> and
    \<open>filter_stage\<close>; \<open>filter_conceptnet\<close> is proved to compute the pure
    \<open>filter_lines\<close>.
  \<^item> This theory: properties that span the download script and the loader.

  \<^bold>\<open>What the lemmas show.\<close> Each component theory ends with a section of
  properties, each introduced by a text naming its claim: the refinements
  (bucket deduplication against its reference, the loader against the
  accepted edges, the filter loop against the pure filter), the invariants of
  the built object (maximum weight, symmetric relations only outbound,
  inbound the mirror of outbound, no dangling edge, only whitelisted labels),
  the functional behaviour of the queries, the behaviour of the loaders on
  malformed input (truncated files, rows and lines of the wrong length),
  liveness and idempotence of the download script, its error exits, and the
  safety of the loader on the filter's output. Each theorem
  with a hypothesis has a witness that applies it to the specification's
  example files or to a concrete download environment.

  \<^bold>\<open>Bounds and fuel.\<close> No fuel is used: every loop of the program is a
  structural recursion (\<open>load_rows\<close> over the declared row count,
  \<open>filter_loop\<close> and \<open>load_lines\<close> over the lines) or a \<open>function\<close> whose
  termination is proved by the length of the remaining file
  (\<open>load_conceptnet\<close>, \<open>py_lines\<close>, \<open>py_split_ws\<close>), so every run returns.
  Python's floats are read as exact reals (\<open>py_float\<close>); rounding to a
  binary float is monotone and does not change which of two weights is
  larger. Vectors and weights are type parameters where the claims allow.

  \<^bold>\<open>Not modelled.\<close> Output to the terminal in conceptnet.py (the progress
  bar \<open>tqdm\<close> and the \<open>print\<close> calls, which do not affect the state);
  \<open>os.stat\<close>, used only for the progress bar; the file \<open>edge_weights\<close>, which
  the code initialises and never uses; the contents of the network, of
  SHA-256, of gzip and of JSON, which are parameters; text-mode newline
  translation of \<open>open(..., 'r')\<close>; streaming failures in the middle of a
  download; src/test.py, which only prints the results of the modelled
  queries on the real data files.
\<close>

section \<open>The filtered file, read by the loader\<close>

text \<open>C23. The file \<open>get_data.py\<close> writes is a file the \<open>ConceptNet\<close> loader
  reads without an IndexError: every line of it has the four fields the
  loader indexes, so loading it can raise only the ValueError of
  \<open>float()\<close>, and with a weight parser that accepts every field it always
  succeeds.\<close>

theorem filtered_file_loads:
  assumes "filter_conceptnet env file_all file_filtered s = (Inr (), s')"
      and "\<forall>m w. jweight env m = Some w \<longrightarrow> TAB \<notin> set w \<and> NL \<notin> set w"
      and "files s' file_filtered = Some content"
  shows "(\<forall>e. load_conceptnet fl rd content (cn :: ('f, 'w::{linorder, zero}) conceptnet) = Inl e \<longrightarrow> e = ValueError) \<and>
         ((\<forall>x. fl x \<noteq> None) \<longrightarrow> (\<exists>cn'. load_conceptnet fl rd content cn = Inr cn'))"
proof -
  from filter_conceptnet_writes [OF assms(1,2)] assms(3) obtain outs where
    c: "content = concat outs" and lines: "py_lines (concat outs) = outs" and
    f: "\<forall>l\<in>set outs. \<exists>rel c1 c2 w. py_split_sep TAB l = [rel, c1, c2, w @ [NL]] \<and>
                CHR ''/'' \<notin> set rel \<and> CHR ''/'' \<notin> set c1 \<and> CHR ''/'' \<notin> set c2"
    by auto
  have load: "load_conceptnet fl rd content cn = load_lines fl rd outs cn"
    by (simp add: load_conceptnet_lines c lines)
  have err: "\<forall>l\<in>set outs. \<forall>c :: ('f, 'w) conceptnet. load_line fl rd l c = Inl e \<longrightarrow> e = ValueError" for e
  proof (intro ballI allI impI)
    fix l and c :: "('f, 'w) conceptnet"
    assume "l \<in> set outs" and "load_line fl rd l c = Inl e"
    with f show "e = ValueError" by (metis load_line_four_fields(1))
  qed
  have tot: "\<forall>l\<in>set outs. \<forall>c :: ('f, 'w) conceptnet. \<exists>c'. load_line fl rd l c = Inr c'" if "\<forall>x. fl x \<noteq> None"
  proof (intro ballI allI)
    fix l and c :: "('f, 'w) conceptnet"
    assume "l \<in> set outs"
    with f obtain rel c1 c2 w where "py_split_sep TAB l = [rel, c1, c2, w @ [NL]]" by blast
    with that show "\<exists>c'. load_line fl rd l c = Inr c'" by (simp add: load_line_four_fields(2))
  qed
  show ?thesis
    using load load_lines_error [OF _ err] load_lines_total [OF tot] by auto
qed

theorem filtered_file_loads_witness:
  "load_conceptnet py_float True example_filtered (example_state [] []) \<noteq> Inl IndexError"
proof -
  have run: "filter_conceptnet example_env conceptnet_filename conceptnet_filename_filtered
      \<lparr>files = [conceptnet_filename \<mapsto> example_assertions], printed = []\<rparr> =
    (Inr (), \<lparr>files = [conceptnet_filename \<mapsto> example_assertions, conceptnet_filename_filtered \<mapsto> example_filtered],
              printed = []\<rparr>)"
    by (simp add: filter_conceptnet_lines example_filter_lines)
  have jw: "\<forall>m w. jweight example_env m = Some w \<longrightarrow> TAB \<notin> set w \<and> NL \<notin> set w"
    by (simp add: example_env_def)
  have fs: "files \<lparr>files = [conceptnet_filename \<mapsto> example_assertions, conceptnet_filename_filtered \<mapsto> example_filtered],
              printed = []\<rparr> conceptnet_filename_filtered = Some example_filtered"
    by simp
  from filtered_file_loads [OF run jw fs, of py_float True "example_state [] []"]
  have "\<forall>e. load_conceptnet py_float True example_filtered (example_state [] []) = Inl e \<longrightarrow> e = ValueError"
    by (rule conjunct1)
  then show ?thesis by auto
qed

end
